theory Spec2Isabelle
  imports Main "HOL-Library.Word" "HOL-Library.Monad_Syntax" "HOL-Library.Signed_Division"
begin

section \<open>Data model (entity.go, cell.go, config.go, world.go)\<close>

text \<open>
  Go's \<open>int\<close> is a 64-bit two's complement integer on the platforms the program targets.
  The per-cell counters \<open>BreedTimer\<close> and \<open>Energy\<close> and the rule parameters are modelled
  as 64-bit words, so that \<open>BreedTimer + 1\<close> and \<open>Energy - 1\<close> wrap as they do in Go and
  comparisons are the signed ones.  Grid sizes, indices and loop counters are modelled as
  mathematical integers: they are bounded by the length of an allocated slice, and every
  out-of-range index is an explicit failure (\<open>None\<close>) of the model, as it is a run-time
  panic of the program.
\<close>

datatype Entity = Empty | Fish | Shark

type_synonym go_int = "64 word"

record Cell =
  Entity :: Entity
  BreedTimer :: go_int
  Energy :: go_int

record Config =
  NumShark :: int
  NumFish :: int
  FishBreed :: go_int
  SharkBreed :: go_int
  Starve :: go_int
  GridSize :: int
  Threads :: int
  Chronons :: int
  DrawEvery :: int
  BenchFile :: string

record World =
  Size :: int
  Cells :: "Cell list list"
  wFishBreed :: go_int
  wSharkBreed :: go_int
  wStarve :: go_int

text \<open>The zero value of \<open>Cell\<close>, as \<open>make([]Cell, n)\<close> fills a fresh slice with.\<close>

definition zeroCell :: Cell where
  "zeroCell = \<lparr>Entity = Empty, BreedTimer = 0, Energy = 0\<rparr>"

text \<open>Slice indexing \<open>xs[i]\<close>: a panic (\<open>None\<close>) when the index is out of range.\<close>

definition index :: "'a list \<Rightarrow> int \<Rightarrow> 'a option" where
  "index xs i = (if 0 \<le> i \<and> i < int (length xs) then Some (xs ! nat i) else None)"

text \<open>\<open>w.Cells[r][c]\<close> read and \<open>w.Cells[r][c] = v\<close> written; the rows are separate slices.\<close>

definition getCell :: "World \<Rightarrow> int \<Rightarrow> int \<Rightarrow> Cell option" where
  "getCell w r c = do { cells \<leftarrow> index (Cells w) r; index cells c }"

definition setCell :: "World \<Rightarrow> int \<Rightarrow> int \<Rightarrow> Cell \<Rightarrow> World option" where
  "setCell w r c v = do {
     cells \<leftarrow> index (Cells w) r;
     _ \<leftarrow> index cells c;
     Some (w\<lparr>Cells := (Cells w)[nat r := cells[nat c := v]]\<rparr>)
   }"

text \<open>\<open>make([][]Cell, n)\<close> with every row \<open>make([]Cell, n)\<close>; a negative length panics.\<close>

definition makeCells :: "int \<Rightarrow> Cell list list option" where
  "makeCells n = (if n < 0 then None else Some (replicate (nat n) (replicate (nat n) zeroCell)))"

definition NewWorld :: "Config \<Rightarrow> World option" where
  "NewWorld cfg = do {
     cells \<leftarrow> makeCells (GridSize cfg);
     Some \<lparr>Size = GridSize cfg, Cells = cells, wFishBreed = FishBreed cfg,
           wSharkBreed = SharkBreed cfg, wStarve = Starve cfg\<rparr>
   }"

definition wrap :: "World \<Rightarrow> int \<Rightarrow> int" where
  "wrap w i = (if i < 0 then i + Size w else if i \<ge> Size w then i - Size w else i)"

definition Neighbors :: "World \<Rightarrow> int \<Rightarrow> int \<Rightarrow> (int \<times> int) list" where
  "Neighbors w row col =
     [(wrap w (row - 1), col), (wrap w (row + 1), col),
      (row, wrap w (col - 1)), (row, wrap w (col + 1))]"

section \<open>Random source (math/rand)\<close>

text \<open>
  The generator \<open>*rand.Rand\<close> belongs to Go's standard library, not to the repository, so
  it is taken as a parameter.  Its state is an arbitrary type \<open>'r\<close>, and the generator
  itself is an argument \<open>gen\<close> of every function that draws: \<open>gen rnd n\<close> is the
  value \<open>rnd.Intn(n)\<close> returns together with the state it leaves.  \<open>Intn\<close> panics for
  \<open>n \<le> 0\<close>; for \<open>n > 0\<close> the library promises a result in \<open>[0, n)\<close>, which is the predicate
  \<open>draws_in_range\<close>.
\<close>

type_synonym 'r gen = "'r \<Rightarrow> int \<Rightarrow> int \<times> 'r"

definition Intn :: "'r gen \<Rightarrow> 'r \<Rightarrow> int \<Rightarrow> (int \<times> 'r) option" where
  "Intn gen rnd n = (if n \<le> 0 then None else Some (gen rnd n))"

definition draws_in_range :: "'r gen \<Rightarrow> bool" where
  "draws_in_range gen = (\<forall>rnd n. 0 < n \<longrightarrow> 0 \<le> fst (gen rnd n) \<and> fst (gen rnd n) < n)"

section \<open>Loops\<close>

text \<open>\<open>for _, x := range xs { body }\<close> over a state; a panic in the body ends the run.\<close>

fun forEach :: "'a list \<Rightarrow> ('a \<Rightarrow> 's \<Rightarrow> 's option) \<Rightarrow> 's \<Rightarrow> 's option" where
  "forEach [] body s = Some s"
| "forEach (x # xs) body s = do { s' \<leftarrow> body x s; forEach xs body s' }"

text \<open>The values of \<open>i\<close> in \<open>for i := 0; i < n; i++\<close>.\<close>

definition upTo :: "int \<Rightarrow> int list" where
  "upTo n = [0..n - 1]"

text \<open>
  \<open>for _, n := range neighbors { if cond(n) { out = append(out, n) } }\<close>, where the
  condition reads the grids and so may panic.
\<close>

fun collect :: "('a \<Rightarrow> bool option) \<Rightarrow> 'a list \<Rightarrow> 'a list option" where
  "collect cond [] = Some []"
| "collect cond (n # ns) = do {
     b \<leftarrow> cond n;
     rest \<leftarrow> collect cond ns;
     Some (if b then n # rest else rest)
   }"

section \<open>Rule engine (simulation.go)\<close>

text \<open>
  The repository holds two variants of the step engine, and both are embedded.  This
  section and the next hold the single-threaded \<open>simulation.go\<close>, whose rules take
  \<open>(current, next, row, col, cfg, rnd)\<close>: its candidate loops also test the next grid, and
  it writes \<open>cfg.Starve\<close> on every newborn shark.  The multi-threaded variant (the
  \<open>simulation.go\<close> bundled in \<open>cell.go\<close>: goroutines over row ranges, a mutex around the
  writes, one generator per goroutine seeded from the clock) tests the current grid only
  and halves the energy of a newborn shark.  It follows these two sections, under the
  names \<open>stepFish_mt\<close>, \<open>stepShark_mt\<close> and \<open>StepWorld_mt\<close>, as a theory cannot hold two
  constants of one name.

  The fields of \<open>World\<close> that copy the rule parameters carry the prefix \<open>w\<close>, as a record
  of this theory cannot share field names with \<open>Config\<close>.
\<close>

text \<open>
  The condition \<open>current.Cells[nr][nc].Entity == e && next.Cells[nr][nc].Entity == Empty\<close>
  of the three candidate loops; \<open>&&\<close> reads the next grid only when the first test holds.
\<close>

definition candidate :: "Entity \<Rightarrow> World \<Rightarrow> World \<Rightarrow> int \<times> int \<Rightarrow> bool option" where
  "candidate e current next n = do {
     a \<leftarrow> getCell current (fst n) (snd n);
     if Entity a = e then do {
       b \<leftarrow> getCell next (fst n) (snd n);
       Some (Entity b = Empty)
     } else Some False
   }"

definition stepFish ::
  "'r gen \<Rightarrow> World \<Rightarrow> World \<Rightarrow> int \<Rightarrow> int \<Rightarrow> Config \<Rightarrow> 'r \<Rightarrow> (World \<times> 'r) option" where
  "stepFish gen current next row col cfg rnd = do {
     cell \<leftarrow> getCell current row col;
     emptySpots \<leftarrow> collect (candidate Empty current next) (Neighbors current row col);
     if length emptySpots = 0 then do {
       n1 \<leftarrow> setCell next row col
         \<lparr>Entity = Fish, BreedTimer = BreedTimer cell + 1, Energy = 0\<rparr>;
       Some (n1, rnd)
     } else do {
       (i, rnd') \<leftarrow> Intn gen rnd (int (length emptySpots));
       (nr, nc) \<leftarrow> index emptySpots i;
       if FishBreed cfg \<le>s BreedTimer cell + 1 then do {
         n1 \<leftarrow> setCell next row col \<lparr>Entity = Fish, BreedTimer = 0, Energy = 0\<rparr>;
         n2 \<leftarrow> setCell n1 nr nc \<lparr>Entity = Fish, BreedTimer = 0, Energy = 0\<rparr>;
         Some (n2, rnd')
       } else do {
         n1 \<leftarrow> setCell next nr nc
           \<lparr>Entity = Fish, BreedTimer = BreedTimer cell + 1, Energy = 0\<rparr>;
         Some (n1, rnd')
       }
     }
   }"

definition stepShark ::
  "'r gen \<Rightarrow> World \<Rightarrow> World \<Rightarrow> int \<Rightarrow> int \<Rightarrow> Config \<Rightarrow> 'r \<Rightarrow> (World \<times> 'r) option" where
  "stepShark gen current next row col cfg rnd = do {
     cell \<leftarrow> getCell current row col;
     let newEnergy = Energy cell - 1;
     if newEnergy \<le>s 0 then Some (next, rnd)
     else do {
       let neighbors = Neighbors current row col;
       fishTarget \<leftarrow> collect (candidate Fish current next) neighbors;
       if length fishTarget > 0 then do {
         (i, rnd') \<leftarrow> Intn gen rnd (int (length fishTarget));
         (nr, nc) \<leftarrow> index fishTarget i;
         if SharkBreed cfg \<le>s BreedTimer cell + 1 then do {
           n1 \<leftarrow> setCell next row col
             \<lparr>Entity = Shark, BreedTimer = 0, Energy = Starve cfg\<rparr>;
           n2 \<leftarrow> setCell n1 nr nc
             \<lparr>Entity = Shark, BreedTimer = 0, Energy = Starve cfg\<rparr>;
           Some (n2, rnd')
         } else do {
           n1 \<leftarrow> setCell next nr nc
             \<lparr>Entity = Shark, BreedTimer = BreedTimer cell + 1, Energy = Starve cfg\<rparr>;
           Some (n1, rnd')
         }
       } else do {
         emptyTarget \<leftarrow> collect (candidate Empty current next) neighbors;
         if length emptyTarget > 0 then do {
           (i, rnd') \<leftarrow> Intn gen rnd (int (length emptyTarget));
           (nr, nc) \<leftarrow> index emptyTarget i;
           if SharkBreed cfg \<le>s BreedTimer cell + 1 then do {
             n1 \<leftarrow> setCell next row col
               \<lparr>Entity = Shark, BreedTimer = 0, Energy = Starve cfg\<rparr>;
             n2 \<leftarrow> setCell n1 nr nc
               \<lparr>Entity = Shark, BreedTimer = 0, Energy = newEnergy\<rparr>;
             Some (n2, rnd')
           } else do {
             n1 \<leftarrow> setCell next nr nc
               \<lparr>Entity = Shark, BreedTimer = BreedTimer cell + 1, Energy = newEnergy\<rparr>;
             Some (n1, rnd')
           }
         } else do {
           n1 \<leftarrow> setCell next row col
             \<lparr>Entity = Shark, BreedTimer = BreedTimer cell + 1, Energy = newEnergy\<rparr>;
           Some (n1, rnd)
         }
       }
     }
   }"

section \<open>Step engine (simulation.go)\<close>

definition newEmptyWorldLike :: "World \<Rightarrow> World option" where
  "newEmptyWorldLike w = do {
     cells \<leftarrow> makeCells (Size w);
     Some \<lparr>Size = Size w, Cells = cells, wFishBreed = wFishBreed w,
           wSharkBreed = wSharkBreed w, wStarve = wStarve w\<rparr>
   }"

text \<open>The body of the inner loop of \<open>StepWorld\<close>, on the pair of the next grid and the generator.\<close>

definition visit ::
  "'r gen \<Rightarrow> World \<Rightarrow> Config \<Rightarrow> int \<Rightarrow> int \<Rightarrow> World \<times> 'r \<Rightarrow> (World \<times> 'r) option" where
  "visit gen w cfg row col st = do {
     claimed \<leftarrow> getCell (fst st) row col;
     if Entity claimed \<noteq> Empty then Some st
     else do {
       cell \<leftarrow> getCell w row col;
       case Entity cell of
         Fish \<Rightarrow> stepFish gen w (fst st) row col cfg (snd st)
       | Shark \<Rightarrow> stepShark gen w (fst st) row col cfg (snd st)
       | Empty \<Rightarrow> Some st
     }
   }"

text \<open>
  \<open>StepWorld\<close> returns the next grid; the generator is passed by pointer, so the state it
  is left in is part of the result here.
\<close>

definition StepWorld :: "'r gen \<Rightarrow> World \<Rightarrow> Config \<Rightarrow> 'r \<Rightarrow> (World \<times> 'r) option" where
  "StepWorld gen w cfg rnd = do {
     next \<leftarrow> newEmptyWorldLike w;
     forEach (upTo (Size w))
       (\<lambda>row. forEach (upTo (Size w)) (\<lambda>col. visit gen w cfg row col)) (next, rnd)
   }"

definition countEntities :: "World \<Rightarrow> Entity \<Rightarrow> int option" where
  "countEntities w e =
     forEach (upTo (Size w))
       (\<lambda>row. forEach (upTo (Size w))
          (\<lambda>col count. do {
             cell \<leftarrow> getCell w row col;
             Some (if Entity cell = e then count + 1 else count)
           })) 0"

section \<open>Rule and step engine, multi-threaded variant (simulation.go bundled in cell.go)\<close>

text \<open>
  The rules of this variant take the arguments of those above and a mutex.  \<open>mu.Lock()\<close>
  and \<open>mu.Unlock()\<close> bracket the writes of one call into the next grid, so that no write of
  another goroutine falls between them, and every read is of the current grid, which no
  goroutine writes.  A call is therefore modelled by the sequence of its own writes, and
  the mutex does not appear.
\<close>

text \<open>
  Go's \<open>x / 2\<close> on \<open>int\<close>: the quotient of the signed values, truncated toward zero
  (\<open>sdiv\<close>; \<open>div\<close> of HOL rounds down instead).
\<close>

definition half :: "go_int \<Rightarrow> go_int" where
  "half a = word_of_int (sint a sdiv 2)"

text \<open>The condition \<open>current.Cells[nr][nc].Entity == e\<close> of the three candidate loops.\<close>

definition holds :: "Entity \<Rightarrow> World \<Rightarrow> int \<times> int \<Rightarrow> bool option" where
  "holds e current n = do {
     a \<leftarrow> getCell current (fst n) (snd n);
     Some (Entity a = e)
   }"

definition stepFish_mt ::
  "'r gen \<Rightarrow> World \<Rightarrow> World \<Rightarrow> int \<Rightarrow> int \<Rightarrow> Config \<Rightarrow> 'r \<Rightarrow> (World \<times> 'r) option" where
  "stepFish_mt gen current next row col cfg rnd = do {
     cell \<leftarrow> getCell current row col;
     emptySpots \<leftarrow> collect (holds Empty current) (Neighbors current row col);
     if length emptySpots = 0 then do {
       n1 \<leftarrow> setCell next row col
         \<lparr>Entity = Fish, BreedTimer = BreedTimer cell + 1, Energy = 0\<rparr>;
       Some (n1, rnd)
     } else do {
       (i, rnd') \<leftarrow> Intn gen rnd (int (length emptySpots));
       (nr, nc) \<leftarrow> index emptySpots i;
       if FishBreed cfg \<le>s BreedTimer cell + 1 then do {
         n1 \<leftarrow> setCell next row col \<lparr>Entity = Fish, BreedTimer = 0, Energy = 0\<rparr>;
         n2 \<leftarrow> setCell n1 nr nc \<lparr>Entity = Fish, BreedTimer = 0, Energy = 0\<rparr>;
         Some (n2, rnd')
       } else do {
         n1 \<leftarrow> setCell next nr nc
           \<lparr>Entity = Fish, BreedTimer = BreedTimer cell + 1, Energy = 0\<rparr>;
         Some (n1, rnd')
       }
     }
   }"

definition stepShark_mt ::
  "'r gen \<Rightarrow> World \<Rightarrow> World \<Rightarrow> int \<Rightarrow> int \<Rightarrow> Config \<Rightarrow> 'r \<Rightarrow> (World \<times> 'r) option" where
  "stepShark_mt gen current next row col cfg rnd = do {
     cell \<leftarrow> getCell current row col;
     let newEnergy = Energy cell - 1;
     if newEnergy \<le>s 0 then Some (next, rnd)
     else do {
       let neighbors = Neighbors current row col;
       fishTargets \<leftarrow> collect (holds Fish current) neighbors;
       if length fishTargets > 0 then do {
         (i, rnd') \<leftarrow> Intn gen rnd (int (length fishTargets));
         (nr, nc) \<leftarrow> index fishTargets i;
         let gainedEnergy = Starve cfg;
         if SharkBreed cfg \<le>s BreedTimer cell + 1 then do {
           n1 \<leftarrow> setCell next row col
             \<lparr>Entity = Shark, BreedTimer = 0, Energy = half gainedEnergy\<rparr>;
           n2 \<leftarrow> setCell n1 nr nc
             \<lparr>Entity = Shark, BreedTimer = 0, Energy = gainedEnergy\<rparr>;
           Some (n2, rnd')
         } else do {
           n1 \<leftarrow> setCell next nr nc
             \<lparr>Entity = Shark, BreedTimer = BreedTimer cell + 1, Energy = gainedEnergy\<rparr>;
           Some (n1, rnd')
         }
       } else do {
         emptyTargets \<leftarrow> collect (holds Empty current) neighbors;
         if length emptyTargets > 0 then do {
           (i, rnd') \<leftarrow> Intn gen rnd (int (length emptyTargets));
           (nr, nc) \<leftarrow> index emptyTargets i;
           if SharkBreed cfg \<le>s BreedTimer cell + 1 then do {
             n1 \<leftarrow> setCell next row col
               \<lparr>Entity = Shark, BreedTimer = 0, Energy = half newEnergy\<rparr>;
             n2 \<leftarrow> setCell n1 nr nc
               \<lparr>Entity = Shark, BreedTimer = 0, Energy = newEnergy\<rparr>;
             Some (n2, rnd')
           } else do {
             n1 \<leftarrow> setCell next nr nc
               \<lparr>Entity = Shark, BreedTimer = BreedTimer cell + 1, Energy = newEnergy\<rparr>;
             Some (n1, rnd')
           }
         } else do {
           n1 \<leftarrow> setCell next row col
             \<lparr>Entity = Shark, BreedTimer = BreedTimer cell + 1, Energy = newEnergy\<rparr>;
           Some (n1, rnd)
         }
       }
     }
   }"

text \<open>The body of the inner loop of a goroutine, on the pair of the next grid and its generator.\<close>

definition visit_mt ::
  "'r gen \<Rightarrow> World \<Rightarrow> Config \<Rightarrow> int \<Rightarrow> int \<Rightarrow> World \<times> 'r \<Rightarrow> (World \<times> 'r) option" where
  "visit_mt gen w cfg row col st = do {
     cell \<leftarrow> getCell w row col;
     if Entity cell = Empty then Some st
     else case Entity cell of
         Fish \<Rightarrow> stepFish_mt gen w (fst st) row col cfg (snd st)
       | Shark \<Rightarrow> stepShark_mt gen w (fst st) row col cfg (snd st)
       | Empty \<Rightarrow> Some st
   }"

text \<open>
  The function literal that each goroutine runs, over the rows \<open>[start, end)\<close>.  Its
  generator is \<open>rand.New(rand.NewSource(time.Now().UnixNano() + int64(start)))\<close>: the reading
  of the clock is the parameter \<open>now\<close>, an \<open>int64\<close> to which \<open>int64(start)\<close> is added with
  wrap-around, and the library's construction of a generator from a seed is the
  parameter \<open>seeded\<close>.
\<close>

definition worker ::
  "'r gen \<Rightarrow> (go_int \<Rightarrow> 'r) \<Rightarrow> go_int \<Rightarrow> World \<Rightarrow> Config \<Rightarrow> int \<Rightarrow> int \<Rightarrow> World
     \<Rightarrow> World option" where
  "worker gen seeded now w cfg start end next = do {
     let localRnd = seeded (now + word_of_int start);
     st \<leftarrow> forEach [start..end - 1]
       (\<lambda>row. forEach (upTo (Size w)) (\<lambda>col. visit_mt gen w cfg row col)) (next, localRnd);
     Some (fst st)
   }"

text \<open>
  \<open>StepWorld\<close> of this variant.  Its argument \<open>rnd\<close> is never read by the body.  \<open>threads\<close>
  is \<open>cfg.Threads\<close> clamped to \<open>[1, w.Size]\<close>; on a grid of side 0 it becomes 0 and
  \<open>w.Size / threads\<close> panics.  Otherwise both operands are positive, where Go's \<open>/\<close> and \<open>%\<close>
  are \<open>div\<close> and \<open>mod\<close>.  \<open>now t\<close> is the reading of the clock taken by the goroutine
  launched in iteration \<open>t\<close>.

  The goroutines are run here one after the other, in the order of their launch.  With
  one goroutine (\<open>threads = 1\<close>) this is the only execution of the program; with more it is
  one of the interleavings the scheduler may choose, and no statement below is made
  about it.
\<close>

definition StepWorld_mt ::
  "'r gen \<Rightarrow> (go_int \<Rightarrow> 'r) \<Rightarrow> (int \<Rightarrow> go_int) \<Rightarrow> World \<Rightarrow> Config \<Rightarrow> 'q
     \<Rightarrow> World option" where
  "StepWorld_mt gen seeded now w cfg rnd = do {
     next \<leftarrow> newEmptyWorldLike w;
     let threads = (if Threads cfg < 1 then 1 else Threads cfg);
     let threads = (if threads > Size w then Size w else threads);
     if threads = 0 then None
     else do {
       let rowsPerThread = Size w div threads;
       let remainder = Size w mod threads;
       st \<leftarrow> forEach (upTo threads)
         (\<lambda>t (next, startRow). do {
            let extra = (if t < remainder then 1 else 0);
            let endRow = startRow + rowsPerThread + extra;
            next' \<leftarrow> worker gen seeded (now t) w cfg startRow endRow next;
            Some (next', endRow)
          }) (next, 0);
       Some (fst st)
     }
   }"

section \<open>Population initialiser (world.go)\<close>

text \<open>The coordinates in the order the two nested loops of \<open>Populate\<close> append them.\<close>

definition allPositions :: "World \<Rightarrow> (int \<times> int) list" where
  "allPositions w = concat (map (\<lambda>row. map (\<lambda>col. (row, col)) (upTo (Size w))) (upTo (Size w)))"

text \<open>The callback of the shuffle: \<open>positions[i], positions[j] = positions[j], positions[i]\<close>.\<close>

definition swap :: "'a list \<Rightarrow> int \<times> int \<Rightarrow> 'a list option" where
  "swap xs ij = do {
     a \<leftarrow> index xs (fst ij);
     b \<leftarrow> index xs (snd ij);
     Some (xs[nat (fst ij) := b, nat (snd ij) := a])
   }"

text \<open>
  \<open>rand.Shuffle(len(positions), swap)\<close> is library code drawing from the global generator:
  all the program sees of it is the sequence of index pairs it calls the callback with,
  which is the parameter \<open>swaps\<close>.
\<close>

definition Shuffle :: "(int \<times> int) list \<Rightarrow> 'a list \<Rightarrow> 'a list option" where
  "Shuffle swaps xs = forEach swaps (\<lambda>ij ys. swap ys ij) xs"

text \<open>A field assignment \<open>w.Cells[r][c].f = v\<close>.\<close>

definition updCell :: "World \<Rightarrow> int \<times> int \<Rightarrow> (Cell \<Rightarrow> Cell) \<Rightarrow> World option" where
  "updCell w pos f = do {
     cell \<leftarrow> getCell w (fst pos) (snd pos);
     setCell w (fst pos) (snd pos) (f cell)
   }"

text \<open>
  \<open>for shark := 0; shark < numShark && index < len(positions); shark++\<close>, returning the
  world and the value \<open>index\<close> is left with.
\<close>

function placeSharks ::
  "(int \<times> int) list \<Rightarrow> int \<Rightarrow> int \<Rightarrow> int \<Rightarrow> World \<Rightarrow> (World \<times> int) option" where
  "placeSharks positions numShark shark idx w =
     (if shark < numShark \<and> idx < int (length positions) then do {
        pos \<leftarrow> index positions idx;
        w1 \<leftarrow> updCell w pos (\<lambda>c. c\<lparr>Entity := Shark\<rparr>);
        w2 \<leftarrow> updCell w1 pos (\<lambda>c. c\<lparr>Energy := wStarve w1\<rparr>);
        w3 \<leftarrow> updCell w2 pos (\<lambda>c. c\<lparr>BreedTimer := 0\<rparr>);
        placeSharks positions numShark (shark + 1) (idx + 1) w3
      } else Some (w, idx))"
  by pat_completeness auto
termination
  by (relation "measure (\<lambda>(positions, numShark, shark, idx, w). nat (numShark - shark))") auto

function placeFish ::
  "(int \<times> int) list \<Rightarrow> int \<Rightarrow> int \<Rightarrow> int \<Rightarrow> World \<Rightarrow> (World \<times> int) option" where
  "placeFish positions numFish fish idx w =
     (if fish < numFish \<and> idx < int (length positions) then do {
        pos \<leftarrow> index positions idx;
        cell \<leftarrow> getCell w (fst pos) (snd pos);
        w2 \<leftarrow> (if Entity cell = Empty then do {
                 w1 \<leftarrow> updCell w pos (\<lambda>c. c\<lparr>Entity := Fish\<rparr>);
                 updCell w1 pos (\<lambda>c. c\<lparr>BreedTimer := 0\<rparr>)
               } else Some w);
        placeFish positions numFish (fish + 1) (idx + 1) w2
      } else Some (w, idx))"
  by pat_completeness auto
termination
  by (relation "measure (\<lambda>(positions, numFish, fish, idx, w). nat (numFish - fish))") auto

definition Populate :: "(int \<times> int) list \<Rightarrow> World \<Rightarrow> int \<Rightarrow> int \<Rightarrow> World option" where
  "Populate swaps w numFish numShark = do {
     positions \<leftarrow> Shuffle swaps (allPositions w);
     (w1, idx) \<leftarrow> placeSharks positions numShark 0 0 w;
     (w2, idx') \<leftarrow> placeFish positions numFish 0 idx w1;
     Some w2
   }"

section \<open>Well-formed worlds\<close>

text \<open>
  The grid invariant of the data model: \<open>Size\<close> rows of \<open>Size\<close> cells.  \<open>NewWorld\<close> and
  \<open>newEmptyWorldLike\<close> build such grids, and no function changes the shape.
\<close>

definition wf_world :: "World \<Rightarrow> bool" where
  "wf_world w = (0 \<le> Size w \<and> length (Cells w) = nat (Size w) \<and>
                 list_all (\<lambda>cells. length cells = nat (Size w)) (Cells w))"

section \<open>Vocabulary of the statements\<close>

text \<open>
  On a well-formed world no index is out of range, and the accessors have a total reading:
  \<open>cellAt\<close> is the cell at a coordinate, \<open>put\<close> the grid after one assignment.
  \<open>targets e current next row col\<close> is the list of candidates a rule collects: the
  neighbours whose cell holds \<open>e\<close> in the current grid and is still \<open>Empty\<close> in the next one.
  \<open>occupants e current row col\<close> is the list the multi-threaded rules collect: the
  neighbours whose cell holds \<open>e\<close> in the current grid.
  \<open>chosen\<close> is the element \<open>xs[rnd.Intn(len(xs))]\<close> and \<open>drawn\<close> the generator after the draw.
\<close>

definition inGrid :: "World \<Rightarrow> int \<times> int \<Rightarrow> bool" where
  "inGrid w p = (0 \<le> fst p \<and> fst p < Size w \<and> 0 \<le> snd p \<and> snd p < Size w)"

definition cellAt :: "World \<Rightarrow> int \<times> int \<Rightarrow> Cell" where
  "cellAt w p = Cells w ! nat (fst p) ! nat (snd p)"

definition put :: "World \<Rightarrow> int \<times> int \<Rightarrow> Cell \<Rightarrow> World" where
  "put w p v = w\<lparr>Cells := (Cells w)[nat (fst p) := (Cells w ! nat (fst p))[nat (snd p) := v]]\<rparr>"

definition free :: "Entity \<Rightarrow> World \<Rightarrow> World \<Rightarrow> int \<times> int \<Rightarrow> bool" where
  "free e current next n = (Entity (cellAt current n) = e \<and> Entity (cellAt next n) = Empty)"

definition chosen :: "'r gen \<Rightarrow> 'r \<Rightarrow> 'a list \<Rightarrow> 'a" where
  "chosen gen rnd xs = xs ! nat (fst (gen rnd (int (length xs))))"

definition drawn :: "'r gen \<Rightarrow> 'r \<Rightarrow> 'a list \<Rightarrow> 'r" where
  "drawn gen rnd xs = snd (gen rnd (int (length xs)))"

definition targets :: "Entity \<Rightarrow> World \<Rightarrow> World \<Rightarrow> int \<Rightarrow> int \<Rightarrow> (int \<times> int) list" where
  "targets e current next row col = filter (free e current next) (Neighbors current row col)"

definition occupants :: "Entity \<Rightarrow> World \<Rightarrow> int \<Rightarrow> int \<Rightarrow> (int \<times> int) list" where
  "occupants e current row col =
     filter (\<lambda>n. Entity (cellAt current n) = e) (Neighbors current row col)"

section \<open>Example worlds\<close>

text \<open>
  A generator that counts its draws (the \<open>k\<close>-th draw of \<open>Intn(n)\<close> is \<open>k mod n\<close>), a
  configuration, and 3 by 3 grids written cell by cell, for the concrete instances below.
\<close>

definition exGen :: "int gen" where
  "exGen rnd n = (rnd mod n, rnd + 1)"

definition exCfg :: Config where
  "exCfg = \<lparr>NumShark = 1, NumFish = 2, FishBreed = 3, SharkBreed = 4, Starve = 5,
             GridSize = 3, Threads = 1, Chronons = 0, DrawEvery = 1, BenchFile = []\<rparr>"

definition exWorld :: "Cell list list \<Rightarrow> World" where
  "exWorld cells = \<lparr>Size = 3, Cells = cells, wFishBreed = 3, wSharkBreed = 4, wStarve = 5\<rparr>"

definition emptyC :: Cell where
  "emptyC = \<lparr>Entity = Empty, BreedTimer = 0, Energy = 0\<rparr>"

definition fishC :: "go_int \<Rightarrow> Cell" where
  "fishC t = \<lparr>Entity = Fish, BreedTimer = t, Energy = 0\<rparr>"

definition sharkC :: "go_int \<Rightarrow> go_int \<Rightarrow> Cell" where
  "sharkC t e = \<lparr>Entity = Shark, BreedTimer = t, Energy = e\<rparr>"

text \<open>
  For the multi-threaded variant: the counting generator built from a seed starts at the
  seed, and \<open>exClock c\<close> is a clock that reads \<open>c\<close> to every goroutine.
\<close>

definition exSeed :: "go_int \<Rightarrow> int" where
  "exSeed s = uint s"

definition exClock :: "go_int \<Rightarrow> int \<Rightarrow> go_int" where
  "exClock c t = c"

section \<open>Organisms, survivors and births of a step\<close>

text \<open>
  \<open>occupied w\<close> is the set of coordinates holding a fish or a shark.  For a coordinate
  \<open>p\<close> reached by the scan while the next grid is \<open>next\<close>: the organism at \<open>p\<close> is
  \<open>evaluated\<close> when a rule is run for it (the cell is not \<open>Empty\<close> and has not been written
  in the next grid), it \<open>survives\<close> when it is evaluated and does not starve, and it
  \<open>breeds\<close> when moreover it has a candidate to move to and its timer meets the threshold
  of its species: these are the breed events of the step.
\<close>

definition occupied :: "World \<Rightarrow> (int \<times> int) set" where
  "occupied w = {p. inGrid w p \<and> Entity (cellAt w p) \<noteq> Empty}"

definition evaluated :: "World \<Rightarrow> World \<Rightarrow> int \<times> int \<Rightarrow> bool" where
  "evaluated w next p = (Entity (cellAt next p) = Empty \<and> Entity (cellAt w p) \<noteq> Empty)"

definition starves :: "World \<Rightarrow> int \<times> int \<Rightarrow> bool" where
  "starves w p = (Entity (cellAt w p) = Shark \<and> Energy (cellAt w p) - 1 \<le>s 0)"

definition survives :: "World \<Rightarrow> World \<Rightarrow> int \<times> int \<Rightarrow> bool" where
  "survives w next p = (evaluated w next p \<and> \<not> starves w p)"

definition canMove :: "World \<Rightarrow> World \<Rightarrow> int \<times> int \<Rightarrow> bool" where
  "canMove w next p =
     (case Entity (cellAt w p) of
        Fish \<Rightarrow> targets Empty w next (fst p) (snd p) \<noteq> []
      | Shark \<Rightarrow> targets Fish w next (fst p) (snd p) \<noteq> []
                 \<or> targets Empty w next (fst p) (snd p) \<noteq> []
      | Empty \<Rightarrow> False)"

definition threshold :: "Config \<Rightarrow> World \<Rightarrow> int \<times> int \<Rightarrow> bool" where
  "threshold cfg w p =
     (case Entity (cellAt w p) of
        Fish \<Rightarrow> FishBreed cfg \<le>s BreedTimer (cellAt w p) + 1
      | Shark \<Rightarrow> SharkBreed cfg \<le>s BreedTimer (cellAt w p) + 1
      | Empty \<Rightarrow> False)"

definition breeds :: "Config \<Rightarrow> World \<Rightarrow> World \<Rightarrow> int \<times> int \<Rightarrow> bool" where
  "breeds cfg w next p = (survives w next p \<and> canMove w next p \<and> threshold cfg w p)"

text \<open>
  The number of iterations of the loop \<open>forEach xs body\<close>, run from the state \<open>s\<close>, that
  start in a state where the event \<open>ev\<close> holds of the element.
\<close>

fun tally :: "('a \<Rightarrow> 's \<Rightarrow> bool) \<Rightarrow> ('a \<Rightarrow> 's \<Rightarrow> 's option) \<Rightarrow> 'a list \<Rightarrow> 's \<Rightarrow> nat" where
  "tally ev body [] s = 0"
| "tally ev body (x # xs) s =
     (if ev x s then 1 else 0) + (case body x s of None \<Rightarrow> 0 | Some s' \<Rightarrow> tally ev body xs s')"

text \<open>The survivors and the breed events of the step \<open>StepWorld gen w cfg rnd\<close>.\<close>

definition survivors :: "'r gen \<Rightarrow> World \<Rightarrow> Config \<Rightarrow> 'r \<Rightarrow> nat" where
  "survivors gen w cfg rnd =
     (case newEmptyWorldLike w of
        None \<Rightarrow> 0
      | Some next \<Rightarrow>
          tally (\<lambda>p st. survives w (fst st) p) (\<lambda>(row, col). visit gen w cfg row col)
            (allPositions w) (next, rnd))"

definition births :: "'r gen \<Rightarrow> World \<Rightarrow> Config \<Rightarrow> 'r \<Rightarrow> nat" where
  "births gen w cfg rnd =
     (case newEmptyWorldLike w of
        None \<Rightarrow> 0
      | Some next \<Rightarrow>
          tally (\<lambda>p st. breeds cfg w (fst st) p) (\<lambda>(row, col). visit gen w cfg row col)
            (allPositions w) (next, rnd))"

section \<open>Runs with the same draws\<close>

text \<open>
  Two random sources, each with its own type of state, deliver the same draws when from
  states related by \<open>R\<close> they answer every \<open>Intn(n)\<close> with the same number and are left in
  related states: two generators started from the same seed.  \<open>exGenNat\<close> is the counting
  generator of the examples with a natural number for its state, and \<open>exSeedNat\<close> builds
  it from a seed.
\<close>

definition same_draws :: "('a \<Rightarrow> 'b \<Rightarrow> bool) \<Rightarrow> 'a gen \<Rightarrow> 'b gen \<Rightarrow> bool" where
  "same_draws R gen1 gen2 =
     (\<forall>a b n. R a b \<longrightarrow> fst (gen1 a n) = fst (gen2 b n) \<and> R (snd (gen1 a n)) (snd (gen2 b n)))"

definition exGenNat :: "nat gen" where
  "exGenNat rnd n = (int rnd mod n, Suc rnd)"

definition exSeedNat :: "go_int \<Rightarrow> nat" where
  "exSeedNat s = unat s"

section \<open>One placement of the initialiser\<close>

text \<open>
  The effect of one iteration of each placement loop of \<open>Populate\<close> on a well-formed world:
  the three field assignments of the shark loop, and the guarded two of the fish loop
  (which leave the \<open>Energy\<close> field as it was).
\<close>

definition placeShark :: "World \<Rightarrow> int \<times> int \<Rightarrow> World" where
  "placeShark w p = put w p \<lparr>Entity = Shark, BreedTimer = 0, Energy = wStarve w\<rparr>"

definition placeOneFish :: "World \<Rightarrow> int \<times> int \<Rightarrow> World" where
  "placeOneFish w p =
     (if Entity (cellAt w p) = Empty
      then put w p \<lparr>Entity = Fish, BreedTimer = 0, Energy = Energy (cellAt w p)\<rparr>
      else w)"

section \<open>Reachable worlds\<close>

text \<open>
  The worlds of a run of the program under a configuration: \<open>Populate\<close> applied to the
  empty world \<open>NewWorld cfg\<close>, then any number of steps.  \<open>energy_bounded cfg w\<close> says that
  every shark of \<open>w\<close> has an energy in \<open>(0, Starve]\<close>.
\<close>

inductive reachable :: "'r gen \<Rightarrow> Config \<Rightarrow> World \<Rightarrow> bool"
  for gen :: "'r gen" and cfg :: Config where
  populated:
    "NewWorld cfg = Some w0 \<Longrightarrow> Populate swaps w0 numFish numShark = Some w
       \<Longrightarrow> reachable gen cfg w"
| stepped:
    "reachable gen cfg w \<Longrightarrow> StepWorld gen w cfg rnd = Some (w', rnd')
       \<Longrightarrow> reachable gen cfg w'"

definition energy_bounded :: "Config \<Rightarrow> World \<Rightarrow> bool" where
  "energy_bounded cfg w =
     (\<forall>p. inGrid w p \<and> Entity (cellAt w p) = Shark \<longrightarrow>
          0 <s Energy (cellAt w p) \<and> Energy (cellAt w p) \<le>s Starve cfg)"

section \<open>Toroidal neighbourhood\<close>

lemma wrap_cases: "wrap w i = i \<or> wrap w i = i + Size w \<or> wrap w i = i - Size w"
  by (simp add: wrap_def)

lemma wrap_in_range:
  assumes "1 \<le> Size w" and "- 1 \<le> i" and "i \<le> Size w"
  shows "0 \<le> wrap w i \<and> wrap w i < Size w"
  using assms by (simp add: wrap_def)

lemma wrap_eq_mod:
  assumes "1 \<le> Size w" and "- 1 \<le> i" and "i \<le> Size w"
  shows "wrap w i = i mod Size w"
proof -
  consider "i = - 1" | "0 \<le> i \<and> i < Size w" | "i = Size w"
    using assms by linarith
  then show ?thesis
  proof cases
    case 1
    have "(- 1) mod Size w = Size w - 1"
      using assms(1) by (simp add: zmod_minus1)
    with 1 assms(1) show ?thesis by (simp add: wrap_def)
  next
    case 2
    then show ?thesis by (simp add: wrap_def)
  next
    case 3
    then show ?thesis using assms(1) by (simp add: wrap_def)
  qed
qed

lemma Neighbors_in_range:
  assumes "1 \<le> Size w" and "0 \<le> row" and "row < Size w" and "0 \<le> col" and "col < Size w"
    and "p \<in> set (Neighbors w row col)"
  shows "0 \<le> fst p \<and> fst p < Size w \<and> 0 \<le> snd p \<and> snd p < Size w"
proof -
  have "0 \<le> wrap w (row - 1) \<and> wrap w (row - 1) < Size w"
    and "0 \<le> wrap w (row + 1) \<and> wrap w (row + 1) < Size w"
    and "0 \<le> wrap w (col - 1) \<and> wrap w (col - 1) < Size w"
    and "0 \<le> wrap w (col + 1) \<and> wrap w (col + 1) < Size w"
    using assms(1-5) by (simp_all add: wrap_in_range)
  with assms show ?thesis
    by (auto simp: Neighbors_def)
qed

text \<open>
  Claim C7.  On a grid of side \<open>Size w \<ge> 2\<close> and for an in-range coordinate, \<open>Neighbors\<close>
  returns exactly four pairs, in the order North, South, West, East (the row above, the row
  below, the column to the left, the column to the right, each taken modulo the size);
  both components of every pair lie in \<open>[0, size)\<close>; the neighbours of row \<open>0\<close> include
  row \<open>size - 1\<close> and conversely, and the same for columns; and \<open>wrap\<close> sends every index
  from \<open>-1\<close> to \<open>size\<close> into \<open>[0, size)\<close> by adding or subtracting the size at most once.
\<close>

theorem Neighbors_toroidal:
  assumes "2 \<le> Size w" and "0 \<le> row" and "row < Size w" and "0 \<le> col" and "col < Size w"
    and "- 1 \<le> i" and "i \<le> Size w"
  shows "Neighbors w row col =
           [((row - 1) mod Size w, col), ((row + 1) mod Size w, col),
            (row, (col - 1) mod Size w), (row, (col + 1) mod Size w)]
       \<and> length (Neighbors w row col) = 4
       \<and> (\<forall>p \<in> set (Neighbors w row col).
            0 \<le> fst p \<and> fst p < Size w \<and> 0 \<le> snd p \<and> snd p < Size w)
       \<and> (Size w - 1, col) \<in> set (Neighbors w 0 col)
       \<and> (0, col) \<in> set (Neighbors w (Size w - 1) col)
       \<and> (row, Size w - 1) \<in> set (Neighbors w row 0)
       \<and> (row, 0) \<in> set (Neighbors w row (Size w - 1))
       \<and> 0 \<le> wrap w i \<and> wrap w i < Size w
       \<and> (wrap w i = i \<or> wrap w i = i + Size w \<or> wrap w i = i - Size w)"
proof -
  have one: "1 \<le> Size w" using assms(1) by simp
  have eq: "Neighbors w row col =
           [((row - 1) mod Size w, col), ((row + 1) mod Size w, col),
            (row, (col - 1) mod Size w), (row, (col + 1) mod Size w)]"
    using one assms(2-5) by (simp add: Neighbors_def wrap_eq_mod)
  have len: "length (Neighbors w row col) = 4"
    by (simp add: Neighbors_def)
  have rng: "\<forall>p \<in> set (Neighbors w row col).
            0 \<le> fst p \<and> fst p < Size w \<and> 0 \<le> snd p \<and> snd p < Size w"
    using Neighbors_in_range [OF one assms(2-5)] by blast
  have edges: "(Size w - 1, col) \<in> set (Neighbors w 0 col)"
      "(0, col) \<in> set (Neighbors w (Size w - 1) col)"
      "(row, Size w - 1) \<in> set (Neighbors w row 0)"
      "(row, 0) \<in> set (Neighbors w row (Size w - 1))"
    using assms(1) by (simp_all add: Neighbors_def wrap_def)
  have wr: "0 \<le> wrap w i \<and> wrap w i < Size w"
    using wrap_in_range [OF one assms(6,7)] .
  show ?thesis
    using eq len rng edges wr wrap_cases [of w i] by blast
qed

text \<open>The claim at the corner \<open>(0, 0)\<close> of a grid of side 3.\<close>

theorem Neighbors_toroidal_witness:
  "Neighbors \<lparr>Size = 3, Cells = [], wFishBreed = 0, wSharkBreed = 0, wStarve = 0\<rparr> 0 0
     = [(2, 0), (1, 0), (0, 2), (0, 1)]
   \<and> wrap \<lparr>Size = 3, Cells = [], wFishBreed = 0, wSharkBreed = 0, wStarve = 0\<rparr> 3 = 0"
  using Neighbors_toroidal
    [of "\<lparr>Size = 3, Cells = [], wFishBreed = 0, wSharkBreed = 0, wStarve = 0\<rparr>" 0 0 3]
  by (simp add: wrap_def)

section \<open>Grid accessors on well-formed worlds\<close>

lemma index_eq_Some: "index xs i = Some x \<longleftrightarrow> 0 \<le> i \<and> i < int (length xs) \<and> x = xs ! nat i"
  by (auto simp: index_def)

lemma index_in_range: "0 \<le> i \<Longrightarrow> i < int (length xs) \<Longrightarrow> index xs i = Some (xs ! nat i)"
  by (simp add: index_def)

lemma wf_row_length:
  assumes "wf_world w" and "0 \<le> r" and "r < Size w"
  shows "length (Cells w ! nat r) = nat (Size w)"
  using assms by (simp add: wf_world_def list_all_length)

lemma getCell_wf:
  assumes "wf_world w"
  shows "getCell w r c = (if inGrid w (r, c) then Some (cellAt w (r, c)) else None)"
proof (cases "0 \<le> r \<and> r < Size w")
  case True
  then have "index (Cells w) r = Some (Cells w ! nat r)"
    using assms by (simp add: index_def wf_world_def)
  moreover have "length (Cells w ! nat r) = nat (Size w)"
    using True assms by (simp add: wf_row_length)
  ultimately show ?thesis
    using True by (auto simp: getCell_def inGrid_def cellAt_def index_def)
next
  case False
  then have "index (Cells w) r = None"
    using assms by (auto simp: index_def wf_world_def)
  then show ?thesis
    using False by (auto simp: getCell_def inGrid_def)
qed

lemma setCell_wf:
  assumes "wf_world w"
  shows "setCell w r c v = (if inGrid w (r, c) then Some (put w (r, c) v) else None)"
proof (cases "0 \<le> r \<and> r < Size w")
  case True
  then have "index (Cells w) r = Some (Cells w ! nat r)"
    using assms by (simp add: index_def wf_world_def)
  moreover have "length (Cells w ! nat r) = nat (Size w)"
    using True assms by (simp add: wf_row_length)
  ultimately show ?thesis
    using True by (auto simp: setCell_def inGrid_def put_def index_def)
next
  case False
  then have "index (Cells w) r = None"
    using assms by (auto simp: index_def wf_world_def)
  then show ?thesis
    using False by (auto simp: setCell_def inGrid_def)
qed

lemma Size_put [simp]: "Size (put w p v) = Size w"
  by (simp add: put_def)

lemma inGrid_put [simp]: "inGrid (put w p v) q = inGrid w q"
  by (simp add: inGrid_def)

lemma wf_put:
  assumes "wf_world w"
  shows "wf_world (put w p v)"
proof -
  have "length ((Cells w)[k := (Cells w ! k)[j := v]] ! n) = nat (Size w)"
    if "n < nat (Size w)" for n k j
  proof (cases "n = k")
    case True
    then show ?thesis
      using that assms by (simp add: wf_world_def list_all_length)
  next
    case False
    then show ?thesis
      using that assms by (simp add: wf_world_def list_all_length)
  qed
  then show ?thesis
    using assms by (simp add: wf_world_def put_def list_all_length)
qed

lemma cellAt_put:
  assumes "wf_world w" and "inGrid w p" and "inGrid w q"
  shows "cellAt (put w p v) q = (if q = p then v else cellAt w q)"
proof -
  have lr: "nat (fst p) < length (Cells w)" "nat (fst q) < length (Cells w)"
    using assms by (simp_all add: wf_world_def inGrid_def)
  have lc: "nat (snd p) < length (Cells w ! nat (fst p))"
    using assms by (simp add: wf_row_length inGrid_def)
  have inj: "nat (fst q) = nat (fst p) \<and> nat (snd q) = nat (snd p) \<longleftrightarrow> q = p"
    using assms(2,3) by (auto simp: inGrid_def prod_eq_iff)
  show ?thesis
  proof (cases "nat (fst q) = nat (fst p)")
    case True
    then show ?thesis
      using lr lc inj by (auto simp: cellAt_def put_def nth_list_update)
  next
    case False
    then show ?thesis
      using lr inj by (auto simp: cellAt_def put_def nth_list_update)
  qed
qed

lemma collect_filter:
  assumes "\<And>n. n \<in> set ns \<Longrightarrow> cond n = Some (P n)"
  shows "collect cond ns = Some (filter P ns)"
  using assms by (induction ns) simp_all

lemma candidate_wf:
  assumes "wf_world current" and "wf_world next" and "Size next = Size current"
    and "inGrid current n"
  shows "candidate e current next n = Some (free e current next n)"
  using assms by (simp add: candidate_def getCell_wf free_def inGrid_def)

lemma inGrid_Neighbors:
  assumes "inGrid w (row, col)" and "n \<in> set (Neighbors w row col)"
  shows "inGrid w n"
proof -
  have "1 \<le> Size w" using assms(1) by (simp add: inGrid_def)
  then show ?thesis
    using Neighbors_in_range [of w row col n] assms by (simp add: inGrid_def)
qed

lemma inGrid_targets:
  assumes "inGrid w (row, col)" and "n \<in> set (targets e w next row col)"
  shows "inGrid w n"
  using assms inGrid_Neighbors by (auto simp: targets_def)

lemma collect_targets:
  assumes "wf_world current" and "wf_world next" and "Size next = Size current"
    and "inGrid current (row, col)"
  shows "collect (candidate e current next) (Neighbors current row col)
           = Some (targets e current next row col)"
  unfolding targets_def
  by (rule collect_filter) (simp add: candidate_wf assms inGrid_Neighbors [OF assms(4)])

lemma draw_index:
  assumes "draws_in_range gen" and "xs \<noteq> []"
  shows "Intn gen rnd (int (length xs)) \<bind> (\<lambda>(i, rnd'). index xs i \<bind> k rnd')
           = k (drawn gen rnd xs) (chosen gen rnd xs)"
proof -
  let ?n = "int (length xs)"
  have pos: "0 < ?n" using assms(2) by simp
  then have rng: "0 \<le> fst (gen rnd ?n) \<and> fst (gen rnd ?n) < ?n"
    using assms(1) unfolding draws_in_range_def by blast
  then have "index xs (fst (gen rnd ?n)) = Some (chosen gen rnd xs)"
    by (simp add: index_def chosen_def)
  then show ?thesis
    using pos by (simp add: Intn_def drawn_def split_beta)
qed

lemma chosen_in_set:
  assumes "draws_in_range gen" and "xs \<noteq> []"
  shows "chosen gen rnd xs \<in> set xs"
proof -
  let ?n = "int (length xs)"
  have "0 < ?n" using assms(2) by simp
  then have "0 \<le> fst (gen rnd ?n) \<and> fst (gen rnd ?n) < ?n"
    using assms(1) unfolding draws_in_range_def by blast
  then have "nat (fst (gen rnd ?n)) < length xs"
    by linarith
  then show ?thesis
    unfolding chosen_def by (rule nth_mem)
qed

lemma stepFish_wf:
  assumes "wf_world current" and "wf_world next" and "Size next = Size current"
    and "inGrid current (row, col)" and "draws_in_range gen"
  shows "stepFish gen current next row col cfg rnd =
     (let cell = cellAt current (row, col);
          spots = targets Empty current next row col;
          d = chosen gen rnd spots;
          rnd' = drawn gen rnd spots
      in if spots = []
         then Some (put next (row, col)
                 \<lparr>Entity = Fish, BreedTimer = BreedTimer cell + 1, Energy = 0\<rparr>, rnd)
         else if FishBreed cfg \<le>s BreedTimer cell + 1
         then Some (put (put next (row, col) \<lparr>Entity = Fish, BreedTimer = 0, Energy = 0\<rparr>) d
                 \<lparr>Entity = Fish, BreedTimer = 0, Energy = 0\<rparr>, rnd')
         else Some (put next d
                 \<lparr>Entity = Fish, BreedTimer = BreedTimer cell + 1, Energy = 0\<rparr>, rnd'))"
proof -
  let ?spots = "targets Empty current next row col"
  have here: "inGrid next (row, col)"
    using assms(3,4) by (simp add: inGrid_def)
  show ?thesis
  proof (cases "?spots = []")
    case True
    then show ?thesis
      using assms here
      by (simp add: stepFish_def getCell_wf collect_targets setCell_wf)
  next
    case False
    have "inGrid current (chosen gen rnd ?spots)"
      using chosen_in_set [OF assms(5) False] inGrid_targets [OF assms(4)] by blast
    then have there: "inGrid next (chosen gen rnd ?spots)"
      using assms(3) by (simp add: inGrid_def)
    have "stepFish gen current next row col cfg rnd =
       (if FishBreed cfg \<le>s BreedTimer (cellAt current (row, col)) + 1
         then Some (put (put next (row, col) \<lparr>Entity = Fish, BreedTimer = 0, Energy = 0\<rparr>)
                 (chosen gen rnd ?spots) \<lparr>Entity = Fish, BreedTimer = 0, Energy = 0\<rparr>,
                 drawn gen rnd ?spots)
         else Some (put next (chosen gen rnd ?spots)
                 \<lparr>Entity = Fish, BreedTimer = BreedTimer (cellAt current (row, col)) + 1,
                  Energy = 0\<rparr>, drawn gen rnd ?spots))"
      using assms(1-4) False here there
      by (simp add: stepFish_def getCell_wf collect_targets draw_index [OF assms(5) False]
          setCell_wf wf_put surjective_pairing [symmetric] split: prod.splits)
    then show ?thesis
      using False by (simp add: Let_def)
  qed
qed

lemma stepShark_wf:
  assumes "wf_world current" and "wf_world next" and "Size next = Size current"
    and "inGrid current (row, col)" and "draws_in_range gen"
  shows "stepShark gen current next row col cfg rnd =
     (let cell = cellAt current (row, col);
          newEnergy = Energy cell - 1;
          fishTarget = targets Fish current next row col;
          emptyTarget = targets Empty current next row col
      in if newEnergy \<le>s 0 then Some (next, rnd)
         else if fishTarget \<noteq> [] then
           (if SharkBreed cfg \<le>s BreedTimer cell + 1
            then Some (put (put next (row, col)
                           \<lparr>Entity = Shark, BreedTimer = 0, Energy = Starve cfg\<rparr>)
                         (chosen gen rnd fishTarget)
                         \<lparr>Entity = Shark, BreedTimer = 0, Energy = Starve cfg\<rparr>,
                       drawn gen rnd fishTarget)
            else Some (put next (chosen gen rnd fishTarget)
                         \<lparr>Entity = Shark, BreedTimer = BreedTimer cell + 1,
                          Energy = Starve cfg\<rparr>,
                       drawn gen rnd fishTarget))
         else if emptyTarget \<noteq> [] then
           (if SharkBreed cfg \<le>s BreedTimer cell + 1
            then Some (put (put next (row, col)
                           \<lparr>Entity = Shark, BreedTimer = 0, Energy = Starve cfg\<rparr>)
                         (chosen gen rnd emptyTarget)
                         \<lparr>Entity = Shark, BreedTimer = 0, Energy = newEnergy\<rparr>,
                       drawn gen rnd emptyTarget)
            else Some (put next (chosen gen rnd emptyTarget)
                         \<lparr>Entity = Shark, BreedTimer = BreedTimer cell + 1,
                          Energy = newEnergy\<rparr>,
                       drawn gen rnd emptyTarget))
         else Some (put next (row, col)
                      \<lparr>Entity = Shark, BreedTimer = BreedTimer cell + 1,
                       Energy = newEnergy\<rparr>, rnd))"
proof -
  let ?fish = "targets Fish current next row col"
  let ?empty = "targets Empty current next row col"
  have here: "inGrid next (row, col)"
    using assms(3,4) by (simp add: inGrid_def)
  have there: "inGrid next (chosen gen rnd (targets e current next row col))"
    if "targets e current next row col \<noteq> []" for e
  proof -
    have "inGrid current (chosen gen rnd (targets e current next row col))"
      using chosen_in_set [OF assms(5) that] inGrid_targets [OF assms(4)] by blast
    then show ?thesis
      using assms(3) by (simp add: inGrid_def)
  qed
  consider (dies) "Energy (cellAt current (row, col)) - 1 \<le>s 0"
    | (eats) "\<not> Energy (cellAt current (row, col)) - 1 \<le>s 0" "?fish \<noteq> []"
    | (moves) "\<not> Energy (cellAt current (row, col)) - 1 \<le>s 0" "?fish = []" "?empty \<noteq> []"
    | (stays) "\<not> Energy (cellAt current (row, col)) - 1 \<le>s 0" "?fish = []" "?empty = []"
    by blast
  then show ?thesis
  proof cases
    case dies
    then show ?thesis
      using assms(1-4) by (simp add: stepShark_def getCell_wf)
  next
    case eats
    then show ?thesis
      using assms(1-4) here there [OF eats(2)]
      by (simp add: stepShark_def getCell_wf collect_targets draw_index [OF assms(5) eats(2)]
          setCell_wf wf_put Let_def)
  next
    case moves
    then show ?thesis
      using assms(1-4) here there [OF moves(3)]
      by (simp add: stepShark_def getCell_wf collect_targets draw_index [OF assms(5) moves(3)]
          setCell_wf wf_put Let_def)
  next
    case stays
    then show ?thesis
      using assms(1-4) here
      by (simp add: stepShark_def getCell_wf collect_targets setCell_wf Let_def)
  qed
qed

section \<open>Outcomes of the two rules\<close>

lemma targets_free:
  assumes "d \<in> set (targets e current next row col)"
  shows "Entity (cellAt current d) = e" and "Entity (cellAt next d) = Empty"
    and "d \<in> set (Neighbors current row col)"
  using assms by (simp_all add: targets_def free_def)

lemma getCell_put:
  assumes "wf_world w" and "inGrid w p"
  shows "getCell (put w p v) r c = (if (r, c) = p then Some v else getCell w r c)"
proof (cases "inGrid w (r, c)")
  case True
  then show ?thesis
    using assms by (simp add: getCell_wf wf_put cellAt_put)
next
  case False
  then have "(r, c) \<noteq> p" using assms(2) by auto
  with False show ?thesis
    using assms by (simp add: getCell_wf wf_put)
qed

text \<open>The outcomes of the fish rule on a well-formed pair of grids.\<close>

lemma stepFish_cases [consumes 5, case_names stay breed move]:
  assumes "wf_world current" and "wf_world next" and "Size next = Size current"
    and "inGrid current (row, col)" and "draws_in_range gen"
  obtains
    (stay) "targets Empty current next row col = []"
      "stepFish gen current next row col cfg rnd =
         Some (put next (row, col)
           \<lparr>Entity = Fish, BreedTimer = BreedTimer (cellAt current (row, col)) + 1, Energy = 0\<rparr>,
           rnd)"
  | (breed) d where "d \<in> set (targets Empty current next row col)"
      "d = chosen gen rnd (targets Empty current next row col)"
      "inGrid next d"
      "FishBreed cfg \<le>s BreedTimer (cellAt current (row, col)) + 1"
      "stepFish gen current next row col cfg rnd =
         Some (put (put next (row, col) \<lparr>Entity = Fish, BreedTimer = 0, Energy = 0\<rparr>) d
                 \<lparr>Entity = Fish, BreedTimer = 0, Energy = 0\<rparr>,
               drawn gen rnd (targets Empty current next row col))"
  | (move) d where "d \<in> set (targets Empty current next row col)"
      "d = chosen gen rnd (targets Empty current next row col)"
      "inGrid next d"
      "\<not> FishBreed cfg \<le>s BreedTimer (cellAt current (row, col)) + 1"
      "stepFish gen current next row col cfg rnd =
         Some (put next d
           \<lparr>Entity = Fish, BreedTimer = BreedTimer (cellAt current (row, col)) + 1, Energy = 0\<rparr>,
           drawn gen rnd (targets Empty current next row col))"
proof -
  let ?spots = "targets Empty current next row col"
  note eq = stepFish_wf [OF assms, of cfg rnd]
  show thesis
  proof (cases "?spots = []")
    case True
    then show thesis using eq stay by (simp add: Let_def)
  next
    case False
    have mem: "chosen gen rnd ?spots \<in> set ?spots"
      using chosen_in_set [OF assms(5) False] .
    then have "inGrid current (chosen gen rnd ?spots)"
      using inGrid_targets [OF assms(4)] by blast
    then have there: "inGrid next (chosen gen rnd ?spots)"
      using assms(3) by (simp add: inGrid_def)
    show thesis
    proof (cases "FishBreed cfg \<le>s BreedTimer (cellAt current (row, col)) + 1")
      case True
      then show thesis
        using eq False mem there breed [of "chosen gen rnd ?spots"] by (simp add: Let_def)
    next
      case nb: False
      then show thesis
        using eq False mem there move [of "chosen gen rnd ?spots"] by (simp add: Let_def)
    qed
  qed
qed

text \<open>The outcomes of the shark rule on a well-formed pair of grids.\<close>

lemma stepShark_cases [consumes 5, case_names dies eat_breed eat move_breed move stay]:
  assumes "wf_world current" and "wf_world next" and "Size next = Size current"
    and "inGrid current (row, col)" and "draws_in_range gen"
  obtains
    (dies) "Energy (cellAt current (row, col)) - 1 \<le>s 0"
      "stepShark gen current next row col cfg rnd = Some (next, rnd)"
  | (eat_breed) d where "\<not> Energy (cellAt current (row, col)) - 1 \<le>s 0"
      "d \<in> set (targets Fish current next row col)"
      "d = chosen gen rnd (targets Fish current next row col)"
      "inGrid next d"
      "SharkBreed cfg \<le>s BreedTimer (cellAt current (row, col)) + 1"
      "stepShark gen current next row col cfg rnd =
         Some (put (put next (row, col)
                      \<lparr>Entity = Shark, BreedTimer = 0, Energy = Starve cfg\<rparr>) d
                 \<lparr>Entity = Shark, BreedTimer = 0, Energy = Starve cfg\<rparr>,
               drawn gen rnd (targets Fish current next row col))"
  | (eat) d where "\<not> Energy (cellAt current (row, col)) - 1 \<le>s 0"
      "d \<in> set (targets Fish current next row col)"
      "d = chosen gen rnd (targets Fish current next row col)"
      "inGrid next d"
      "\<not> SharkBreed cfg \<le>s BreedTimer (cellAt current (row, col)) + 1"
      "stepShark gen current next row col cfg rnd =
         Some (put next d
                 \<lparr>Entity = Shark, BreedTimer = BreedTimer (cellAt current (row, col)) + 1,
                  Energy = Starve cfg\<rparr>,
               drawn gen rnd (targets Fish current next row col))"
  | (move_breed) d where "\<not> Energy (cellAt current (row, col)) - 1 \<le>s 0"
      "targets Fish current next row col = []"
      "d \<in> set (targets Empty current next row col)"
      "d = chosen gen rnd (targets Empty current next row col)"
      "inGrid next d"
      "SharkBreed cfg \<le>s BreedTimer (cellAt current (row, col)) + 1"
      "stepShark gen current next row col cfg rnd =
         Some (put (put next (row, col)
                      \<lparr>Entity = Shark, BreedTimer = 0, Energy = Starve cfg\<rparr>) d
                 \<lparr>Entity = Shark, BreedTimer = 0,
                  Energy = Energy (cellAt current (row, col)) - 1\<rparr>,
               drawn gen rnd (targets Empty current next row col))"
  | (move) d where "\<not> Energy (cellAt current (row, col)) - 1 \<le>s 0"
      "targets Fish current next row col = []"
      "d \<in> set (targets Empty current next row col)"
      "d = chosen gen rnd (targets Empty current next row col)"
      "inGrid next d"
      "\<not> SharkBreed cfg \<le>s BreedTimer (cellAt current (row, col)) + 1"
      "stepShark gen current next row col cfg rnd =
         Some (put next d
                 \<lparr>Entity = Shark, BreedTimer = BreedTimer (cellAt current (row, col)) + 1,
                  Energy = Energy (cellAt current (row, col)) - 1\<rparr>,
               drawn gen rnd (targets Empty current next row col))"
  | (stay) "\<not> Energy (cellAt current (row, col)) - 1 \<le>s 0"
      "targets Fish current next row col = []"
      "targets Empty current next row col = []"
      "stepShark gen current next row col cfg rnd =
         Some (put next (row, col)
                 \<lparr>Entity = Shark, BreedTimer = BreedTimer (cellAt current (row, col)) + 1,
                  Energy = Energy (cellAt current (row, col)) - 1\<rparr>, rnd)"
proof -
  let ?fish = "targets Fish current next row col"
  let ?empty = "targets Empty current next row col"
  note eq = stepShark_wf [OF assms, of cfg rnd]
  have there: "chosen gen rnd (targets e current next row col) \<in> set (targets e current next row col)
      \<and> inGrid next (chosen gen rnd (targets e current next row col))"
    if "targets e current next row col \<noteq> []" for e
  proof -
    have mem: "chosen gen rnd (targets e current next row col) \<in> set (targets e current next row col)"
      using chosen_in_set [OF assms(5) that] .
    then have "inGrid current (chosen gen rnd (targets e current next row col))"
      using inGrid_targets [OF assms(4)] by blast
    then show ?thesis
      using mem assms(3) by (simp add: inGrid_def)
  qed
  consider (a) "Energy (cellAt current (row, col)) - 1 \<le>s 0"
    | (b) "\<not> Energy (cellAt current (row, col)) - 1 \<le>s 0" "?fish \<noteq> []"
    | (c) "\<not> Energy (cellAt current (row, col)) - 1 \<le>s 0" "?fish = []" "?empty \<noteq> []"
    | (d) "\<not> Energy (cellAt current (row, col)) - 1 \<le>s 0" "?fish = []" "?empty = []"
    by blast
  then show thesis
  proof cases
    case a
    then show thesis using eq dies by (simp add: Let_def)
  next
    case b
    show thesis
    proof (cases "SharkBreed cfg \<le>s BreedTimer (cellAt current (row, col)) + 1")
      case True
      then show thesis
        using eq b there [OF b(2)] eat_breed [of "chosen gen rnd ?fish"] by (simp add: Let_def)
    next
      case False
      then show thesis
        using eq b there [OF b(2)] eat [of "chosen gen rnd ?fish"] by (simp add: Let_def)
    qed
  next
    case c
    show thesis
    proof (cases "SharkBreed cfg \<le>s BreedTimer (cellAt current (row, col)) + 1")
      case True
      then show thesis
        using eq c there [OF c(3)] move_breed [of "chosen gen rnd ?empty"] by (simp add: Let_def)
    next
      case False
      then show thesis
        using eq c there [OF c(3)] move [of "chosen gen rnd ?empty"] by (simp add: Let_def)
    qed
  next
    case d
    then show thesis using eq stay by (simp add: Let_def)
  qed
qed

section \<open>The multi-threaded rules on well-formed worlds\<close>

lemma sint_half: "sint (half a) = sint a sdiv 2"
proof -
  have b: "- (2 ^ 63) \<le> sint a" "sint a < 2 ^ 63"
    using sint_ge [of a] sint_lt [of a] by simp_all
  then have "- (2 ^ 63) \<le> sint a sdiv 2 \<and> sint a sdiv 2 < 2 ^ 63"
    by (auto simp: signed_divide_int_def sgn_if abs_if)
  then show ?thesis
    by (simp add: half_def sint_sbintrunc' signed_take_bit_int_eq_self)
qed

lemma holds_wf:
  assumes "wf_world current" and "inGrid current n"
  shows "holds e current n = Some (Entity (cellAt current n) = e)"
  using assms by (simp add: holds_def getCell_wf inGrid_def)

lemma collect_occupants:
  assumes "wf_world current" and "inGrid current (row, col)"
  shows "collect (holds e current) (Neighbors current row col)
           = Some (occupants e current row col)"
  unfolding occupants_def
  by (rule collect_filter) (simp add: holds_wf assms inGrid_Neighbors [OF assms(2)])

lemma occupants_holds:
  assumes "d \<in> set (occupants e current row col)"
  shows "Entity (cellAt current d) = e" and "d \<in> set (Neighbors current row col)"
  using assms by (simp_all add: occupants_def)

lemma inGrid_occupants:
  assumes "inGrid w (row, col)" and "n \<in> set (occupants e w row col)"
  shows "inGrid w n"
  using assms inGrid_Neighbors by (auto simp: occupants_def)

lemma occupants_not_here:
  assumes "d \<in> set (occupants e current row col)"
    and "Entity (cellAt current (row, col)) \<noteq> e"
  shows "d \<noteq> (row, col)"
  using assms occupants_holds(1) by blast

lemma distinct_Neighbors:
  assumes "inGrid w (row, col)" and "3 \<le> Size w"
  shows "distinct (Neighbors w row col)"
  using assms by (auto simp: Neighbors_def wrap_def inGrid_def)

lemma stepFish_mt_wf:
  assumes "wf_world current" and "wf_world next" and "Size next = Size current"
    and "inGrid current (row, col)" and "draws_in_range gen"
  shows "stepFish_mt gen current next row col cfg rnd =
     (let cell = cellAt current (row, col);
          spots = occupants Empty current row col;
          d = chosen gen rnd spots;
          rnd' = drawn gen rnd spots
      in if spots = []
         then Some (put next (row, col)
                 \<lparr>Entity = Fish, BreedTimer = BreedTimer cell + 1, Energy = 0\<rparr>, rnd)
         else if FishBreed cfg \<le>s BreedTimer cell + 1
         then Some (put (put next (row, col) \<lparr>Entity = Fish, BreedTimer = 0, Energy = 0\<rparr>) d
                 \<lparr>Entity = Fish, BreedTimer = 0, Energy = 0\<rparr>, rnd')
         else Some (put next d
                 \<lparr>Entity = Fish, BreedTimer = BreedTimer cell + 1, Energy = 0\<rparr>, rnd'))"
proof -
  let ?spots = "occupants Empty current row col"
  have here: "inGrid next (row, col)"
    using assms(3,4) by (simp add: inGrid_def)
  show ?thesis
  proof (cases "?spots = []")
    case True
    then show ?thesis
      using assms here
      by (simp add: stepFish_mt_def getCell_wf collect_occupants setCell_wf)
  next
    case False
    have "inGrid current (chosen gen rnd ?spots)"
      using chosen_in_set [OF assms(5) False] inGrid_occupants [OF assms(4)] by blast
    then have there: "inGrid next (chosen gen rnd ?spots)"
      using assms(3) by (simp add: inGrid_def)
    have "stepFish_mt gen current next row col cfg rnd =
       (if FishBreed cfg \<le>s BreedTimer (cellAt current (row, col)) + 1
         then Some (put (put next (row, col) \<lparr>Entity = Fish, BreedTimer = 0, Energy = 0\<rparr>)
                 (chosen gen rnd ?spots) \<lparr>Entity = Fish, BreedTimer = 0, Energy = 0\<rparr>,
                 drawn gen rnd ?spots)
         else Some (put next (chosen gen rnd ?spots)
                 \<lparr>Entity = Fish, BreedTimer = BreedTimer (cellAt current (row, col)) + 1,
                  Energy = 0\<rparr>, drawn gen rnd ?spots))"
      using assms(1-4) False here there
      by (simp add: stepFish_mt_def getCell_wf collect_occupants draw_index [OF assms(5) False]
          setCell_wf wf_put)
    then show ?thesis
      using False by (simp add: Let_def)
  qed
qed

lemma stepShark_mt_wf:
  assumes "wf_world current" and "wf_world next" and "Size next = Size current"
    and "inGrid current (row, col)" and "draws_in_range gen"
  shows "stepShark_mt gen current next row col cfg rnd =
     (let cell = cellAt current (row, col);
          newEnergy = Energy cell - 1;
          fishTargets = occupants Fish current row col;
          emptyTargets = occupants Empty current row col
      in if newEnergy \<le>s 0 then Some (next, rnd)
         else if fishTargets \<noteq> [] then
           (if SharkBreed cfg \<le>s BreedTimer cell + 1
            then Some (put (put next (row, col)
                           \<lparr>Entity = Shark, BreedTimer = 0, Energy = half (Starve cfg)\<rparr>)
                         (chosen gen rnd fishTargets)
                         \<lparr>Entity = Shark, BreedTimer = 0, Energy = Starve cfg\<rparr>,
                       drawn gen rnd fishTargets)
            else Some (put next (chosen gen rnd fishTargets)
                         \<lparr>Entity = Shark, BreedTimer = BreedTimer cell + 1,
                          Energy = Starve cfg\<rparr>,
                       drawn gen rnd fishTargets))
         else if emptyTargets \<noteq> [] then
           (if SharkBreed cfg \<le>s BreedTimer cell + 1
            then Some (put (put next (row, col)
                           \<lparr>Entity = Shark, BreedTimer = 0, Energy = half newEnergy\<rparr>)
                         (chosen gen rnd emptyTargets)
                         \<lparr>Entity = Shark, BreedTimer = 0, Energy = newEnergy\<rparr>,
                       drawn gen rnd emptyTargets)
            else Some (put next (chosen gen rnd emptyTargets)
                         \<lparr>Entity = Shark, BreedTimer = BreedTimer cell + 1,
                          Energy = newEnergy\<rparr>,
                       drawn gen rnd emptyTargets))
         else Some (put next (row, col)
                      \<lparr>Entity = Shark, BreedTimer = BreedTimer cell + 1,
                       Energy = newEnergy\<rparr>, rnd))"
proof -
  let ?fish = "occupants Fish current row col"
  let ?empty = "occupants Empty current row col"
  have here: "inGrid next (row, col)"
    using assms(3,4) by (simp add: inGrid_def)
  have there: "inGrid next (chosen gen rnd (occupants e current row col))"
    if "occupants e current row col \<noteq> []" for e
  proof -
    have "inGrid current (chosen gen rnd (occupants e current row col))"
      using chosen_in_set [OF assms(5) that] inGrid_occupants [OF assms(4)] by blast
    then show ?thesis
      using assms(3) by (simp add: inGrid_def)
  qed
  consider (dies) "Energy (cellAt current (row, col)) - 1 \<le>s 0"
    | (eats) "\<not> Energy (cellAt current (row, col)) - 1 \<le>s 0" "?fish \<noteq> []"
    | (moves) "\<not> Energy (cellAt current (row, col)) - 1 \<le>s 0" "?fish = []" "?empty \<noteq> []"
    | (stays) "\<not> Energy (cellAt current (row, col)) - 1 \<le>s 0" "?fish = []" "?empty = []"
    by blast
  then show ?thesis
  proof cases
    case dies
    then show ?thesis
      using assms(1-4) by (simp add: stepShark_mt_def getCell_wf)
  next
    case eats
    then show ?thesis
      using assms(1-4) here there [OF eats(2)]
      by (simp add: stepShark_mt_def getCell_wf collect_occupants
          draw_index [OF assms(5) eats(2)] setCell_wf wf_put Let_def)
  next
    case moves
    then show ?thesis
      using assms(1-4) here there [OF moves(3)]
      by (simp add: stepShark_mt_def getCell_wf collect_occupants
          draw_index [OF assms(5) moves(3)] setCell_wf wf_put Let_def)
  next
    case stays
    then show ?thesis
      using assms(1-4) here
      by (simp add: stepShark_mt_def getCell_wf collect_occupants setCell_wf Let_def)
  qed
qed

section \<open>The shark rule: starvation and energy\<close>

lemma exGen_in_range: "draws_in_range exGen"
  by (simp add: draws_in_range_def exGen_def)

lemmas ex_defs = exGen_def exCfg_def exWorld_def emptyC_def fishC_def sharkC_def

text \<open>
  Claim C4.  A shark whose energy after the decrement is not positive writes nothing: the
  rule returns the next grid and the generator as they were, so the shark is at no
  coordinate of the next generation.  A surviving shark that finds no fish to eat and does
  not breed (it has no free neighbour, or its timer is below the threshold) is written
  exactly once, with its previous energy minus 1 and its timer plus 1: in place when it
  cannot move, on the chosen free neighbour otherwise.
\<close>

theorem stepShark_starves_or_decrements:
  assumes "wf_world current" and "wf_world next" and "Size next = Size current"
    and "inGrid current (row, col)" and "draws_in_range gen"
    and "getCell current row col = Some cell"
  shows "(Energy cell - 1 \<le>s 0 \<longrightarrow>
            stepShark gen current next row col cfg rnd = Some (next, rnd))
       \<and> (\<not> Energy cell - 1 \<le>s 0 \<and> targets Fish current next row col = []
            \<and> targets Empty current next row col = [] \<longrightarrow>
            stepShark gen current next row col cfg rnd =
              Some (put next (row, col)
                \<lparr>Entity = Shark, BreedTimer = BreedTimer cell + 1, Energy = Energy cell - 1\<rparr>,
                rnd))
       \<and> (\<not> Energy cell - 1 \<le>s 0 \<and> targets Fish current next row col = []
            \<and> targets Empty current next row col \<noteq> []
            \<and> \<not> SharkBreed cfg \<le>s BreedTimer cell + 1 \<longrightarrow>
            stepShark gen current next row col cfg rnd =
              Some (put next (chosen gen rnd (targets Empty current next row col))
                \<lparr>Entity = Shark, BreedTimer = BreedTimer cell + 1, Energy = Energy cell - 1\<rparr>,
                drawn gen rnd (targets Empty current next row col)))"
proof -
  have cell: "cell = cellAt current (row, col)"
    using assms(1,4,6) by (simp add: getCell_wf)
  show ?thesis
    unfolding cell stepShark_wf [OF assms(1-5)] by (simp add: Let_def)
qed


theorem stepShark_starves_or_decrements_witness:
  "stepShark exGen (exWorld [[emptyC, emptyC, emptyC], [emptyC, sharkC 0 1, emptyC], [emptyC, emptyC, emptyC]])
      (exWorld [[emptyC, emptyC, emptyC], [emptyC, emptyC, emptyC], [emptyC, emptyC, emptyC]]) 1 1 exCfg 0
     = Some (exWorld [[emptyC, emptyC, emptyC], [emptyC, emptyC, emptyC], [emptyC, emptyC, emptyC]], 0)
   \<and> stepShark exGen (exWorld [[emptyC, sharkC 0 9, emptyC], [sharkC 0 9, sharkC 0 3, sharkC 0 9], [emptyC, sharkC 0 9, emptyC]])
      (exWorld [[emptyC, emptyC, emptyC], [emptyC, emptyC, emptyC], [emptyC, emptyC, emptyC]]) 1 1 exCfg 0
     = Some (exWorld [[emptyC, emptyC, emptyC], [emptyC, sharkC 1 2, emptyC], [emptyC, emptyC, emptyC]], 0)
   \<and> stepShark exGen (exWorld [[emptyC, emptyC, emptyC], [emptyC, sharkC 0 3, emptyC], [emptyC, emptyC, emptyC]])
      (exWorld [[emptyC, emptyC, emptyC], [emptyC, emptyC, emptyC], [emptyC, emptyC, emptyC]]) 1 1 exCfg 0
     = Some (exWorld [[emptyC, sharkC 1 2, emptyC], [emptyC, emptyC, emptyC], [emptyC, emptyC, emptyC]], 1)"
  using
    stepShark_starves_or_decrements [OF _ _ _ _ exGen_in_range,
      of "exWorld [[emptyC, emptyC, emptyC], [emptyC, sharkC 0 1, emptyC], [emptyC, emptyC, emptyC]]"
         "exWorld [[emptyC, emptyC, emptyC], [emptyC, emptyC, emptyC], [emptyC, emptyC, emptyC]]" 1 1 "sharkC 0 1" exCfg 0]
    stepShark_starves_or_decrements [OF _ _ _ _ exGen_in_range,
      of "exWorld [[emptyC, sharkC 0 9, emptyC], [sharkC 0 9, sharkC 0 3, sharkC 0 9], [emptyC, sharkC 0 9, emptyC]]"
         "exWorld [[emptyC, emptyC, emptyC], [emptyC, emptyC, emptyC], [emptyC, emptyC, emptyC]]" 1 1 "sharkC 0 3" exCfg 0]
    stepShark_starves_or_decrements [OF _ _ _ _ exGen_in_range,
      of "exWorld [[emptyC, emptyC, emptyC], [emptyC, sharkC 0 3, emptyC], [emptyC, emptyC, emptyC]]"
         "exWorld [[emptyC, emptyC, emptyC], [emptyC, emptyC, emptyC], [emptyC, emptyC, emptyC]]" 1 1 "sharkC 0 3" exCfg 0]
  by (simp add: ex_defs wf_world_def inGrid_def getCell_def index_def targets_def free_def
      cellAt_def Neighbors_def wrap_def put_def chosen_def drawn_def word_sle_eq)

section \<open>The shark rule: breeding\<close>

lemma targets_not_here:
  assumes "d \<in> set (targets e current next row col)"
    and "Entity (cellAt current (row, col)) \<noteq> e"
  shows "d \<noteq> (row, col)"
  using assms targets_free(1) by blast

text \<open>
  Claim C1.  In the multi-threaded variant, a shark that survives the decrement
  (\<open>newEnergy = Energy - 1\<close> is positive), meets the breed threshold
  \<open>BreedTimer + 1 \<ge> SharkBreed\<close> and moves, leaves an offspring at its origin and is itself
  written on the destination, a neighbour other than the origin, both with \<open>BreedTimer = 0\<close>.
  When a neighbour holds a fish it eats one: the offspring has \<open>Energy = Starve / 2\<close> and
  the parent \<open>Energy = Starve\<close>.  When no neighbour holds a fish and it moves to an empty
  neighbour, the offspring has \<open>Energy = newEnergy / 2\<close> and the parent \<open>Energy = newEnergy\<close>.
  The division is Go's integer division: the signed value of \<open>half x\<close> is that of \<open>x\<close>
  divided by 2 and truncated toward zero.
\<close>

theorem stepShark_mt_breeding_energy:
  assumes "wf_world current" and "wf_world next" and "Size next = Size current"
    and "inGrid current (row, col)" and "draws_in_range gen"
    and "getCell current row col = Some cell" and "Entity cell = Shark"
    and "\<not> Energy cell - 1 \<le>s 0" and "SharkBreed cfg \<le>s BreedTimer cell + 1"
  shows "(occupants Fish current row col \<noteq> [] \<longrightarrow>
           chosen gen rnd (occupants Fish current row col)
              \<in> set (occupants Fish current row col)
           \<and> chosen gen rnd (occupants Fish current row col) \<noteq> (row, col)
           \<and> stepShark_mt gen current next row col cfg rnd =
               Some (put (put next (row, col)
                            \<lparr>Entity = Shark, BreedTimer = 0, Energy = half (Starve cfg)\<rparr>)
                       (chosen gen rnd (occupants Fish current row col))
                       \<lparr>Entity = Shark, BreedTimer = 0, Energy = Starve cfg\<rparr>,
                     drawn gen rnd (occupants Fish current row col)))
       \<and> (occupants Fish current row col = []
            \<and> occupants Empty current row col \<noteq> [] \<longrightarrow>
           chosen gen rnd (occupants Empty current row col)
              \<in> set (occupants Empty current row col)
           \<and> chosen gen rnd (occupants Empty current row col) \<noteq> (row, col)
           \<and> stepShark_mt gen current next row col cfg rnd =
               Some (put (put next (row, col)
                            \<lparr>Entity = Shark, BreedTimer = 0, Energy = half (Energy cell - 1)\<rparr>)
                       (chosen gen rnd (occupants Empty current row col))
                       \<lparr>Entity = Shark, BreedTimer = 0, Energy = Energy cell - 1\<rparr>,
                     drawn gen rnd (occupants Empty current row col)))
       \<and> sint (half (Starve cfg)) = sint (Starve cfg) sdiv 2
       \<and> sint (half (Energy cell - 1)) = sint (Energy cell - 1) sdiv 2"
proof -
  have cell: "cell = cellAt current (row, col)"
    using assms(1,4,6) by (simp add: getCell_wf)
  have mem: "chosen gen rnd (occupants e current row col)
               \<in> set (occupants e current row col)"
    if "occupants e current row col \<noteq> []" for e
    using chosen_in_set [OF assms(5) that] .
  have away: "chosen gen rnd (occupants e current row col) \<noteq> (row, col)"
    if "occupants e current row col \<noteq> []" and "e \<noteq> Shark" for e
    using occupants_not_here [OF mem [OF that(1)]] that(2) assms(7) cell by simp
  have run: "stepShark_mt gen current next row col cfg rnd =
      (if occupants Fish current row col \<noteq> [] then
         Some (put (put next (row, col)
                      \<lparr>Entity = Shark, BreedTimer = 0, Energy = half (Starve cfg)\<rparr>)
                 (chosen gen rnd (occupants Fish current row col))
                 \<lparr>Entity = Shark, BreedTimer = 0, Energy = Starve cfg\<rparr>,
               drawn gen rnd (occupants Fish current row col))
       else if occupants Empty current row col \<noteq> [] then
         Some (put (put next (row, col)
                      \<lparr>Entity = Shark, BreedTimer = 0, Energy = half (Energy cell - 1)\<rparr>)
                 (chosen gen rnd (occupants Empty current row col))
                 \<lparr>Entity = Shark, BreedTimer = 0, Energy = Energy cell - 1\<rparr>,
               drawn gen rnd (occupants Empty current row col))
       else Some (put next (row, col)
                    \<lparr>Entity = Shark, BreedTimer = BreedTimer cell + 1,
                     Energy = Energy cell - 1\<rparr>, rnd))"
    using assms(8,9) unfolding cell stepShark_mt_wf [OF assms(1-5)] by (simp add: Let_def)
  show ?thesis
    using mem [of Fish] mem [of Empty] away [of Fish] away [of Empty] run
    by (simp add: sint_half)
qed

text \<open>
  With \<open>Starve = 5\<close>: a shark of energy 3 that eats and breeds leaves an offspring of energy
  \<open>5 / 2 = 2\<close> and carries 5; one that breeds on an empty neighbour leaves an offspring of
  energy \<open>(3 - 1) / 2 = 1\<close> and carries 2.
\<close>

theorem stepShark_mt_breeding_energy_witness:
  "stepShark_mt exGen (exWorld [[emptyC, fishC 0, emptyC],
                                [emptyC, sharkC 3 3, emptyC],
                                [emptyC, emptyC, emptyC]])
      (exWorld [[emptyC, emptyC, emptyC], [emptyC, emptyC, emptyC], [emptyC, emptyC, emptyC]])
      1 1 exCfg 0
     = Some (exWorld [[emptyC, sharkC 0 5, emptyC],
                      [emptyC, sharkC 0 2, emptyC],
                      [emptyC, emptyC, emptyC]], 1)
   \<and> stepShark_mt exGen (exWorld [[emptyC, emptyC, emptyC],
                                  [emptyC, sharkC 3 3, emptyC],
                                  [emptyC, emptyC, emptyC]])
      (exWorld [[emptyC, emptyC, emptyC], [emptyC, emptyC, emptyC], [emptyC, emptyC, emptyC]])
      1 1 exCfg 0
     = Some (exWorld [[emptyC, sharkC 0 2, emptyC],
                      [emptyC, sharkC 0 1, emptyC],
                      [emptyC, emptyC, emptyC]], 1)"
  using
    stepShark_mt_breeding_energy [OF _ _ _ _ exGen_in_range,
      of "exWorld [[emptyC, fishC 0, emptyC], [emptyC, sharkC 3 3, emptyC],
                   [emptyC, emptyC, emptyC]]"
         "exWorld [[emptyC, emptyC, emptyC], [emptyC, emptyC, emptyC], [emptyC, emptyC, emptyC]]" 1 1 "sharkC 3 3" exCfg 0]
    stepShark_mt_breeding_energy [OF _ _ _ _ exGen_in_range,
      of "exWorld [[emptyC, emptyC, emptyC], [emptyC, sharkC 3 3, emptyC],
                   [emptyC, emptyC, emptyC]]"
         "exWorld [[emptyC, emptyC, emptyC], [emptyC, emptyC, emptyC], [emptyC, emptyC, emptyC]]" 1 1 "sharkC 3 3" exCfg 0]
  by (simp add: ex_defs wf_world_def inGrid_def getCell_def index_def occupants_def
      cellAt_def Neighbors_def wrap_def put_def chosen_def drawn_def word_sle_eq half_def
      signed_divide_int_def)

section \<open>The fish rule\<close>

text \<open>
  Claim C3.  In the multi-threaded variant, the move candidates of a fish are the
  neighbour coordinates whose cell is \<open>Empty\<close> in the current grid.  With no candidate the
  fish is written at its own coordinate with its timer plus 1.  Otherwise one candidate
  is chosen at random: the destination is the entry of the candidate list at the position
  returned by the single draw \<open>rnd.Intn(len(emptySpots))\<close>, a number of \<open>[0, len)\<close> on which
  the draw is uniform by the contract of \<open>math/rand\<close>; on a grid of side 3 or more the
  candidates are pairwise distinct, so that each of them answers to exactly one value of
  the draw.  The destination is not the origin.  When \<open>BreedTimer + 1 \<ge> FishBreed\<close> a fish
  with timer 0 is written at the origin and at the destination; else a fish with timer
  plus 1 is written at the destination only, and the origin keeps the cell the next grid
  had (\<open>Empty\<close>, in a next grid that has not been written there).
\<close>

theorem stepFish_mt_rule:
  assumes "wf_world current" and "wf_world next" and "Size next = Size current"
    and "inGrid current (row, col)" and "draws_in_range gen"
    and "getCell current row col = Some cell" and "Entity cell = Fish"
  shows "collect (holds Empty current) (Neighbors current row col)
           = Some (filter (\<lambda>n. Entity (cellAt current n) = Empty) (Neighbors current row col))
       \<and> (occupants Empty current row col = [] \<longrightarrow>
            stepFish_mt gen current next row col cfg rnd =
              Some (put next (row, col)
                \<lparr>Entity = Fish, BreedTimer = BreedTimer cell + 1, Energy = 0\<rparr>, rnd))
       \<and> (occupants Empty current row col \<noteq> [] \<longrightarrow>
            0 \<le> fst (gen rnd (int (length (occupants Empty current row col))))
            \<and> fst (gen rnd (int (length (occupants Empty current row col))))
                < int (length (occupants Empty current row col))
            \<and> chosen gen rnd (occupants Empty current row col)
                = occupants Empty current row col
                    ! nat (fst (gen rnd (int (length (occupants Empty current row col)))))
            \<and> chosen gen rnd (occupants Empty current row col)
                \<in> set (occupants Empty current row col)
            \<and> chosen gen rnd (occupants Empty current row col) \<noteq> (row, col)
            \<and> (FishBreed cfg \<le>s BreedTimer cell + 1 \<longrightarrow>
                 stepFish_mt gen current next row col cfg rnd =
                   Some (put (put next (row, col)
                                \<lparr>Entity = Fish, BreedTimer = 0, Energy = 0\<rparr>)
                           (chosen gen rnd (occupants Empty current row col))
                           \<lparr>Entity = Fish, BreedTimer = 0, Energy = 0\<rparr>,
                         drawn gen rnd (occupants Empty current row col)))
            \<and> (\<not> FishBreed cfg \<le>s BreedTimer cell + 1 \<longrightarrow>
                 stepFish_mt gen current next row col cfg rnd =
                   Some (put next (chosen gen rnd (occupants Empty current row col))
                           \<lparr>Entity = Fish, BreedTimer = BreedTimer cell + 1, Energy = 0\<rparr>,
                         drawn gen rnd (occupants Empty current row col))
                 \<and> cellAt (put next (chosen gen rnd (occupants Empty current row col))
                           \<lparr>Entity = Fish, BreedTimer = BreedTimer cell + 1, Energy = 0\<rparr>)
                       (row, col) = cellAt next (row, col)))
       \<and> (3 \<le> Size current \<longrightarrow> distinct (occupants Empty current row col))"
proof -
  let ?spots = "occupants Empty current row col"
  have cell: "cell = cellAt current (row, col)"
    using assms(1,4,6) by (simp add: getCell_wf)
  have here: "inGrid next (row, col)"
    using assms(3,4) by (simp add: inGrid_def)
  have cands: "collect (holds Empty current) (Neighbors current row col)
           = Some (filter (\<lambda>n. Entity (cellAt current n) = Empty) (Neighbors current row col))"
    using collect_occupants [OF assms(1,4), of Empty] by (simp add: occupants_def)
  have run: "stepFish_mt gen current next row col cfg rnd =
      (if ?spots = [] then
         Some (put next (row, col)
                 \<lparr>Entity = Fish, BreedTimer = BreedTimer cell + 1, Energy = 0\<rparr>, rnd)
       else if FishBreed cfg \<le>s BreedTimer cell + 1 then
         Some (put (put next (row, col) \<lparr>Entity = Fish, BreedTimer = 0, Energy = 0\<rparr>)
                 (chosen gen rnd ?spots) \<lparr>Entity = Fish, BreedTimer = 0, Energy = 0\<rparr>,
               drawn gen rnd ?spots)
       else Some (put next (chosen gen rnd ?spots)
                 \<lparr>Entity = Fish, BreedTimer = BreedTimer cell + 1, Energy = 0\<rparr>,
               drawn gen rnd ?spots))"
    unfolding cell stepFish_mt_wf [OF assms(1-5)] by (simp add: Let_def)
  have draw: "0 \<le> fst (gen rnd (int (length ?spots)))
      \<and> fst (gen rnd (int (length ?spots))) < int (length ?spots)
      \<and> chosen gen rnd ?spots = ?spots ! nat (fst (gen rnd (int (length ?spots))))"
    if ne: "?spots \<noteq> []"
  proof -
    have "0 < int (length ?spots)" using ne by simp
    then show ?thesis
      using assms(5) unfolding draws_in_range_def chosen_def by blast
  qed
  have moved: "chosen gen rnd ?spots \<in> set ?spots \<and> chosen gen rnd ?spots \<noteq> (row, col)
      \<and> cellAt (put next (chosen gen rnd ?spots) v) (row, col) = cellAt next (row, col)"
    if ne: "?spots \<noteq> []" for v
  proof -
    have mem: "chosen gen rnd ?spots \<in> set ?spots"
      using chosen_in_set [OF assms(5) ne] .
    have away: "chosen gen rnd ?spots \<noteq> (row, col)"
      using occupants_not_here [OF mem] assms(7) cell by simp
    have "inGrid current (chosen gen rnd ?spots)"
      using inGrid_occupants [OF assms(4) mem] .
    then have "inGrid next (chosen gen rnd ?spots)"
      using assms(3) by (simp add: inGrid_def)
    then have "cellAt (put next (chosen gen rnd ?spots) v) (row, col) = cellAt next (row, col)"
      using cellAt_put [OF assms(2) _ here] away by simp
    with mem away show ?thesis by simp
  qed
  have dist: "distinct ?spots" if "3 \<le> Size current"
    using distinct_Neighbors [OF assms(4) that] by (simp add: occupants_def)
  show ?thesis
    using cands run draw moved dist by simp
qed

text \<open>
  A fish with no empty neighbour stays; a fish of timer 2 breeds (\<open>FishBreed = 3\<close>) towards
  the candidate at position 1 of its four; a fish of timer 0 moves to the candidate at
  position 2 and leaves its origin \<open>Empty\<close>.
\<close>

theorem stepFish_mt_rule_witness:
  "stepFish_mt exGen (exWorld [[emptyC, fishC 0, emptyC],
                               [fishC 0, fishC 1, fishC 0],
                               [emptyC, fishC 0, emptyC]])
      (exWorld [[emptyC, emptyC, emptyC], [emptyC, emptyC, emptyC], [emptyC, emptyC, emptyC]])
      1 1 exCfg 0
     = Some (exWorld [[emptyC, emptyC, emptyC],
                      [emptyC, fishC 2, emptyC],
                      [emptyC, emptyC, emptyC]], 0)
   \<and> stepFish_mt exGen (exWorld [[emptyC, emptyC, emptyC],
                                 [emptyC, fishC 2, emptyC],
                                 [emptyC, emptyC, emptyC]])
      (exWorld [[emptyC, emptyC, emptyC], [emptyC, emptyC, emptyC], [emptyC, emptyC, emptyC]])
      1 1 exCfg 1
     = Some (exWorld [[emptyC, emptyC, emptyC],
                      [emptyC, fishC 0, emptyC],
                      [emptyC, fishC 0, emptyC]], 2)
   \<and> stepFish_mt exGen (exWorld [[emptyC, emptyC, emptyC],
                                 [emptyC, fishC 0, emptyC],
                                 [emptyC, emptyC, emptyC]])
      (exWorld [[emptyC, emptyC, emptyC], [emptyC, emptyC, emptyC], [emptyC, emptyC, emptyC]])
      1 1 exCfg 2
     = Some (exWorld [[emptyC, emptyC, emptyC],
                      [fishC 1, emptyC, emptyC],
                      [emptyC, emptyC, emptyC]], 3)"
  using
    stepFish_mt_rule [OF _ _ _ _ exGen_in_range,
      of "exWorld [[emptyC, fishC 0, emptyC], [fishC 0, fishC 1, fishC 0],
                   [emptyC, fishC 0, emptyC]]"
         "exWorld [[emptyC, emptyC, emptyC], [emptyC, emptyC, emptyC], [emptyC, emptyC, emptyC]]" 1 1 "fishC 1" exCfg 0]
    stepFish_mt_rule [OF _ _ _ _ exGen_in_range,
      of "exWorld [[emptyC, emptyC, emptyC], [emptyC, fishC 2, emptyC],
                   [emptyC, emptyC, emptyC]]"
         "exWorld [[emptyC, emptyC, emptyC], [emptyC, emptyC, emptyC], [emptyC, emptyC, emptyC]]" 1 1 "fishC 2" exCfg 1]
    stepFish_mt_rule [OF _ _ _ _ exGen_in_range,
      of "exWorld [[emptyC, emptyC, emptyC], [emptyC, fishC 0, emptyC],
                   [emptyC, emptyC, emptyC]]"
         "exWorld [[emptyC, emptyC, emptyC], [emptyC, emptyC, emptyC], [emptyC, emptyC, emptyC]]" 1 1 "fishC 0" exCfg 2]
  by (simp add: ex_defs wf_world_def inGrid_def getCell_def index_def occupants_def
      cellAt_def Neighbors_def wrap_def put_def chosen_def drawn_def word_sle_eq)

section \<open>Breed timers\<close>

lemma put_other:
  assumes "wf_world w" and "inGrid w a" and "inGrid w p" and "p \<noteq> a"
  shows "cellAt (put w a v) p = cellAt w p"
  using cellAt_put [OF assms(1-3)] assms(4) by simp

lemma put_put_other:
  assumes "wf_world w" and "inGrid w a" and "inGrid w b" and "inGrid w p"
    and "p \<noteq> a" and "p \<noteq> b"
  shows "cellAt (put (put w a v) b u) p = cellAt w p"
proof -
  have "cellAt (put (put w a v) b u) p = cellAt (put w a v) p"
    using put_other [OF wf_put [OF assms(1)], of a v b p u] assms(3,4,6) by simp
  then show ?thesis
    using put_other [OF assms(1,2,4,5)] by simp
qed

lemma timer_successor_nonzero:
  fixes t :: go_int
  assumes "0 \<le>s t"
  shows "t + 1 \<noteq> 0"
proof
  assume "t + 1 = 0"
  then have "t = - 1"
    by (simp add: eq_neg_iff_add_eq_0)
  then have "sint t = - 1"
    by simp
  with assms show False
    by (simp add: word_sle_eq)
qed

text \<open>
  Claim C8.  For an entity whose timer is not negative (the data model's invariant), the
  cells a rule writes are of two kinds only.  Either the entity bred: its timer met the
  threshold of its species (\<open>BreedTimer + 1 \<ge> FishBreed\<close>, resp. \<open>SharkBreed\<close>) and two
  distinct cells are written, both with timer 0.  Or it did not: exactly one cell is
  written, with the previous timer plus 1, which is not 0.  A shark may also starve, and
  then nothing is written.
\<close>

theorem breed_timer_reset_iff_bred:
  assumes "wf_world current" and "wf_world next" and "Size next = Size current"
    and "inGrid current (row, col)" and "draws_in_range gen"
    and "getCell current row col = Some cell" and "0 \<le>s BreedTimer cell"
  shows "(Entity cell = Fish \<and> stepFish gen current next row col cfg rnd = Some (nextF, rndF)
          \<longrightarrow>
           (\<exists>p q. inGrid next p \<and> inGrid next q \<and> p \<noteq> q
               \<and> FishBreed cfg \<le>s BreedTimer cell + 1
               \<and> nextF = put (put next p \<lparr>Entity = Fish, BreedTimer = 0, Energy = 0\<rparr>) q
                            \<lparr>Entity = Fish, BreedTimer = 0, Energy = 0\<rparr>)
         \<or> (\<exists>p. inGrid next p \<and> BreedTimer cell + 1 \<noteq> 0
               \<and> nextF = put next p
                    \<lparr>Entity = Fish, BreedTimer = BreedTimer cell + 1, Energy = 0\<rparr>))
       \<and> (Entity cell = Shark \<and> stepShark gen current next row col cfg rnd = Some (nextS, rndS)
          \<longrightarrow>
           (Energy cell - 1 \<le>s 0 \<and> nextS = next)
         \<or> (\<exists>p q e1 e2. inGrid next p \<and> inGrid next q \<and> p \<noteq> q
               \<and> SharkBreed cfg \<le>s BreedTimer cell + 1
               \<and> nextS = put (put next p \<lparr>Entity = Shark, BreedTimer = 0, Energy = e1\<rparr>) q
                            \<lparr>Entity = Shark, BreedTimer = 0, Energy = e2\<rparr>)
         \<or> (\<exists>p e. inGrid next p \<and> BreedTimer cell + 1 \<noteq> 0
               \<and> nextS = put next p
                    \<lparr>Entity = Shark, BreedTimer = BreedTimer cell + 1, Energy = e\<rparr>))"
proof -
  have cell: "cellAt current (row, col) = cell"
    using assms(1,4,6) by (simp add: getCell_wf)
  have here: "inGrid next (row, col)"
    using assms(3,4) by (simp add: inGrid_def)
  have nz: "BreedTimer cell + 1 \<noteq> 0"
    using timer_successor_nonzero [OF assms(7)] .
  have fish: "(\<exists>p q. inGrid next p \<and> inGrid next q \<and> p \<noteq> q
               \<and> FishBreed cfg \<le>s BreedTimer cell + 1
               \<and> nextF = put (put next p \<lparr>Entity = Fish, BreedTimer = 0, Energy = 0\<rparr>) q
                            \<lparr>Entity = Fish, BreedTimer = 0, Energy = 0\<rparr>)
         \<or> (\<exists>p. inGrid next p \<and> BreedTimer cell + 1 \<noteq> 0
               \<and> nextF = put next p
                    \<lparr>Entity = Fish, BreedTimer = BreedTimer cell + 1, Energy = 0\<rparr>)"
    if sp: "Entity cell = Fish"
      and run: "stepFish gen current next row col cfg rnd = Some (nextF, rndF)"
    using assms(1-5)
  proof (cases rule: stepFish_cases [where cfg = cfg and rnd = rnd])
    case stay
    then have "nextF = put next (row, col)
        \<lparr>Entity = Fish, BreedTimer = BreedTimer cell + 1, Energy = 0\<rparr>"
      using run cell by simp
    then show ?thesis using here nz by blast
  next
    case (breed d)
    have "(row, col) \<noteq> d"
      using targets_not_here [OF breed(1)] cell sp by auto
    moreover have "nextF = put (put next (row, col)
        \<lparr>Entity = Fish, BreedTimer = 0, Energy = 0\<rparr>) d
        \<lparr>Entity = Fish, BreedTimer = 0, Energy = 0\<rparr>"
      using run breed(5) by simp
    moreover have "FishBreed cfg \<le>s BreedTimer cell + 1"
      using breed(4) cell by simp
    ultimately show ?thesis using here breed(3) by blast
  next
    case (move d)
    then have "nextF = put next d
        \<lparr>Entity = Fish, BreedTimer = BreedTimer cell + 1, Energy = 0\<rparr>"
      using run cell by simp
    then show ?thesis using move(3) nz by blast
  qed
  have shark: "(Energy cell - 1 \<le>s 0 \<and> nextS = next)
         \<or> (\<exists>p q e1 e2. inGrid next p \<and> inGrid next q \<and> p \<noteq> q
               \<and> SharkBreed cfg \<le>s BreedTimer cell + 1
               \<and> nextS = put (put next p \<lparr>Entity = Shark, BreedTimer = 0, Energy = e1\<rparr>) q
                            \<lparr>Entity = Shark, BreedTimer = 0, Energy = e2\<rparr>)
         \<or> (\<exists>p e. inGrid next p \<and> BreedTimer cell + 1 \<noteq> 0
               \<and> nextS = put next p
                    \<lparr>Entity = Shark, BreedTimer = BreedTimer cell + 1, Energy = e\<rparr>)"
    if sp: "Entity cell = Shark"
      and run: "stepShark gen current next row col cfg rnd = Some (nextS, rndS)"
    using assms(1-5)
  proof (cases rule: stepShark_cases [where cfg = cfg and rnd = rnd])
    case dies
    then show ?thesis using run cell by simp
  next
    case (eat_breed d)
    have "(row, col) \<noteq> d"
      using targets_not_here [OF eat_breed(2)] cell sp by auto
    moreover have "nextS = put (put next (row, col)
        \<lparr>Entity = Shark, BreedTimer = 0, Energy = Starve cfg\<rparr>) d
        \<lparr>Entity = Shark, BreedTimer = 0, Energy = Starve cfg\<rparr>"
      using run eat_breed(6) by simp
    moreover have "SharkBreed cfg \<le>s BreedTimer cell + 1"
      using eat_breed(5) cell by simp
    ultimately show ?thesis using here eat_breed(4) by blast
  next
    case (eat d)
    then have "nextS = put next d
        \<lparr>Entity = Shark, BreedTimer = BreedTimer cell + 1, Energy = Starve cfg\<rparr>"
      using run cell by simp
    then show ?thesis using eat(4) nz by blast
  next
    case (move_breed d)
    have "(row, col) \<noteq> d"
      using targets_not_here [OF move_breed(3)] cell sp by auto
    moreover have "nextS = put (put next (row, col)
        \<lparr>Entity = Shark, BreedTimer = 0, Energy = Starve cfg\<rparr>) d
        \<lparr>Entity = Shark, BreedTimer = 0, Energy = Energy cell - 1\<rparr>"
      using run move_breed(7) cell by simp
    moreover have "SharkBreed cfg \<le>s BreedTimer cell + 1"
      using move_breed(6) cell by simp
    ultimately show ?thesis using here move_breed(5) by blast
  next
    case (move d)
    then have "nextS = put next d
        \<lparr>Entity = Shark, BreedTimer = BreedTimer cell + 1, Energy = Energy cell - 1\<rparr>"
      using run cell by simp
    then show ?thesis using move(5) nz by blast
  next
    case stay
    then have "nextS = put next (row, col)
        \<lparr>Entity = Shark, BreedTimer = BreedTimer cell + 1, Energy = Energy cell - 1\<rparr>"
      using run cell by simp
    then show ?thesis using here nz by blast
  qed
  show ?thesis
    using fish shark by blast
qed

theorem breed_timer_reset_iff_bred_witness:
  "stepFish exGen (exWorld [[emptyC, emptyC, emptyC],
                            [emptyC, fishC 2, emptyC],
                            [emptyC, emptyC, emptyC]])
      (exWorld [[emptyC, emptyC, emptyC], [emptyC, emptyC, emptyC], [emptyC, emptyC, emptyC]])
      1 1 exCfg 1
     = Some (exWorld [[emptyC, emptyC, emptyC],
                      [emptyC, fishC 0, emptyC],
                      [emptyC, fishC 0, emptyC]], 2)
   \<and> FishBreed exCfg \<le>s BreedTimer (fishC 2) + 1
   \<and> stepShark exGen (exWorld [[emptyC, emptyC, emptyC],
                               [emptyC, sharkC 1 4, fishC 0],
                               [emptyC, emptyC, emptyC]])
      (exWorld [[emptyC, emptyC, emptyC], [emptyC, emptyC, emptyC], [emptyC, emptyC, emptyC]])
      1 1 exCfg 0
     = Some (exWorld [[emptyC, emptyC, emptyC],
                      [emptyC, emptyC, sharkC 2 5],
                      [emptyC, emptyC, emptyC]], 1)
   \<and> (\<exists>p e. exWorld [[emptyC, emptyC, emptyC],
                       [emptyC, emptyC, sharkC 2 5],
                       [emptyC, emptyC, emptyC]]
          = put (exWorld [[emptyC, emptyC, emptyC], [emptyC, emptyC, emptyC],
                          [emptyC, emptyC, emptyC]]) p
              \<lparr>Entity = Shark, BreedTimer = BreedTimer (sharkC 1 4) + 1, Energy = e\<rparr>)"
proof -
  let ?N = "exWorld [[emptyC, emptyC, emptyC], [emptyC, emptyC, emptyC],
                     [emptyC, emptyC, emptyC]]"
  let ?W = "exWorld [[emptyC, emptyC, emptyC], [emptyC, sharkC 1 4, fishC 0],
                     [emptyC, emptyC, emptyC]]"
  let ?R = "exWorld [[emptyC, emptyC, emptyC], [emptyC, emptyC, sharkC 2 5],
                     [emptyC, emptyC, emptyC]]"
  have runF: "stepFish exGen (exWorld [[emptyC, emptyC, emptyC],
                            [emptyC, fishC 2, emptyC],
                            [emptyC, emptyC, emptyC]]) ?N 1 1 exCfg 1
     = Some (exWorld [[emptyC, emptyC, emptyC],
                      [emptyC, fishC 0, emptyC],
                      [emptyC, fishC 0, emptyC]], 2)"
    and thr: "FishBreed exCfg \<le>s BreedTimer (fishC 2) + 1"
    by (simp_all add: stepFish_def ex_defs getCell_def setCell_def index_def candidate_def
        Neighbors_def wrap_def Intn_def word_sle_eq)
  have runS: "stepShark exGen ?W ?N 1 1 exCfg 0 = Some (?R, 1)"
    by (simp add: stepShark_def ex_defs getCell_def setCell_def index_def candidate_def
        Neighbors_def wrap_def Intn_def word_sle_eq)
  have hyps: "wf_world ?W" "wf_world ?N" "Size ?N = Size ?W" "inGrid ?W (1, 1)"
    "getCell ?W 1 1 = Some (sharkC 1 4)" "0 \<le>s BreedTimer (sharkC 1 4)"
    and sp: "Entity (sharkC 1 4) = Shark"
    and alive: "\<not> Energy (sharkC 1 4) - 1 \<le>s 0"
    and below: "\<not> SharkBreed exCfg \<le>s BreedTimer (sharkC 1 4) + 1"
    by (simp_all add: ex_defs wf_world_def inGrid_def getCell_def index_def word_sle_eq)
  have "\<exists>p e. ?R = put ?N p \<lparr>Entity = Shark, BreedTimer = BreedTimer (sharkC 1 4) + 1,
                             Energy = e\<rparr>"
    using breed_timer_reset_iff_bred [OF hyps(1-4) exGen_in_range hyps(5,6),
        where nextS = ?R and rndS = 1 and cfg = exCfg and rnd = 0] runS sp alive below
    by blast
  then show ?thesis
    using runF thr runS by simp
qed

section \<open>Cells already written in the next grid\<close>

lemma targets_eq_filter:
  "targets e current next row col
     = filter (\<lambda>n. Entity (cellAt current n) = e \<and> Entity (cellAt next n) = Empty)
         (Neighbors current row col)"
proof -
  have "free e current next
          = (\<lambda>n. Entity (cellAt current n) = e \<and> Entity (cellAt next n) = Empty)"
    by (rule ext) (simp add: free_def)
  then show ?thesis
    by (simp add: targets_def)
qed

lemma targets_Nil_iff:
  "targets e current next row col = []
     \<longleftrightarrow> (\<forall>n \<in> set (Neighbors current row col).
            Entity (cellAt current n) = e \<longrightarrow> Entity (cellAt next n) \<noteq> Empty)"
  by (auto simp: targets_eq_filter filter_empty_conv)

lemma writes_spare_claimed:
  assumes "wf_world next" and "inGrid next orig" and "inGrid next d"
    and "Entity (cellAt next d) = Empty"
    and "inGrid next p" and "p \<noteq> orig" and "Entity (cellAt next p) \<noteq> Empty"
  shows "cellAt (put next orig v) p = cellAt next p"
    and "cellAt (put next d u) p = cellAt next p"
    and "cellAt (put (put next orig v) d u) p = cellAt next p"
proof -
  have pd: "p \<noteq> d" using assms(4,7) by auto
  show "cellAt (put next orig v) p = cellAt next p"
    using put_other [OF assms(1,2,5,6)] .
  show "cellAt (put next d u) p = cellAt next p"
    using put_other [OF assms(1,3,5) pd] .
  show "cellAt (put (put next orig v) d u) p = cellAt next p"
    using put_put_other [OF assms(1,2,3,5,6) pd] .
qed

lemma stepFish_spares_claimed:
  assumes "wf_world current" and "wf_world next" and "Size next = Size current"
    and "inGrid current (row, col)" and "draws_in_range gen"
    and "stepFish gen current next row col cfg rnd = Some (next', rnd')"
    and "inGrid next p" and "p \<noteq> (row, col)" and "Entity (cellAt next p) \<noteq> Empty"
  shows "cellAt next' p = cellAt next p"
proof -
  have here: "inGrid next (row, col)"
    using assms(3,4) by (simp add: inGrid_def)
  from assms(1-5) show ?thesis
  proof (cases rule: stepFish_cases [where cfg = cfg and rnd = rnd])
    case stay
    then show ?thesis
      using assms(6) put_other [OF assms(2) here assms(7,8)] by simp
  next
    case (breed d)
    then show ?thesis
      using assms(6) writes_spare_claimed(3) [OF assms(2) here breed(3)
          targets_free(2) [OF breed(1)] assms(7-9)] by simp
  next
    case (move d)
    then show ?thesis
      using assms(6) writes_spare_claimed(2) [OF assms(2) here move(3)
          targets_free(2) [OF move(1)] assms(7-9)] by simp
  qed
qed

lemma stepShark_spares_claimed:
  assumes "wf_world current" and "wf_world next" and "Size next = Size current"
    and "inGrid current (row, col)" and "draws_in_range gen"
    and "stepShark gen current next row col cfg rnd = Some (next', rnd')"
    and "inGrid next p" and "p \<noteq> (row, col)" and "Entity (cellAt next p) \<noteq> Empty"
  shows "cellAt next' p = cellAt next p"
proof -
  have here: "inGrid next (row, col)"
    using assms(3,4) by (simp add: inGrid_def)
  from assms(1-5) show ?thesis
  proof (cases rule: stepShark_cases [where cfg = cfg and rnd = rnd])
    case dies
    then show ?thesis using assms(6) by simp
  next
    case (eat_breed d)
    then show ?thesis
      using assms(6) writes_spare_claimed(3) [OF assms(2) here eat_breed(4)
          targets_free(2) [OF eat_breed(2)] assms(7-9)] by simp
  next
    case (eat d)
    then show ?thesis
      using assms(6) writes_spare_claimed(2) [OF assms(2) here eat(4)
          targets_free(2) [OF eat(2)] assms(7-9)] by simp
  next
    case (move_breed d)
    then show ?thesis
      using assms(6) writes_spare_claimed(3) [OF assms(2) here move_breed(5)
          targets_free(2) [OF move_breed(3)] assms(7-9)] by simp
  next
    case (move d)
    then show ?thesis
      using assms(6) writes_spare_claimed(2) [OF assms(2) here move(5)
          targets_free(2) [OF move(3)] assms(7-9)] by simp
  next
    case stay
    then show ?thesis
      using assms(6) put_other [OF assms(2) here assms(7,8)] by simp
  qed
qed

text \<open>
  Claim C9.  The candidate lists of both rules (fish moves, shark eat targets, shark moves)
  are the neighbours that hold the wanted entity in the current grid and are still \<open>Empty\<close>
  in the next grid.  A fish whose free neighbours are all taken in the next grid stays in
  place.  A surviving shark whose fish neighbours are all taken in the next grid falls
  through to the move rule: it moves, without eating, to a neighbour that is free in both
  grids, or stays in place when there is none.  Whatever a rule does, every cell other than
  the origin that already held a fish or a shark in the next grid is left as it was.
\<close>

theorem candidates_exclude_claimed_cells:
  assumes "wf_world current" and "wf_world next" and "Size next = Size current"
    and "inGrid current (row, col)" and "draws_in_range gen"
    and "getCell current row col = Some cell"
  shows "collect (candidate e current next) (Neighbors current row col)
           = Some (filter (\<lambda>n. Entity (cellAt current n) = e \<and> Entity (cellAt next n) = Empty)
                     (Neighbors current row col))
       \<and> ((\<forall>n \<in> set (Neighbors current row col).
              Entity (cellAt current n) = Empty \<longrightarrow> Entity (cellAt next n) \<noteq> Empty) \<longrightarrow>
            stepFish gen current next row col cfg rnd =
              Some (put next (row, col)
                \<lparr>Entity = Fish, BreedTimer = BreedTimer cell + 1, Energy = 0\<rparr>, rnd))
       \<and> (\<not> Energy cell - 1 \<le>s 0
            \<and> (\<forall>n \<in> set (Neighbors current row col).
                 Entity (cellAt current n) = Fish \<longrightarrow> Entity (cellAt next n) \<noteq> Empty) \<longrightarrow>
            stepShark gen current next row col cfg rnd =
              (if targets Empty current next row col = [] then
                 Some (put next (row, col)
                   \<lparr>Entity = Shark, BreedTimer = BreedTimer cell + 1,
                    Energy = Energy cell - 1\<rparr>, rnd)
               else if SharkBreed cfg \<le>s BreedTimer cell + 1 then
                 Some (put (put next (row, col)
                              \<lparr>Entity = Shark, BreedTimer = 0, Energy = Starve cfg\<rparr>)
                         (chosen gen rnd (targets Empty current next row col))
                         \<lparr>Entity = Shark, BreedTimer = 0, Energy = Energy cell - 1\<rparr>,
                       drawn gen rnd (targets Empty current next row col))
               else
                 Some (put next (chosen gen rnd (targets Empty current next row col))
                         \<lparr>Entity = Shark, BreedTimer = BreedTimer cell + 1,
                          Energy = Energy cell - 1\<rparr>,
                       drawn gen rnd (targets Empty current next row col))))
       \<and> (\<forall>p. inGrid next p \<and> p \<noteq> (row, col) \<and> Entity (cellAt next p) \<noteq> Empty \<longrightarrow>
            (stepFish gen current next row col cfg rnd = Some (nextF, rndF) \<longrightarrow>
               cellAt nextF p = cellAt next p)
          \<and> (stepShark gen current next row col cfg rnd = Some (nextS, rndS) \<longrightarrow>
               cellAt nextS p = cellAt next p))"
proof -
  have cell: "cell = cellAt current (row, col)"
    using assms(1,4,6) by (simp add: getCell_wf)
  have cands: "collect (candidate e current next) (Neighbors current row col)
           = Some (filter (\<lambda>n. Entity (cellAt current n) = e \<and> Entity (cellAt next n) = Empty)
                     (Neighbors current row col))"
    using collect_targets [OF assms(1-4), of e] by (simp add: targets_eq_filter)
  have fish: "stepFish gen current next row col cfg rnd =
              Some (put next (row, col)
                \<lparr>Entity = Fish, BreedTimer = BreedTimer cell + 1, Energy = 0\<rparr>, rnd)"
    if "\<forall>n \<in> set (Neighbors current row col).
              Entity (cellAt current n) = Empty \<longrightarrow> Entity (cellAt next n) \<noteq> Empty"
  proof -
    have "targets Empty current next row col = []"
      using that by (simp add: targets_Nil_iff)
    then show ?thesis
      unfolding cell stepFish_wf [OF assms(1-5)] by (simp add: Let_def)
  qed
  have shark: "stepShark gen current next row col cfg rnd =
              (if targets Empty current next row col = [] then
                 Some (put next (row, col)
                   \<lparr>Entity = Shark, BreedTimer = BreedTimer cell + 1,
                    Energy = Energy cell - 1\<rparr>, rnd)
               else if SharkBreed cfg \<le>s BreedTimer cell + 1 then
                 Some (put (put next (row, col)
                              \<lparr>Entity = Shark, BreedTimer = 0, Energy = Starve cfg\<rparr>)
                         (chosen gen rnd (targets Empty current next row col))
                         \<lparr>Entity = Shark, BreedTimer = 0, Energy = Energy cell - 1\<rparr>,
                       drawn gen rnd (targets Empty current next row col))
               else
                 Some (put next (chosen gen rnd (targets Empty current next row col))
                         \<lparr>Entity = Shark, BreedTimer = BreedTimer cell + 1,
                          Energy = Energy cell - 1\<rparr>,
                       drawn gen rnd (targets Empty current next row col)))"
    if "\<not> Energy cell - 1 \<le>s 0"
      and "\<forall>n \<in> set (Neighbors current row col).
                 Entity (cellAt current n) = Fish \<longrightarrow> Entity (cellAt next n) \<noteq> Empty"
  proof -
    have "targets Fish current next row col = []"
      using that(2) by (simp add: targets_Nil_iff)
    then show ?thesis
      using that(1) unfolding cell stepShark_wf [OF assms(1-5)] by (simp add: Let_def)
  qed
  show ?thesis
    using cands fish shark stepFish_spares_claimed [OF assms(1-5)]
      stepShark_spares_claimed [OF assms(1-5)]
    by blast
qed


theorem candidates_exclude_claimed_cells_witness:
  "collect (candidate Fish (exWorld [[emptyC, fishC 0, emptyC],
                                     [emptyC, sharkC 0 4, emptyC],
                                     [emptyC, emptyC, emptyC]])
                           (exWorld [[emptyC, sharkC 1 5, emptyC],
                                     [fishC 1, emptyC, emptyC],
                                     [emptyC, emptyC, emptyC]]))
     (Neighbors (exWorld [[emptyC, fishC 0, emptyC],
                          [emptyC, sharkC 0 4, emptyC],
                          [emptyC, emptyC, emptyC]]) 1 1) = Some []
   \<and> stepShark exGen (exWorld [[emptyC, fishC 0, emptyC],
                               [emptyC, sharkC 0 4, emptyC],
                               [emptyC, emptyC, emptyC]])
        (exWorld [[emptyC, sharkC 1 5, emptyC],
                  [fishC 1, emptyC, emptyC],
                  [emptyC, emptyC, emptyC]]) 1 1 exCfg 0
      = Some (exWorld [[emptyC, sharkC 1 5, emptyC],
                       [fishC 1, emptyC, emptyC],
                       [emptyC, sharkC 1 3, emptyC]], 1)
   \<and> cellAt (exWorld [[emptyC, sharkC 1 5, emptyC],
                       [fishC 1, emptyC, emptyC],
                       [emptyC, sharkC 1 3, emptyC]]) (0, 1) = sharkC 1 5"
proof -
  let ?W = "exWorld [[emptyC, fishC 0, emptyC], [emptyC, sharkC 0 4, emptyC],
                     [emptyC, emptyC, emptyC]]"
  let ?N = "exWorld [[emptyC, sharkC 1 5, emptyC], [fishC 1, emptyC, emptyC],
                     [emptyC, emptyC, emptyC]]"
  let ?R = "exWorld [[emptyC, sharkC 1 5, emptyC], [fishC 1, emptyC, emptyC],
                     [emptyC, sharkC 1 3, emptyC]]"
  have hyps: "wf_world ?W" "wf_world ?N" "Size ?N = Size ?W" "inGrid ?W (1, 1)"
    "getCell ?W 1 1 = Some (sharkC 0 4)"
    by (simp_all add: ex_defs wf_world_def inGrid_def getCell_def index_def)
  note inst = candidates_exclude_claimed_cells [OF hyps(1-4) exGen_in_range hyps(5),
      where e = Fish and cfg = exCfg and rnd = 0 and nextS = ?R and rndS = 1]
  have cands: "collect (candidate Fish ?W ?N) (Neighbors ?W 1 1) = Some []"
    using inst by (simp add: ex_defs Neighbors_def wrap_def cellAt_def)
  have alive: "\<not> Energy (sharkC 0 4) - 1 \<le>s 0"
    by (simp add: ex_defs word_sle_eq)
  have taken: "\<forall>n \<in> set (Neighbors ?W 1 1).
      Entity (cellAt ?W n) = Fish \<longrightarrow> Entity (cellAt ?N n) \<noteq> Empty"
    by (simp add: ex_defs Neighbors_def wrap_def cellAt_def)
  have run: "stepShark exGen ?W ?N 1 1 exCfg 0 = Some (?R, 1)"
    using inst alive taken
    by (simp add: ex_defs targets_def free_def cellAt_def Neighbors_def wrap_def put_def
        chosen_def drawn_def word_sle_eq)
  have "inGrid ?N (0, 1) \<and> (0 :: int, 1 :: int) \<noteq> (1, 1) \<and> Entity (cellAt ?N (0, 1)) \<noteq> Empty"
    by (simp add: ex_defs inGrid_def cellAt_def)
  then have "cellAt ?R (0, 1) = cellAt ?N (0, 1)"
    using inst run by blast
  then have "cellAt ?R (0, 1) = sharkC 1 5"
    by (simp add: ex_defs cellAt_def)
  with cands run show ?thesis by simp
qed

section \<open>The scan of the step engine\<close>

lemma forEach_append:
  "forEach (xs @ ys) body s = forEach xs body s \<bind> forEach ys body"
  by (induction xs arbitrary: s) (simp_all split: Option.bind_split)

lemma forEach_nested:
  "forEach xs (\<lambda>x. forEach ys (body x)) s
     = forEach (concat (map (\<lambda>x. map (Pair x) ys) xs)) (\<lambda>(x, y). body x y) s"
proof (induction xs arbitrary: s)
  case Nil
  then show ?case by simp
next
  case (Cons x xs)
  have inner: "forEach (map (Pair x) ys) (\<lambda>(x, y). body x y) t = forEach ys (body x) t" for t
    by (induction ys arbitrary: t) (simp_all split: Option.bind_split)
  show ?case
    by (simp add: forEach_append inner Cons.IH split: Option.bind_split)
qed

lemma forEach_invariant:
  assumes "I s"
    and "\<And>x t. x \<in> set xs \<Longrightarrow> I t \<Longrightarrow> \<exists>t'. body x t = Some t' \<and> I t'"
  shows "\<exists>s'. forEach xs body s = Some s' \<and> I s'"
  using assms
proof (induction xs arbitrary: s)
  case Nil
  then show ?case by simp
next
  case (Cons x xs)
  from Cons.prems obtain t where t: "body x s = Some t" "I t"
    by (meson list.set_intros(1))
  have "\<exists>s'. forEach xs body t = Some s' \<and> I s'"
    using Cons.IH [OF t(2)] Cons.prems(2) by simp
  then show ?case
    using t(1) by simp
qed

lemma set_upTo: "set (upTo n) = {0..<n}"
  by (auto simp: upTo_def)

lemma distinct_upTo: "distinct (upTo n)"
  by (simp add: upTo_def)

lemma set_allPositions: "set (allPositions w) = {p. inGrid w p}"
  by (auto simp: allPositions_def set_upTo inGrid_def)

lemma distinct_allPositions: "distinct (allPositions w)"
  unfolding allPositions_def
proof (rule distinct_concat)
  show "distinct (map (\<lambda>row. map (Pair row) (upTo (Size w))) (upTo (Size w)))"
  proof (cases "upTo (Size w) = []")
    case True
    then show ?thesis by simp
  next
    case False
    then have "inj (\<lambda>row::int. map (Pair row) (upTo (Size w)))"
      by (auto simp: inj_on_def map_eq_conv neq_Nil_conv)
    then show ?thesis
      by (simp add: distinct_map distinct_upTo inj_on_def)
  qed
next
  fix ys assume "ys \<in> set (map (\<lambda>row. map (Pair row) (upTo (Size w))) (upTo (Size w)))"
  then show "distinct ys"
    by (auto simp: distinct_map distinct_upTo inj_on_def)
next
  fix ys zs
  assume "ys \<in> set (map (\<lambda>row. map (Pair row) (upTo (Size w))) (upTo (Size w)))"
    and "zs \<in> set (map (\<lambda>row. map (Pair row) (upTo (Size w))) (upTo (Size w)))"
    and "ys \<noteq> zs"
  then show "set ys \<inter> set zs = {}"
    by auto
qed

lemma StepWorld_flat:
  "StepWorld gen w cfg rnd =
     newEmptyWorldLike w \<bind>
       (\<lambda>next. forEach (allPositions w) (\<lambda>(row, col). visit gen w cfg row col) (next, rnd))"
  by (simp add: StepWorld_def forEach_nested allPositions_def)

lemma wf_replicate:
  assumes "0 \<le> n"
  shows "wf_world \<lparr>Size = n, Cells = replicate (nat n) (replicate (nat n) zeroCell),
           wFishBreed = a, wSharkBreed = b, wStarve = c\<rparr>"
  using assms by (simp add: wf_world_def list_all_length)

lemma cellAt_replicate:
  assumes "inGrid w p" and "Cells w = replicate (nat (Size w)) (replicate (nat (Size w)) zeroCell)"
  shows "cellAt w p = zeroCell"
  using assms by (simp add: cellAt_def inGrid_def)

lemma newEmptyWorldLike_wf:
  assumes "wf_world w"
  obtains fresh where "newEmptyWorldLike w = Some fresh" and "wf_world fresh"
    and "Size fresh = Size w" and "\<And>p. inGrid fresh p \<Longrightarrow> cellAt fresh p = zeroCell"
proof -
  let ?next = "\<lparr>Size = Size w, Cells = replicate (nat (Size w)) (replicate (nat (Size w)) zeroCell),
           wFishBreed = wFishBreed w, wSharkBreed = wSharkBreed w, wStarve = wStarve w\<rparr>"
  have nn: "0 \<le> Size w" using assms by (simp add: wf_world_def)
  then have "newEmptyWorldLike w = Some ?next"
    by (simp add: newEmptyWorldLike_def makeCells_def)
  moreover have "wf_world ?next"
    using wf_replicate [OF nn] .
  moreover have "cellAt ?next p = zeroCell" if "inGrid ?next p" for p
    using cellAt_replicate [OF that] by simp
  ultimately show thesis
    using that by simp
qed

lemma visit_wf:
  assumes "wf_world w" and "wf_world next" and "Size next = Size w" and "inGrid w (row, col)"
  shows "visit gen w cfg row col (next, rnd) =
     (if Entity (cellAt next (row, col)) \<noteq> Empty then Some (next, rnd)
      else case Entity (cellAt w (row, col)) of
             Fish \<Rightarrow> stepFish gen w next row col cfg rnd
           | Shark \<Rightarrow> stepShark gen w next row col cfg rnd
           | Empty \<Rightarrow> Some (next, rnd))"
proof -
  have "inGrid next (row, col)"
    using assms(3,4) by (simp add: inGrid_def)
  then show ?thesis
    using assms by (simp add: visit_def getCell_wf split: Entity.split)
qed

text \<open>
  What one iteration of the scan does to the next grid: nothing, one write, or two writes,
  always on cells that were \<open>Empty\<close> in the next grid.
\<close>

lemma visit_cases [consumes 5, case_names skip starve one two]:
  assumes "wf_world w" and "wf_world next" and "Size next = Size w"
    and "inGrid w (row, col)" and "draws_in_range gen"
  obtains
    (skip) "\<not> evaluated w next (row, col)"
      "visit gen w cfg row col (next, rnd) = Some (next, rnd)"
  | (starve) "evaluated w next (row, col)" "starves w (row, col)"
      "visit gen w cfg row col (next, rnd) = Some (next, rnd)"
  | (one) p v rnd' where "survives w next (row, col)" "\<not> breeds cfg w next (row, col)"
      "inGrid next p" "Entity (cellAt next p) = Empty"
      "Entity v = Entity (cellAt w (row, col))"
      "BreedTimer v = BreedTimer (cellAt w (row, col)) + 1"
      "Energy v = Starve cfg \<or> Energy v = 0 \<and> Entity v = Fish
         \<or> Energy v = Energy (cellAt w (row, col)) - 1"
      "visit gen w cfg row col (next, rnd) = Some (put next p v, rnd')"
  | (two) d v u rnd' where "breeds cfg w next (row, col)"
      "inGrid next d" "Entity (cellAt next d) = Empty" "d \<noteq> (row, col)"
      "Entity v = Entity (cellAt w (row, col))" "Entity u = Entity (cellAt w (row, col))"
      "BreedTimer v = 0" "BreedTimer u = 0"
      "Energy v = Starve cfg \<or> Energy v = 0 \<and> Entity v = Fish"
      "Energy u = Starve cfg \<or> Energy u = 0 \<and> Entity u = Fish
         \<or> Energy u = Energy (cellAt w (row, col)) - 1"
      "visit gen w cfg row col (next, rnd) = Some (put (put next (row, col) v) d u, rnd')"
proof -
  note eq = visit_wf [OF assms(1-4), of gen cfg rnd]
  have here: "inGrid next (row, col)"
    using assms(3,4) by (simp add: inGrid_def)
  show thesis
  proof (cases "evaluated w next (row, col)")
    case False
    then have "visit gen w cfg row col (next, rnd) = Some (next, rnd)"
      using eq by (auto simp: evaluated_def split: Entity.splits)
    with False show thesis by (rule skip)
  next
    case ev: True
    then have free_here: "Entity (cellAt next (row, col)) = Empty"
      by (simp add: evaluated_def)
    from ev consider (fish) "Entity (cellAt w (row, col)) = Fish"
      | (shark) "Entity (cellAt w (row, col)) = Shark"
      by (cases "Entity (cellAt w (row, col))") (auto simp: evaluated_def)
    then show thesis
    proof cases
      case fish
      have vis: "visit gen w cfg row col (next, rnd) = stepFish gen w next row col cfg rnd"
        using eq free_here fish by simp
      have sv: "survives w next (row, col)"
        using ev fish by (simp add: survives_def starves_def)
      from assms(1-5) show thesis
      proof (cases rule: stepFish_cases [where cfg = cfg and rnd = rnd])
        case stay
        have "\<not> breeds cfg w next (row, col)"
          using stay(1) fish by (simp add: breeds_def canMove_def)
        then show thesis
          using one [of "(row, col)" "\<lparr>Entity = Fish,
              BreedTimer = BreedTimer (cellAt w (row, col)) + 1, Energy = 0\<rparr>" rnd]
            sv here free_here fish vis stay(2) by simp
      next
        case (breed d)
        have "breeds cfg w next (row, col)"
          using breed(1,4) fish sv by (auto simp: breeds_def canMove_def threshold_def)
        moreover have "d \<noteq> (row, col)"
          using targets_not_here [OF breed(1)] fish by simp
        ultimately show thesis
          using two [of d "\<lparr>Entity = Fish, BreedTimer = 0, Energy = 0\<rparr>"
              "\<lparr>Entity = Fish, BreedTimer = 0, Energy = 0\<rparr>"
              "drawn gen rnd (targets Empty w next row col)"]
            breed(3,5) targets_free(2) [OF breed(1)] fish vis by simp
      next
        case (move d)
        have "\<not> breeds cfg w next (row, col)"
          using move(4) fish by (simp add: breeds_def threshold_def)
        then show thesis
          using one [of d "\<lparr>Entity = Fish,
              BreedTimer = BreedTimer (cellAt w (row, col)) + 1, Energy = 0\<rparr>"
              "drawn gen rnd (targets Empty w next row col)"]
            sv move(3,5) targets_free(2) [OF move(1)] fish vis by simp
      qed
    next
      case shark
      have vis: "visit gen w cfg row col (next, rnd) = stepShark gen w next row col cfg rnd"
        using eq free_here shark by simp
      from assms(1-5) show thesis
      proof (cases rule: stepShark_cases [where cfg = cfg and rnd = rnd])
        case dies
        then have "starves w (row, col)"
          using shark by (simp add: starves_def)
        then show thesis
          using starve ev vis dies(2) by simp
      next
        case (eat_breed d)
        have "breeds cfg w next (row, col)"
          using eat_breed(1,2,5) shark ev
          by (auto simp: breeds_def canMove_def threshold_def survives_def starves_def)
        moreover have "d \<noteq> (row, col)"
          using targets_not_here [OF eat_breed(2)] shark by simp
        ultimately show thesis
          using two [of d "\<lparr>Entity = Shark, BreedTimer = 0, Energy = Starve cfg\<rparr>"
              "\<lparr>Entity = Shark, BreedTimer = 0, Energy = Starve cfg\<rparr>"
              "drawn gen rnd (targets Fish w next row col)"]
            eat_breed(4,6) targets_free(2) [OF eat_breed(2)] shark vis by simp
      next
        case (eat d)
        have "\<not> breeds cfg w next (row, col)"
          using eat(5) shark by (simp add: breeds_def threshold_def)
        moreover have "survives w next (row, col)"
          using ev eat(1) by (simp add: survives_def starves_def)
        ultimately show thesis
          using one [of d "\<lparr>Entity = Shark,
              BreedTimer = BreedTimer (cellAt w (row, col)) + 1, Energy = Starve cfg\<rparr>"
              "drawn gen rnd (targets Fish w next row col)"]
            eat(4,6) targets_free(2) [OF eat(2)] shark vis by simp
      next
        case (move_breed d)
        have "breeds cfg w next (row, col)"
          using move_breed(1,3,6) shark ev
          by (auto simp: breeds_def canMove_def threshold_def survives_def starves_def)
        moreover have "d \<noteq> (row, col)"
          using targets_not_here [OF move_breed(3)] shark by simp
        ultimately show thesis
          using two [of d "\<lparr>Entity = Shark, BreedTimer = 0, Energy = Starve cfg\<rparr>"
              "\<lparr>Entity = Shark, BreedTimer = 0,
                Energy = Energy (cellAt w (row, col)) - 1\<rparr>"
              "drawn gen rnd (targets Empty w next row col)"]
            move_breed(5,7) targets_free(2) [OF move_breed(3)] shark vis by simp
      next
        case (move d)
        have "\<not> breeds cfg w next (row, col)"
          using move(6) shark by (simp add: breeds_def threshold_def)
        moreover have "survives w next (row, col)"
          using ev move(1) by (simp add: survives_def starves_def)
        ultimately show thesis
          using one [of d "\<lparr>Entity = Shark,
              BreedTimer = BreedTimer (cellAt w (row, col)) + 1,
              Energy = Energy (cellAt w (row, col)) - 1\<rparr>"
              "drawn gen rnd (targets Empty w next row col)"]
            move(5,7) targets_free(2) [OF move(3)] shark vis by simp
      next
        case stay
        have "\<not> breeds cfg w next (row, col)"
          using stay(2,3) shark by (simp add: breeds_def canMove_def)
        moreover have "survives w next (row, col)"
          using ev stay(1) by (simp add: survives_def starves_def)
        ultimately show thesis
          using one [of "(row, col)" "\<lparr>Entity = Shark,
              BreedTimer = BreedTimer (cellAt w (row, col)) + 1,
              Energy = Energy (cellAt w (row, col)) - 1\<rparr>" rnd]
            here free_here stay(4) shark vis by simp
      qed
    qed
  qed
qed

lemma finite_inGrid: "finite {p. inGrid w p}"
proof -
  have "{p. inGrid w p} \<subseteq> {0..<Size w} \<times> {0..<Size w}"
    by (auto simp: inGrid_def)
  then show ?thesis
    by (rule finite_subset) simp
qed

lemma finite_occupied: "finite (occupied w)"
  by (rule finite_subset [OF _ finite_inGrid [of w]]) (auto simp: occupied_def)

lemma occupied_put:
  assumes "wf_world w" and "inGrid w p" and "Entity v \<noteq> Empty"
  shows "occupied (put w p v) = insert p (occupied w)"
proof -
  have "q \<in> occupied (put w p v) \<longleftrightarrow> q \<in> insert p (occupied w)" for q
  proof (cases "q = p")
    case True
    then show ?thesis
      using assms cellAt_put [OF assms(1,2,2)] by (simp add: occupied_def)
  next
    case False
    show ?thesis
    proof (cases "inGrid w q")
      case True
      then show ?thesis
        using False cellAt_put [OF assms(1,2) True] by (simp add: occupied_def)
    next
      case False
      then show ?thesis
        using assms(2) by (auto simp: occupied_def)
    qed
  qed
  then show ?thesis by blast
qed

lemma visit_effect:
  assumes "wf_world w" and "wf_world next" and "Size next = Size w"
    and "inGrid w (row, col)" and "draws_in_range gen"
  shows "\<exists>next' rnd'. visit gen w cfg row col (next, rnd) = Some (next', rnd')
     \<and> wf_world next' \<and> Size next' = Size w
     \<and> card (occupied next') = card (occupied next)
          + (if survives w next (row, col) then 1 else 0)
          + (if breeds cfg w next (row, col) then 1 else 0)
     \<and> (\<forall>p. inGrid next p \<and> Entity (cellAt next p) \<noteq> Empty \<longrightarrow> cellAt next' p = cellAt next p)"
proof -
  have here: "inGrid next (row, col)"
    using assms(3,4) by (simp add: inGrid_def)
  from assms show ?thesis
  proof (cases rule: visit_cases [where cfg = cfg and rnd = rnd])
    case skip
    then show ?thesis
      using assms(2,3) by (simp add: survives_def breeds_def)
  next
    case starve
    then show ?thesis
      using assms(2,3) by (simp add: survives_def breeds_def)
  next
    case (one p v rnd')
    have nonempty: "Entity v \<noteq> Empty"
      using one(1,5) by (simp add: survives_def evaluated_def)
    have "p \<notin> occupied next"
      using one(4) by (simp add: occupied_def)
    then have "card (occupied (put next p v)) = card (occupied next) + 1"
      using occupied_put [OF assms(2) one(3) nonempty] finite_occupied [of "next"] by simp
    moreover have "cellAt (put next p v) q = cellAt next q"
      if "inGrid next q" and "Entity (cellAt next q) \<noteq> Empty" for q
      using put_other [OF assms(2) one(3) that(1)] that(2) one(4) by auto
    ultimately show ?thesis
      using one(1,2,8) wf_put [OF assms(2)] assms(3) by simp
  next
    case (two d v u rnd')
    have sv: "survives w next (row, col)"
      using two(1) by (simp add: breeds_def)
    then have free_here: "Entity (cellAt next (row, col)) = Empty"
      by (simp add: survives_def evaluated_def)
    have nonempty: "Entity v \<noteq> Empty" "Entity u \<noteq> Empty"
      using sv two(5,6) by (simp_all add: survives_def evaluated_def)
    have wf1: "wf_world (put next (row, col) v)"
      using wf_put [OF assms(2)] .
    have "occupied (put (put next (row, col) v) d u) = insert d (insert (row, col) (occupied next))"
      using occupied_put [OF wf1, of d u] occupied_put [OF assms(2) here nonempty(1)]
        two(2) nonempty(2) by simp
    moreover have "d \<notin> occupied next" "(row, col) \<notin> occupied next"
      using two(3) free_here by (simp_all add: occupied_def)
    ultimately have "card (occupied (put (put next (row, col) v) d u)) = card (occupied next) + 2"
      using two(4) finite_occupied [of "next"] by simp
    moreover have "cellAt (put (put next (row, col) v) d u) q = cellAt next q"
      if "inGrid next q" and "Entity (cellAt next q) \<noteq> Empty" for q
      using put_put_other [OF assms(2) here two(2) that(1)] that(2) two(3) free_here by auto
    ultimately show ?thesis
      using two(1,11) sv wf_put [OF wf1] assms(3) by simp
  qed
qed

lemma scan_effect:
  assumes "wf_world w" and "draws_in_range gen" and "set ps \<subseteq> {p. inGrid w p}"
    and "wf_world next" and "Size next = Size w"
  shows "\<exists>next' rnd'.
       forEach ps (\<lambda>(row, col). visit gen w cfg row col) (next, rnd) = Some (next', rnd')
     \<and> wf_world next' \<and> Size next' = Size w
     \<and> card (occupied next') = card (occupied next)
          + tally (\<lambda>p st. survives w (fst st) p) (\<lambda>(row, col). visit gen w cfg row col)
              ps (next, rnd)
          + tally (\<lambda>p st. breeds cfg w (fst st) p) (\<lambda>(row, col). visit gen w cfg row col)
              ps (next, rnd)
     \<and> (\<forall>p. inGrid next p \<and> Entity (cellAt next p) \<noteq> Empty \<longrightarrow> cellAt next' p = cellAt next p)"
  using assms(3-5)
proof (induction ps arbitrary: "next" rnd)
  case Nil
  then show ?case by simp
next
  case (Cons a ps)
  obtain row col where a: "a = (row, col)" by (cases a)
  have ina: "inGrid w (row, col)"
    using Cons.prems(1) a by simp
  from visit_effect [OF assms(1) Cons.prems(2,3) ina assms(2), of cfg rnd]
  obtain n1 r1 where v: "visit gen w cfg row col (next, rnd) = Some (n1, r1)"
    and wf1: "wf_world n1" and sz1: "Size n1 = Size w"
    and c1: "card (occupied n1) = card (occupied next)
          + (if survives w next (row, col) then 1 else 0)
          + (if breeds cfg w next (row, col) then 1 else 0)"
    and k1: "\<forall>p. inGrid next p \<and> Entity (cellAt next p) \<noteq> Empty \<longrightarrow> cellAt n1 p = cellAt next p"
    by blast
  have sub: "set ps \<subseteq> {p. inGrid w p}"
    using Cons.prems(1) by simp
  from Cons.IH [OF sub wf1 sz1, of r1]
  obtain n2 r2 where f: "forEach ps (\<lambda>(row, col). visit gen w cfg row col) (n1, r1) = Some (n2, r2)"
    and wf2: "wf_world n2" and sz2: "Size n2 = Size w"
    and c2: "card (occupied n2) = card (occupied n1)
          + tally (\<lambda>p st. survives w (fst st) p) (\<lambda>(row, col). visit gen w cfg row col)
              ps (n1, r1)
          + tally (\<lambda>p st. breeds cfg w (fst st) p) (\<lambda>(row, col). visit gen w cfg row col)
              ps (n1, r1)"
    and k2: "\<forall>p. inGrid n1 p \<and> Entity (cellAt n1 p) \<noteq> Empty \<longrightarrow> cellAt n2 p = cellAt n1 p"
    by blast
  have keep: "cellAt n2 p = cellAt next p"
    if "inGrid next p" and "Entity (cellAt next p) \<noteq> Empty" for p
  proof -
    have e1: "cellAt n1 p = cellAt next p" using k1 that by blast
    moreover have "inGrid n1 p"
      using that(1) sz1 Cons.prems(3) by (simp add: inGrid_def)
    ultimately show ?thesis
      using k2 that(2) by metis
  qed
  show ?case
    using v f wf2 sz2 c1 c2 keep by (simp add: a)
qed

section \<open>Counting organisms\<close>

lemma count_loop:
  assumes "wf_world w" and "set ps \<subseteq> {p. inGrid w p}"
  shows "forEach ps (\<lambda>(row, col) count. do {
             cell \<leftarrow> getCell w row col;
             Some (if Entity cell = e then count + 1 else count)
           }) (c :: int)
         = Some (c + int (length (filter (\<lambda>p. Entity (cellAt w p) = e) ps)))"
  using assms(2)
proof (induction ps arbitrary: c)
  case Nil
  then show ?case by simp
next
  case (Cons a ps)
  obtain row col where a: "a = (row, col)" by (cases a)
  have "getCell w row col = Some (cellAt w (row, col))"
    using Cons.prems a assms(1) by (simp add: getCell_wf)
  then show ?case
    using Cons.IH Cons.prems by (simp add: a)
qed

lemma countEntities_card:
  assumes "wf_world w"
  shows "countEntities w e = Some (int (card {p. inGrid w p \<and> Entity (cellAt w p) = e}))"
proof -
  have "countEntities w e
      = forEach (allPositions w) (\<lambda>(row, col) count. do {
             cell \<leftarrow> getCell w row col;
             Some (if Entity cell = e then count + 1 else count)
           }) 0"
    by (simp add: countEntities_def forEach_nested allPositions_def)
  also have "\<dots> = Some (int (length (filter (\<lambda>p. Entity (cellAt w p) = e) (allPositions w))))"
    using count_loop [OF assms, of "allPositions w" e 0] by (simp add: set_allPositions)
  also have "length (filter (\<lambda>p. Entity (cellAt w p) = e) (allPositions w))
      = card ({p. Entity (cellAt w p) = e} \<inter> set (allPositions w))"
    by (rule distinct_length_filter [OF distinct_allPositions])
  also have "{p. Entity (cellAt w p) = e} \<inter> set (allPositions w)
      = {p. inGrid w p \<and> Entity (cellAt w p) = e}"
    by (auto simp: set_allPositions)
  finally show ?thesis .
qed

lemma card_occupied:
  "card (occupied w) = card {p. inGrid w p \<and> Entity (cellAt w p) = Fish}
                     + card {p. inGrid w p \<and> Entity (cellAt w p) = Shark}"
proof -
  let ?F = "{p. inGrid w p \<and> Entity (cellAt w p) = Fish}"
  let ?S = "{p. inGrid w p \<and> Entity (cellAt w p) = Shark}"
  have "occupied w = ?F \<union> ?S"
  proof -
    have "Entity c \<noteq> Empty \<longleftrightarrow> Entity c = Fish \<or> Entity c = Shark" for c :: Cell
      by (cases "Entity c") simp_all
    then show ?thesis
      by (auto simp: occupied_def)
  qed
  moreover have "?F \<inter> ?S = {}" by auto
  moreover have "finite ?F" "finite ?S"
    by (rule finite_subset [OF _ finite_inGrid [of w]]; blast)+
  ultimately show ?thesis
    by (simp add: card_Un_disjoint)
qed

lemma tally_survives_le:
  "tally (\<lambda>p st. survives w (fst st) p) body ps s
     \<le> length (filter (\<lambda>p. Entity (cellAt w p) \<noteq> Empty) ps)"
proof (induction ps arbitrary: s)
  case Nil
  then show ?case by simp
next
  case (Cons a ps)
  have first: "(if survives w (fst s) a then 1 else 0)
                 \<le> (if Entity (cellAt w a) \<noteq> Empty then 1 else (0::nat))"
    by (simp add: survives_def evaluated_def)
  have rest: "(case body a s of None \<Rightarrow> 0
               | Some s' \<Rightarrow> tally (\<lambda>p st. survives w (fst st) p) body ps s')
                 \<le> length (filter (\<lambda>p. Entity (cellAt w p) \<noteq> Empty) ps)"
    using Cons.IH by (simp split: option.split)
  have "length (filter (\<lambda>p. Entity (cellAt w p) \<noteq> Empty) (a # ps))
      = (if Entity (cellAt w a) \<noteq> Empty then 1 else 0)
        + length (filter (\<lambda>p. Entity (cellAt w p) \<noteq> Empty) ps)"
    by simp
  then show ?case
    using first rest by (simp del: filter.simps)
qed

lemma survivors_le_occupied:
  "tally (\<lambda>p st. survives w (fst st) p) body (allPositions w) s \<le> card (occupied w)"
proof -
  have "length (filter (\<lambda>p. Entity (cellAt w p) \<noteq> Empty) (allPositions w))
      = card ({p. Entity (cellAt w p) \<noteq> Empty} \<inter> set (allPositions w))"
    by (rule distinct_length_filter [OF distinct_allPositions])
  also have "{p. Entity (cellAt w p) \<noteq> Empty} \<inter> set (allPositions w) = occupied w"
    by (auto simp: set_allPositions occupied_def)
  finally show ?thesis
    using tally_survives_le [of w body "allPositions w" s] by simp
qed

lemma occupied_fresh:
  assumes "\<And>p. inGrid fresh p \<Longrightarrow> cellAt fresh p = zeroCell"
  shows "occupied fresh = {}"
  using assms by (auto simp: occupied_def zeroCell_def)

text \<open>
  Claim C2.  On a well-formed world the step returns a next generation, and
  \<^item> the number of fish and sharks in it is the number of survivors of the step plus the
    number of its breed events: every write of the step lands on a cell of its own, so
    each survivor and each offspring is counted once;
  \<^item> the survivors are at most the organisms of the current generation, so the next
    total never exceeds the current total plus the number of breed events;
  \<^item> once a cell of the next grid holds a fish or a shark, at whatever point of the scan,
    it holds that same cell when the step returns: no write overwrites it.
\<close>

theorem StepWorld_no_write_conflict:
  assumes "wf_world w" and "draws_in_range gen"
  shows "\<exists>fresh result rnd' fish sharks fish' sharks'.
       newEmptyWorldLike w = Some fresh
     \<and> StepWorld gen w cfg rnd = Some (result, rnd')
     \<and> countEntities w Fish = Some fish \<and> countEntities w Shark = Some sharks
     \<and> countEntities result Fish = Some fish' \<and> countEntities result Shark = Some sharks'
     \<and> fish' + sharks' = int (survivors gen w cfg rnd) + int (births gen w cfg rnd)
     \<and> int (survivors gen w cfg rnd) \<le> fish + sharks
     \<and> fish' + sharks' \<le> fish + sharks + int (births gen w cfg rnd)
     \<and> (\<forall>ps qs mid rmid p.
           allPositions w = ps @ qs
           \<and> forEach ps (\<lambda>(row, col). visit gen w cfg row col) (fresh, rnd) = Some (mid, rmid)
           \<and> inGrid mid p \<and> Entity (cellAt mid p) \<noteq> Empty
           \<longrightarrow> cellAt result p = cellAt mid p)"
proof -
  let ?body = "\<lambda>(row, col). visit gen w cfg row col"
  from newEmptyWorldLike_wf [OF assms(1)]
  obtain fresh where fresh: "newEmptyWorldLike w = Some fresh" "wf_world fresh"
    "Size fresh = Size w" "\<And>p. inGrid fresh p \<Longrightarrow> cellAt fresh p = zeroCell"
    by blast
  have all: "set (allPositions w) \<subseteq> {p. inGrid w p}"
    by (simp add: set_allPositions)
  from scan_effect [OF assms all fresh(2,3), of cfg rnd]
  obtain result rnd' where
    run: "forEach (allPositions w) ?body (fresh, rnd) = Some (result, rnd')"
    and wfr: "wf_world result"
    and cnt: "card (occupied result) = card (occupied fresh)
          + tally (\<lambda>p st. survives w (fst st) p) ?body (allPositions w) (fresh, rnd)
          + tally (\<lambda>p st. breeds cfg w (fst st) p) ?body (allPositions w) (fresh, rnd)"
    by blast
  have step: "StepWorld gen w cfg rnd = Some (result, rnd')"
    using fresh(1) run by (simp add: StepWorld_flat)
  have sv: "survivors gen w cfg rnd
      = tally (\<lambda>p st. survives w (fst st) p) ?body (allPositions w) (fresh, rnd)"
    and bi: "births gen w cfg rnd
      = tally (\<lambda>p st. breeds cfg w (fst st) p) ?body (allPositions w) (fresh, rnd)"
    using fresh(1) by (simp_all add: survivors_def births_def)
  have total: "card (occupied result) = survivors gen w cfg rnd + births gen w cfg rnd"
    using cnt occupied_fresh [OF fresh(4)] sv bi by simp
  have bound: "survivors gen w cfg rnd \<le> card (occupied w)"
    unfolding sv by (rule survivors_le_occupied)
  let ?f = "int (card {p. inGrid w p \<and> Entity (cellAt w p) = Fish})"
  let ?s = "int (card {p. inGrid w p \<and> Entity (cellAt w p) = Shark})"
  let ?f' = "int (card {p. inGrid result p \<and> Entity (cellAt result p) = Fish})"
  let ?s' = "int (card {p. inGrid result p \<and> Entity (cellAt result p) = Shark})"
  have counts: "countEntities w Fish = Some ?f" "countEntities w Shark = Some ?s"
    "countEntities result Fish = Some ?f'" "countEntities result Shark = Some ?s'"
    using countEntities_card [OF assms(1)] countEntities_card [OF wfr] by simp_all
  have sum: "?f' + ?s' = int (survivors gen w cfg rnd) + int (births gen w cfg rnd)"
    using total card_occupied [of result] by simp
  have le: "int (survivors gen w cfg rnd) \<le> ?f + ?s"
    using bound card_occupied [of w] by simp
  have keep: "cellAt result p = cellAt mid p"
    if split: "allPositions w = ps @ qs"
      and pre: "forEach ps ?body (fresh, rnd) = Some (mid, rmid)"
      and p: "inGrid mid p" "Entity (cellAt mid p) \<noteq> Empty"
    for ps qs mid rmid p
  proof -
    have sub: "set ps \<subseteq> {p. inGrid w p}" "set qs \<subseteq> {p. inGrid w p}"
      using all split by simp_all
    from scan_effect [OF assms sub(1) fresh(2,3), of cfg rnd]
    obtain m1 r1 where "forEach ps ?body (fresh, rnd) = Some (m1, r1)"
      and "wf_world m1" and "Size m1 = Size w"
      by blast
    with pre have mid: "wf_world mid" "Size mid = Size w"
      by simp_all
    from scan_effect [OF assms sub(2) mid, of cfg rmid]
    obtain r2 rnd2 where
      post: "forEach qs ?body (mid, rmid) = Some (r2, rnd2)"
      and k: "\<forall>p. inGrid mid p \<and> Entity (cellAt mid p) \<noteq> Empty \<longrightarrow> cellAt r2 p = cellAt mid p"
      by blast
    have "forEach (allPositions w) ?body (fresh, rnd) = Some (r2, rnd2)"
      using pre post by (simp add: split forEach_append)
    then have "r2 = result"
      using run by simp
    then show ?thesis
      using k p by blast
  qed
  have le': "?f' + ?s' \<le> ?f + ?s + int (births gen w cfg rnd)"
    using sum le by simp
  have keep': "\<forall>ps qs mid rmid p.
           allPositions w = ps @ qs
           \<and> forEach ps ?body (fresh, rnd) = Some (mid, rmid)
           \<and> inGrid mid p \<and> Entity (cellAt mid p) \<noteq> Empty
           \<longrightarrow> cellAt result p = cellAt mid p"
    using keep by blast
  show ?thesis
    apply (rule exI [of _ fresh])
    apply (rule exI [of _ result])
    apply (rule exI [of _ rnd'])
    apply (rule exI [of _ ?f])
    apply (rule exI [of _ ?s])
    apply (rule exI [of _ ?f'])
    apply (rule exI [of _ ?s'])
    apply (intro conjI)
             apply (rule fresh(1))
            apply (rule step)
           apply (rule counts(1))
          apply (rule counts(2))
         apply (rule counts(3))
        apply (rule counts(4))
       apply (rule sum)
      apply (rule le)
     apply (rule le')
    apply (rule keep')
    done
qed


text \<open>
  A step in which a shark starves and a fish breeds: two organisms before, one survivor
  and one birth, two organisms after.
\<close>

theorem StepWorld_no_write_conflict_witness:
  "StepWorld exGen (exWorld [[sharkC 0 1, emptyC, emptyC],
                             [emptyC, fishC 2, emptyC],
                             [emptyC, emptyC, emptyC]]) exCfg 0
     = Some (exWorld [[emptyC, fishC 0, emptyC],
                      [emptyC, fishC 0, emptyC],
                      [emptyC, emptyC, emptyC]], 1)
   \<and> countEntities (exWorld [[sharkC 0 1, emptyC, emptyC],
                             [emptyC, fishC 2, emptyC],
                             [emptyC, emptyC, emptyC]]) Fish = Some 1
   \<and> countEntities (exWorld [[sharkC 0 1, emptyC, emptyC],
                             [emptyC, fishC 2, emptyC],
                             [emptyC, emptyC, emptyC]]) Shark = Some 1
   \<and> countEntities (exWorld [[emptyC, fishC 0, emptyC],
                             [emptyC, fishC 0, emptyC],
                             [emptyC, emptyC, emptyC]]) Fish = Some 2
   \<and> countEntities (exWorld [[emptyC, fishC 0, emptyC],
                             [emptyC, fishC 0, emptyC],
                             [emptyC, emptyC, emptyC]]) Shark = Some 0
   \<and> survivors exGen (exWorld [[sharkC 0 1, emptyC, emptyC],
                               [emptyC, fishC 2, emptyC],
                               [emptyC, emptyC, emptyC]]) exCfg 0 = 1
   \<and> births exGen (exWorld [[sharkC 0 1, emptyC, emptyC],
                            [emptyC, fishC 2, emptyC],
                            [emptyC, emptyC, emptyC]]) exCfg 0 = 1"
proof -
  let ?W = "exWorld [[sharkC 0 1, emptyC, emptyC], [emptyC, fishC 2, emptyC],
                     [emptyC, emptyC, emptyC]]"
  let ?R = "exWorld [[emptyC, fishC 0, emptyC], [emptyC, fishC 0, emptyC],
                     [emptyC, emptyC, emptyC]]"
  have wf: "wf_world ?W"
    by (simp add: ex_defs wf_world_def)
  have run: "StepWorld exGen ?W exCfg 0 = Some (?R, 1)"
    by (simp add: stepFish_def stepShark_def ex_defs getCell_def setCell_def index_def
        candidate_def Neighbors_def wrap_def Intn_def word_sle_eq StepWorld_def visit_def
        newEmptyWorldLike_def makeCells_def upTo_def upto.simps zeroCell_def numeral_eq_Suc)
  have before: "countEntities ?W Fish = Some 1" "countEntities ?W Shark = Some 1"
    by (simp_all add: countEntities_def ex_defs getCell_def index_def upTo_def upto.simps)
  have after: "countEntities ?R Fish = Some 2" "countEntities ?R Shark = Some 0"
    by (simp_all add: countEntities_def ex_defs getCell_def index_def upTo_def upto.simps)
  from StepWorld_no_write_conflict [OF wf exGen_in_range, of exCfg 0] run before after
  have "2 + 0 = int (survivors exGen ?W exCfg 0) + int (births exGen ?W exCfg 0)"
    and "int (survivors exGen ?W exCfg 0) \<le> 1 + 1"
    by auto
  moreover have bi: "births exGen ?W exCfg 0 = 1"
    by (simp add: births_def breeds_def survives_def evaluated_def starves_def canMove_def
        threshold_def targets_def free_def cellAt_def allPositions_def
        stepFish_def stepShark_def ex_defs getCell_def setCell_def index_def
        candidate_def Neighbors_def wrap_def Intn_def word_sle_eq visit_def
        newEmptyWorldLike_def makeCells_def upTo_def upto.simps zeroCell_def numeral_eq_Suc)
  ultimately have "survivors exGen ?W exCfg 0 = 1"
    by simp
  with run before after bi show ?thesis
    by simp
qed

section \<open>Determinism of the step\<close>

lemma same_draws_chosen:
  assumes "same_draws R gen1 gen2" and "R a b"
  shows "chosen gen1 a xs = chosen gen2 b xs" and "R (drawn gen1 a xs) (drawn gen2 b xs)"
  using assms unfolding same_draws_def chosen_def drawn_def by simp_all

lemma visit_mt_wf:
  assumes "wf_world w" and "inGrid w (row, col)"
  shows "visit_mt gen w cfg row col (next, rnd) =
     (case Entity (cellAt w (row, col)) of
        Fish \<Rightarrow> stepFish_mt gen w next row col cfg rnd
      | Shark \<Rightarrow> stepShark_mt gen w next row col cfg rnd
      | Empty \<Rightarrow> Some (next, rnd))"
  using assms by (simp add: visit_mt_def getCell_wf split: Entity.split)

lemma stepFish_mt_same:
  assumes "wf_world current" and "wf_world next" and "Size next = Size current"
    and "inGrid current (row, col)" and "draws_in_range gen1" and "draws_in_range gen2"
    and "same_draws R gen1 gen2" and "R a b"
  shows "\<exists>next' r1 r2. stepFish_mt gen1 current next row col cfg a = Some (next', r1)
       \<and> stepFish_mt gen2 current next row col cfg b = Some (next', r2) \<and> R r1 r2
       \<and> wf_world next' \<and> Size next' = Size current"
  unfolding stepFish_mt_wf [OF assms(1-5)] stepFish_mt_wf [OF assms(1-4,6)]
  using assms(2,3,8) by (simp add: Let_def same_draws_chosen [OF assms(7,8)] wf_put)

lemma stepShark_mt_same:
  assumes "wf_world current" and "wf_world next" and "Size next = Size current"
    and "inGrid current (row, col)" and "draws_in_range gen1" and "draws_in_range gen2"
    and "same_draws R gen1 gen2" and "R a b"
  shows "\<exists>next' r1 r2. stepShark_mt gen1 current next row col cfg a = Some (next', r1)
       \<and> stepShark_mt gen2 current next row col cfg b = Some (next', r2) \<and> R r1 r2
       \<and> wf_world next' \<and> Size next' = Size current"
  unfolding stepShark_mt_wf [OF assms(1-5)] stepShark_mt_wf [OF assms(1-4,6)]
  using assms(2,3,8) by (simp add: Let_def same_draws_chosen [OF assms(7,8)] wf_put)

lemma visit_mt_same:
  assumes "wf_world w" and "wf_world next" and "Size next = Size w"
    and "inGrid w (row, col)" and "draws_in_range gen1" and "draws_in_range gen2"
    and "same_draws R gen1 gen2" and "R a b"
  shows "\<exists>next' r1 r2. visit_mt gen1 w cfg row col (next, a) = Some (next', r1)
       \<and> visit_mt gen2 w cfg row col (next, b) = Some (next', r2) \<and> R r1 r2
       \<and> wf_world next' \<and> Size next' = Size w"
  unfolding visit_mt_wf [OF assms(1,4)]
  using stepFish_mt_same [OF assms, of cfg] stepShark_mt_same [OF assms, of cfg] assms(2,3,8)
  by (simp split: Entity.split)

lemma scan_mt_same:
  assumes "wf_world w" and "draws_in_range gen1" and "draws_in_range gen2"
    and "same_draws R gen1 gen2"
    and "set ps \<subseteq> {p. inGrid w p}" and "wf_world next" and "Size next = Size w" and "R a b"
  shows "\<exists>next' r1 r2.
         forEach ps (\<lambda>(row, col). visit_mt gen1 w cfg row col) (next, a) = Some (next', r1)
       \<and> forEach ps (\<lambda>(row, col). visit_mt gen2 w cfg row col) (next, b) = Some (next', r2)
       \<and> R r1 r2"
  using assms(5-8)
proof (induction ps arbitrary: "next" a b)
  case Nil
  then show ?case by simp
next
  case (Cons p ps)
  obtain row col where p: "p = (row, col)" by (cases p)
  have inp: "inGrid w (row, col)" using Cons.prems(1) p by simp
  from visit_mt_same [OF assms(1) Cons.prems(2,3) inp assms(2,3,4) Cons.prems(4), of cfg]
  obtain n1 r1 r2 where v: "visit_mt gen1 w cfg row col (next, a) = Some (n1, r1)"
    "visit_mt gen2 w cfg row col (next, b) = Some (n1, r2)" "R r1 r2"
    "wf_world n1" "Size n1 = Size w"
    by blast
  have sub: "set ps \<subseteq> {p. inGrid w p}" using Cons.prems(1) by simp
  show ?case
    using Cons.IH [OF sub v(4,5,3)] v(1,2) by (simp add: p)
qed

lemma StepWorld_mt_single:
  assumes "Threads cfg = 1" and "1 \<le> Size w"
  shows "StepWorld_mt gen seeded now w cfg rnd =
     newEmptyWorldLike w \<bind>
       (\<lambda>next. forEach (allPositions w) (\<lambda>(row, col). visit_mt gen w cfg row col)
                  (next, seeded (now 0))
                \<bind> (\<lambda>st. Some (fst st)))"
proof -
  have one: "upTo 1 = [0]"
    by (simp add: upTo_def)
  have rows: "[0..Size w - 1] = upTo (Size w)"
    by (simp add: upTo_def)
  show ?thesis
    using assms
    by (simp add: StepWorld_mt_def worker_def one rows forEach_nested allPositions_def
        split: Option.bind_split)
qed

lemma StepWorld_mt_empty:
  assumes "Threads cfg = 1" and "Size w = 0"
  shows "StepWorld_mt gen seeded now w cfg rnd = None"
  using assms by (simp add: StepWorld_mt_def split: Option.bind_split)

text \<open>
  Claim C5, as the code has it.  The step of the multi-threaded variant with
  \<open>threads = 1\<close> is a function of the world, the configuration and the reading of the clock
  from which its one goroutine seeds its generator; the argument \<open>rnd\<close> is not read.  Take
  two runs from the same well-formed world, under the same configuration with
  \<open>Threads = 1\<close>, each with a generator of its own, such that the generators the two
  goroutines build from their clock readings are in states related by \<open>R\<close> (the same seed)
  and answer equal draws from related states.  Whatever the two arguments \<open>rnd\<close> are, the
  runs have the same outcome: on a grid of side at least 1 both return, with the same next
  generation, cell for cell (on a grid of side 0 both panic in \<open>w.Size / threads\<close>).
\<close>

theorem StepWorld_mt_deterministic:
  assumes "wf_world w" and "Threads cfg = 1"
    and "draws_in_range gen1" and "draws_in_range gen2"
    and "same_draws R gen1 gen2" and "R (seeded1 (now1 0)) (seeded2 (now2 0))"
  shows "StepWorld_mt gen1 seeded1 now1 w cfg rnd1 = StepWorld_mt gen2 seeded2 now2 w cfg rnd2
       \<and> (1 \<le> Size w \<longrightarrow>
            (\<exists>result. StepWorld_mt gen1 seeded1 now1 w cfg rnd1 = Some result))"
proof (cases "1 \<le> Size w")
  case True
  from newEmptyWorldLike_wf [OF assms(1)]
  obtain fresh where fresh: "newEmptyWorldLike w = Some fresh" "wf_world fresh"
    "Size fresh = Size w"
    by blast
  have all: "set (allPositions w) \<subseteq> {p. inGrid w p}"
    by (simp add: set_allPositions)
  from scan_mt_same [OF assms(1,3,4,5) all fresh(2,3) assms(6), of cfg]
  obtain result r1 r2 where
    "forEach (allPositions w) (\<lambda>(row, col). visit_mt gen1 w cfg row col)
       (fresh, seeded1 (now1 0)) = Some (result, r1)"
    "forEach (allPositions w) (\<lambda>(row, col). visit_mt gen2 w cfg row col)
       (fresh, seeded2 (now2 0)) = Some (result, r2)"
    by blast
  then show ?thesis
    using fresh(1) by (simp add: StepWorld_mt_single [OF assms(2) True])
next
  case False
  then have "Size w = 0"
    using assms(1) by (simp add: wf_world_def)
  then show ?thesis
    by (simp add: StepWorld_mt_empty [OF assms(2)])
qed

text \<open>
  Two generators with different state types, the integer counter \<open>exGen\<close> and the natural
  counter \<open>exGenNat\<close>, both seeded from the clock reading 1, and two different arguments
  \<open>rnd\<close>: the result of the second run is obtained from the result of the first by the
  theorem.
\<close>

theorem StepWorld_mt_deterministic_witness:
  "StepWorld_mt exGen exSeed (exClock 1)
      (exWorld [[fishC 0, emptyC, emptyC], [fishC 0, fishC 1, fishC 0],
                [emptyC, sharkC 0 3, emptyC]]) exCfg (0 :: int)
     = Some (exWorld [[emptyC, fishC 2, fishC 1], [emptyC, sharkC 1 5, emptyC],
                      [fishC 1, emptyC, emptyC]])
   \<and> StepWorld_mt exGenNat exSeedNat (exClock 1)
      (exWorld [[fishC 0, emptyC, emptyC], [fishC 0, fishC 1, fishC 0],
                [emptyC, sharkC 0 3, emptyC]]) exCfg True
     = Some (exWorld [[emptyC, fishC 2, fishC 1], [emptyC, sharkC 1 5, emptyC],
                      [fishC 1, emptyC, emptyC]])"
proof -
  let ?W = "exWorld [[fishC 0, emptyC, emptyC], [fishC 0, fishC 1, fishC 0],
                     [emptyC, sharkC 0 3, emptyC]]"
  let ?X = "exWorld [[emptyC, fishC 2, fishC 1], [emptyC, sharkC 1 5, emptyC],
                     [fishC 1, emptyC, emptyC]]"
  have wf: "wf_world ?W"
    by (simp add: ex_defs wf_world_def)
  have threads: "Threads exCfg = 1"
    by (simp add: ex_defs)
  have rng: "draws_in_range exGenNat"
    by (simp add: draws_in_range_def exGenNat_def)
  have same: "same_draws (\<lambda>a b. a = int b) exGen exGenNat"
    by (simp add: same_draws_def exGen_def exGenNat_def)
  have seed: "exSeed (exClock 1 0) = int (exSeedNat (exClock 1 0))"
    by (simp add: exSeed_def exSeedNat_def)
  have run: "StepWorld_mt exGen exSeed (exClock 1) ?W exCfg (0 :: int) = Some ?X"
    by (simp add: StepWorld_mt_def worker_def visit_mt_def stepFish_mt_def stepShark_mt_def
        holds_def exSeed_def exClock_def ex_defs getCell_def setCell_def index_def
        Neighbors_def wrap_def Intn_def word_sle_eq newEmptyWorldLike_def makeCells_def
        upTo_def upto.simps zeroCell_def numeral_eq_Suc half_def signed_divide_int_def)
  from StepWorld_mt_deterministic [where R = "\<lambda>a b. a = int b" and ?seeded1.0 = exSeed
      and ?seeded2.0 = exSeedNat and ?now1.0 = "exClock 1" and ?now2.0 = "exClock 1"
      and ?rnd1.0 = "0 :: int" and ?rnd2.0 = True,
      OF wf threads exGen_in_range rng same seed]
  have "StepWorld_mt exGen exSeed (exClock 1) ?W exCfg (0 :: int)
      = StepWorld_mt exGenNat exSeedNat (exClock 1) ?W exCfg True"
    by simp
  with run have "StepWorld_mt exGenNat exSeedNat (exClock 1) ?W exCfg True = Some ?X"
    by simp
  with run show ?thesis by simp
qed

text \<open>
  The claim fails as stated.  Two runs from the same world, under the same configuration
  with \<open>Threads = 1\<close> and with the same argument \<open>rnd\<close>, differ as soon as the clock reads 0
  in the one and 1 in the other: the fish of \<open>(1, 1)\<close> moves north in the first and south in
  the second.
\<close>

theorem StepWorld_mt_clock_counterexample:
  "Threads exCfg = 1
   \<and> StepWorld_mt exGen exSeed (exClock 0)
      (exWorld [[emptyC, emptyC, emptyC], [emptyC, fishC 0, emptyC], [emptyC, emptyC, emptyC]])
      exCfg (7 :: int)
     = Some (exWorld [[emptyC, fishC 1, emptyC], [emptyC, emptyC, emptyC], [emptyC, emptyC, emptyC]])
   \<and> StepWorld_mt exGen exSeed (exClock 1)
      (exWorld [[emptyC, emptyC, emptyC], [emptyC, fishC 0, emptyC], [emptyC, emptyC, emptyC]])
      exCfg (7 :: int)
     = Some (exWorld [[emptyC, emptyC, emptyC], [emptyC, emptyC, emptyC], [emptyC, fishC 1, emptyC]])
   \<and> exWorld [[emptyC, fishC 1, emptyC], [emptyC, emptyC, emptyC], [emptyC, emptyC, emptyC]]
     \<noteq> exWorld [[emptyC, emptyC, emptyC], [emptyC, emptyC, emptyC], [emptyC, fishC 1, emptyC]]"
  by (simp add: StepWorld_mt_def worker_def visit_mt_def stepFish_mt_def stepShark_mt_def
      holds_def exSeed_def exClock_def ex_defs getCell_def setCell_def index_def
      Neighbors_def wrap_def Intn_def word_sle_eq newEmptyWorldLike_def makeCells_def
      upTo_def upto.simps zeroCell_def numeral_eq_Suc)

section \<open>The population initialiser\<close>

lemma swap_result:
  assumes "swap xs ij = Some ys"
  shows "set ys = set xs \<and> distinct ys = distinct xs \<and> length ys = length xs"
proof -
  from assms have i: "nat (fst ij) < length xs" and j: "nat (snd ij) < length xs"
    and ys: "ys = xs[nat (fst ij) := xs ! nat (snd ij), nat (snd ij) := xs ! nat (fst ij)]"
    by (auto simp: swap_def index_def split: Option.bind_splits if_splits)
  show ?thesis
    unfolding ys using set_swap [OF i j] distinct_swap [OF i j] by simp
qed

lemma swap_total:
  assumes "0 \<le> fst ij" and "fst ij < int (length xs)"
    and "0 \<le> snd ij" and "snd ij < int (length xs)"
  shows "\<exists>ys. swap xs ij = Some ys"
  using assms by (simp add: swap_def index_def)

lemma Shuffle_result:
  assumes "Shuffle swaps xs = Some ys"
  shows "set ys = set xs \<and> distinct ys = distinct xs \<and> length ys = length xs"
  using assms unfolding Shuffle_def
proof (induction swaps arbitrary: xs)
  case Nil
  then show ?case by simp
next
  case (Cons ij swaps)
  from Cons.prems obtain zs where zs: "swap xs ij = Some zs"
    and rest: "forEach swaps (\<lambda>ij ys. swap ys ij) zs = Some ys"
    by (auto split: Option.bind_splits)
  show ?case
    using Cons.IH [OF rest] swap_result [OF zs] by simp
qed

lemma Shuffle_total:
  assumes "\<forall>ij \<in> set swaps. 0 \<le> fst ij \<and> fst ij < int (length xs)
              \<and> 0 \<le> snd ij \<and> snd ij < int (length xs)"
  shows "\<exists>ys. Shuffle swaps xs = Some ys"
  using assms unfolding Shuffle_def
proof (induction swaps arbitrary: xs)
  case Nil
  then show ?case by simp
next
  case (Cons ij swaps)
  from Cons.prems swap_total [of ij xs] obtain zs where zs: "swap xs ij = Some zs"
    by auto
  have "length zs = length xs"
    using swap_result [OF zs] by simp
  then have "\<exists>ys. forEach swaps (\<lambda>ij ys. swap ys ij) zs = Some ys"
    using Cons.IH [of zs] Cons.prems by simp
  then show ?case
    using zs by simp
qed

lemma updCell_wf:
  assumes "wf_world w"
  shows "updCell w p f = (if inGrid w p then Some (put w p (f (cellAt w p))) else None)"
  using assms by (simp add: updCell_def getCell_wf setCell_wf)

lemma put_put_same:
  assumes "wf_world w" and "inGrid w p"
  shows "put (put w p a) p b = put w p b"
proof -
  have "nat (fst p) < length (Cells w)"
    using assms by (simp add: wf_world_def inGrid_def)
  then show ?thesis
    by (simp add: put_def)
qed

lemma wStarve_put [simp]: "wStarve (put w p v) = wStarve w"
  by (simp add: put_def)

lemma updCell_put:
  assumes "wf_world w" and "inGrid w p"
  shows "updCell (put w p v) p f = Some (put w p (f v))"
proof -
  have "updCell (put w p v) p f = Some (put (put w p v) p (f (cellAt (put w p v) p)))"
    using updCell_wf [OF wf_put [OF assms(1)], of p v p f] assms(2) by simp
  then show ?thesis
    using cellAt_put [OF assms(1,2,2)] put_put_same [OF assms] by simp
qed

lemma shark_cell:
  fixes c :: Cell
  shows "c\<lparr>Entity := Shark, Energy := e, BreedTimer := 0\<rparr>
           = \<lparr>Entity = Shark, BreedTimer = 0, Energy = e\<rparr>"
  by (cases c) simp

lemma fish_cell:
  fixes c :: Cell
  shows "c\<lparr>Entity := Fish, BreedTimer := 0\<rparr>
           = \<lparr>Entity = Fish, BreedTimer = 0, Energy = Energy c\<rparr>"
  by (cases c) simp

lemma three_updates:
  assumes "wf_world w" and "inGrid w p"
  shows "(updCell w p (\<lambda>c. c\<lparr>Entity := Shark\<rparr>) \<bind>
           (\<lambda>w1. updCell w1 p (\<lambda>c. c\<lparr>Energy := wStarve w1\<rparr>) \<bind>
             (\<lambda>w2. updCell w2 p (\<lambda>c. c\<lparr>BreedTimer := 0\<rparr>) \<bind> k)))
         = k (placeShark w p)"
  using assms by (simp add: updCell_wf updCell_put [OF assms] placeShark_def shark_cell)

lemma two_updates:
  assumes "wf_world w" and "inGrid w p"
  shows "(updCell w p (\<lambda>c. c\<lparr>Entity := Fish\<rparr>) \<bind>
           (\<lambda>w1. updCell w1 p (\<lambda>c. c\<lparr>BreedTimer := 0\<rparr>)))
         = Some (put w p \<lparr>Entity = Fish, BreedTimer = 0, Energy = Energy (cellAt w p)\<rparr>)"
  using assms by (simp add: updCell_wf updCell_put [OF assms] fish_cell)


lemma wf_placeShark: "wf_world w \<Longrightarrow> wf_world (placeShark w p)"
  by (simp add: placeShark_def wf_put)

lemma wf_placeOneFish: "wf_world w \<Longrightarrow> wf_world (placeOneFish w p)"
  by (simp add: placeOneFish_def wf_put)

lemma inGrid_placeShark [simp]: "inGrid (placeShark w p) q = inGrid w q"
  by (simp add: placeShark_def)

lemma inGrid_placeOneFish [simp]: "inGrid (placeOneFish w p) q = inGrid w q"
  by (simp add: placeOneFish_def)

lemma slice_step:
  assumes "0 \<le> idx" and "idx < int (length ps)"
  shows "take (Suc n) (drop (nat idx) ps) = ps ! nat idx # take n (drop (nat (idx + 1)) ps)"
proof -
  have "nat idx < length ps" using assms by linarith
  then have "drop (nat idx) ps = ps ! nat idx # drop (Suc (nat idx)) ps"
    by (simp add: Cons_nth_drop_Suc)
  moreover have "nat (idx + 1) = Suc (nat idx)"
    using assms(1) by simp
  ultimately show ?thesis by simp
qed

lemma placeSharks_spec:
  assumes "wf_world w" and "set positions \<subseteq> {p. inGrid w p}" and "0 \<le> idx"
    and "n = nat (numShark - shark)"
  shows "placeSharks positions numShark shark idx w
     = Some (foldl placeShark w (take n (drop (nat idx) positions)),
             idx + int (length (take n (drop (nat idx) positions))))"
  using assms
proof (induction n arbitrary: shark idx w)
  case 0
  then have "\<not> shark < numShark" by simp
  then show ?case
    by (subst placeSharks.simps) (simp del: placeSharks.simps)
next
  case (Suc n)
  then have lt: "shark < numShark" by linarith
  show ?case
  proof (cases "idx < int (length positions)")
    case False
    then have "drop (nat idx) positions = []" by simp
    then show ?thesis
      using False by (subst placeSharks.simps) (simp del: placeSharks.simps)
  next
    case True
    let ?pos = "positions ! nat idx"
    have pos: "index positions idx = Some ?pos"
      using True Suc.prems(3) by (simp add: index_def)
    have "nat idx < length positions" using True Suc.prems(3) by linarith
    then have inpos: "inGrid w ?pos"
      using Suc.prems(2) nth_mem by blast
    have sub: "set positions \<subseteq> {p. inGrid (placeShark w ?pos) p}"
      using Suc.prems(2) by simp
    have n: "n = nat (numShark - (shark + 1))"
      using Suc.prems(4) by linarith
    have step: "placeSharks positions numShark shark idx w
        = placeSharks positions numShark (shark + 1) (idx + 1) (placeShark w ?pos)"
      using lt True pos three_updates [OF Suc.prems(1) inpos]
      by (subst placeSharks.simps) (simp del: placeSharks.simps)
    have "0 \<le> idx + 1" using Suc.prems(3) by simp
    from Suc.IH [OF wf_placeShark [OF Suc.prems(1)] sub this n]
    show ?thesis
      unfolding step slice_step [OF Suc.prems(3) True] by simp
  qed
qed

lemma placeFish_spec:
  assumes "wf_world w" and "set positions \<subseteq> {p. inGrid w p}" and "0 \<le> idx"
    and "n = nat (numFish - fish)"
  shows "placeFish positions numFish fish idx w
     = Some (foldl placeOneFish w (take n (drop (nat idx) positions)),
             idx + int (length (take n (drop (nat idx) positions))))"
  using assms
proof (induction n arbitrary: fish idx w)
  case 0
  then have "\<not> fish < numFish" by simp
  then show ?case
    by (subst placeFish.simps) (simp del: placeFish.simps)
next
  case (Suc n)
  then have lt: "fish < numFish" by linarith
  show ?case
  proof (cases "idx < int (length positions)")
    case False
    then have "drop (nat idx) positions = []" by simp
    then show ?thesis
      using False by (subst placeFish.simps) (simp del: placeFish.simps)
  next
    case True
    let ?pos = "positions ! nat idx"
    have pos: "index positions idx = Some ?pos"
      using True Suc.prems(3) by (simp add: index_def)
    have "nat idx < length positions" using True Suc.prems(3) by linarith
    then have inpos: "inGrid w ?pos"
      using Suc.prems(2) nth_mem by blast
    have sub: "set positions \<subseteq> {p. inGrid (placeOneFish w ?pos) p}"
      using Suc.prems(2) by simp
    have n: "n = nat (numFish - (fish + 1))"
      using Suc.prems(4) by linarith
    have cell: "getCell w (fst ?pos) (snd ?pos) = Some (cellAt w ?pos)"
      using inpos Suc.prems(1) by (simp add: getCell_wf)
    have step: "placeFish positions numFish fish idx w
        = placeFish positions numFish (fish + 1) (idx + 1) (placeOneFish w ?pos)"
      using lt True pos cell two_updates [OF Suc.prems(1) inpos]
      by (subst placeFish.simps) (simp add: placeOneFish_def del: placeFish.simps)
    have "0 \<le> idx + 1" using Suc.prems(3) by simp
    from Suc.IH [OF wf_placeOneFish [OF Suc.prems(1)] sub this n]
    show ?thesis
      unfolding step slice_step [OF Suc.prems(3) True] by simp
  qed
qed


lemma Size_placeShark [simp]: "Size (placeShark w p) = Size w"
  by (simp add: placeShark_def)

lemma Size_placeOneFish [simp]: "Size (placeOneFish w p) = Size w"
  by (simp add: placeOneFish_def)

lemma wStarve_placeShark [simp]: "wStarve (placeShark w p) = wStarve w"
  by (simp add: placeShark_def)

lemma foldl_placeShark:
  assumes "wf_world w" and "set ps \<subseteq> {p. inGrid w p}"
  shows "wf_world (foldl placeShark w ps)" and "Size (foldl placeShark w ps) = Size w"
    and "inGrid w q \<Longrightarrow> cellAt (foldl placeShark w ps) q =
             (if q \<in> set ps then \<lparr>Entity = Shark, BreedTimer = 0, Energy = wStarve w\<rparr>
              else cellAt w q)"
  using assms
proof (induction ps arbitrary: w)
  case Nil
  {
    case 1 then show ?case by simp
  next
    case 2 then show ?case by simp
  next
    case 3 then show ?case by simp
  }
next
  case (Cons p ps)
  {
    case 1
    let ?w = "placeShark w p"
    from 1 have "wf_world ?w" and "set ps \<subseteq> {q. inGrid ?w q}"
      by (simp_all add: wf_placeShark)
    then show ?case using Cons.IH(1) by simp
  next
    case 2
    let ?w = "placeShark w p"
    from 2 have "wf_world ?w" and "set ps \<subseteq> {q. inGrid ?w q}"
      by (simp_all add: wf_placeShark)
    then show ?case using Cons.IH(2) [of ?w] by simp
  next
    case 3
    let ?w = "placeShark w p"
    from 3 have wf': "wf_world ?w" and sub: "set ps \<subseteq> {q. inGrid ?w q}"
      and inp: "inGrid w p" and inq: "inGrid ?w q"
      by (simp_all add: wf_placeShark)
    have first: "cellAt ?w q = (if q = p
        then \<lparr>Entity = Shark, BreedTimer = 0, Energy = wStarve w\<rparr> else cellAt w q)"
      unfolding placeShark_def using cellAt_put [OF 3(2) inp 3(1)] .
    show ?case
      unfolding foldl_Cons Cons.IH(3) [OF inq wf' sub] first by auto
  }
qed

lemma foldl_placeOneFish:
  assumes "wf_world w" and "set ps \<subseteq> {p. inGrid w p}"
  shows "wf_world (foldl placeOneFish w ps)" and "Size (foldl placeOneFish w ps) = Size w"
    and "inGrid w q \<Longrightarrow> cellAt (foldl placeOneFish w ps) q =
             (if q \<in> set ps \<and> Entity (cellAt w q) = Empty
              then \<lparr>Entity = Fish, BreedTimer = 0, Energy = Energy (cellAt w q)\<rparr>
              else cellAt w q)"
  using assms
proof (induction ps arbitrary: w)
  case Nil
  {
    case 1 then show ?case by simp
  next
    case 2 then show ?case by simp
  next
    case 3 then show ?case by simp
  }
next
  case (Cons p ps)
  {
    case 1
    let ?w = "placeOneFish w p"
    from 1 have "wf_world ?w" and "set ps \<subseteq> {q. inGrid ?w q}"
      by (simp_all add: wf_placeOneFish)
    then show ?case using Cons.IH(1) by simp
  next
    case 2
    let ?w = "placeOneFish w p"
    from 2 have "wf_world ?w" and "set ps \<subseteq> {q. inGrid ?w q}"
      by (simp_all add: wf_placeOneFish)
    then show ?case using Cons.IH(2) [of ?w] by simp
  next
    case 3
    let ?w = "placeOneFish w p"
    from 3 have wf': "wf_world ?w" and sub: "set ps \<subseteq> {q. inGrid ?w q}"
      and inp: "inGrid w p" and inq: "inGrid ?w q"
      by (simp_all add: wf_placeOneFish)
    have first: "cellAt ?w q = (if q = p \<and> Entity (cellAt w p) = Empty
        then \<lparr>Entity = Fish, BreedTimer = 0, Energy = Energy (cellAt w p)\<rparr>
        else cellAt w q)"
      unfolding placeOneFish_def
      using cellAt_put [OF 3(2) inp 3(1)] cellAt_put [OF 3(2) inp inp] by auto
    show ?case
      unfolding foldl_Cons Cons.IH(3) [OF inq wf' sub] first by auto
  }
qed

lemma length_allPositions: "length (allPositions w) = nat (Size w) * nat (Size w)"
proof -
  have "length (upTo n) = nat n" for n
    by (simp add: upTo_def)
  then show ?thesis
    by (simp add: allPositions_def length_concat comp_def sum_list_triv)
qed

lemma Populate_spec:
  assumes "wf_world w" and "Shuffle swaps (allPositions w) = Some ps"
  shows "Populate swaps w numFish numShark =
     Some (foldl placeOneFish (foldl placeShark w (take (nat numShark) ps))
             (take (nat numFish) (drop (length (take (nat numShark) ps)) ps)))"
proof -
  have sub: "set ps \<subseteq> {p. inGrid w p}"
    using Shuffle_result [OF assms(2)] by (simp add: set_allPositions)
  let ?S = "take (nat numShark) ps"
  let ?w1 = "foldl placeShark w ?S"
  have sharks: "placeSharks ps numShark 0 0 w = Some (?w1, int (length ?S))"
    using placeSharks_spec [OF assms(1) sub, of 0 "nat numShark" numShark 0] by simp
  have subS: "set ?S \<subseteq> {p. inGrid w p}"
    using sub by (meson order_trans set_take_subset)
  have w1: "wf_world ?w1" "Size ?w1 = Size w"
    using foldl_placeShark [OF assms(1) subS] by simp_all
  have sub1: "set ps \<subseteq> {p. inGrid ?w1 p}"
    using sub w1(2) by (simp add: inGrid_def)
  have fish: "placeFish ps numFish 0 (int (length ?S)) ?w1
      = Some (foldl placeOneFish ?w1 (take (nat numFish) (drop (length ?S) ps)),
              int (length ?S) + int (length (take (nat numFish) (drop (length ?S) ps))))"
    using placeFish_spec [OF w1(1) sub1, of "int (length ?S)" "nat numFish" numFish 0] by simp
  show ?thesis
    using assms(2) sharks fish by (simp add: Populate_def)
qed

lemma Populate_cells:
  assumes "wf_world w" and "Shuffle swaps (allPositions w) = Some ps"
    and "Populate swaps w numFish numShark = Some w'"
  shows "wf_world w'" and "Size w' = Size w"
    and "inGrid w q \<Longrightarrow> cellAt w' q =
      (if q \<in> set (take (nat numShark) ps)
       then \<lparr>Entity = Shark, BreedTimer = 0, Energy = wStarve w\<rparr>
       else if q \<in> set (take (nat numFish) (drop (length (take (nat numShark) ps)) ps))
               \<and> Entity (cellAt w q) = Empty
       then \<lparr>Entity = Fish, BreedTimer = 0, Energy = Energy (cellAt w q)\<rparr>
       else cellAt w q)"
proof -
  let ?S = "take (nat numShark) ps"
  let ?F = "take (nat numFish) (drop (length ?S) ps)"
  let ?w1 = "foldl placeShark w ?S"
  have sub: "set ps \<subseteq> {p. inGrid w p}"
    using Shuffle_result [OF assms(2)] by (simp add: set_allPositions)
  have subS: "set ?S \<subseteq> {p. inGrid w p}"
    using sub by (meson order_trans set_take_subset)
  have "set ?F \<subseteq> set ps"
    by (meson order_trans set_take_subset set_drop_subset)
  then have subF: "set ?F \<subseteq> {p. inGrid w p}"
    using sub by blast
  note s = foldl_placeShark [OF assms(1) subS]
  have subF1: "set ?F \<subseteq> {p. inGrid ?w1 p}"
    using subF s(2) by (simp add: inGrid_def)
  note f = foldl_placeOneFish [OF s(1) subF1]
  have w': "w' = foldl placeOneFish ?w1 ?F"
    using Populate_spec [OF assms(1,2), of numFish numShark] assms(3) by simp
  show "wf_world w'" and "Size w' = Size w"
    unfolding w' using f(1,2) s(2) by simp_all
  show "cellAt w' q =
      (if q \<in> set ?S
       then \<lparr>Entity = Shark, BreedTimer = 0, Energy = wStarve w\<rparr>
       else if q \<in> set ?F \<and> Entity (cellAt w q) = Empty
       then \<lparr>Entity = Fish, BreedTimer = 0, Energy = Energy (cellAt w q)\<rparr>
       else cellAt w q)" if q: "inGrid w q"
  proof -
    have q1: "inGrid ?w1 q" using q s(2) by (simp add: inGrid_def)
    show ?thesis
      unfolding w' f(3) [OF q1] s(3) [OF q] by auto
  qed
qed

text \<open>
  Claim C6.  On a well-formed grid whose cells are all \<open>Empty\<close>, with counts that are not
  negative and a shuffle that swaps indices below \<open>size\<^sup>2\<close>, \<open>Populate\<close> returns (it does
  not panic, whatever the counts), and in the world it leaves there are exactly
  \<open>min numShark size\<^sup>2\<close> sharks, each with \<open>Energy = Starve\<close> and \<open>BreedTimer = 0\<close>, and
  exactly \<open>min numFish (size\<^sup>2 - sharks)\<close> fish, each with \<open>BreedTimer = 0\<close>.  The counts are
  counts of cells, so the creatures are on distinct coordinates, and the creatures beyond
  \<open>size\<^sup>2\<close> are not placed.
\<close>

theorem Populate_places_min_counts:
  assumes "wf_world w" and "\<forall>p. inGrid w p \<longrightarrow> Entity (cellAt w p) = Empty"
    and "0 \<le> numShark" and "0 \<le> numFish"
    and "\<forall>ij \<in> set swaps. 0 \<le> fst ij \<and> fst ij < Size w * Size w
                           \<and> 0 \<le> snd ij \<and> snd ij < Size w * Size w"
  shows "\<exists>w'. Populate swaps w numFish numShark = Some w'
       \<and> wf_world w' \<and> Size w' = Size w
       \<and> countEntities w' Shark = Some (min numShark (Size w * Size w))
       \<and> countEntities w' Fish
            = Some (min numFish (Size w * Size w - min numShark (Size w * Size w)))
       \<and> (\<forall>r c cell. getCell w' r c = Some cell \<and> Entity cell = Shark \<longrightarrow>
             Energy cell = wStarve w \<and> BreedTimer cell = 0)
       \<and> (\<forall>r c cell. getCell w' r c = Some cell \<and> Entity cell = Fish \<longrightarrow>
             BreedTimer cell = 0)"
proof -
  have size: "0 \<le> Size w" using assms(1) by (simp add: wf_world_def)
  have len: "int (length (allPositions w)) = Size w * Size w"
    using size by (simp add: length_allPositions)
  from Shuffle_total [of swaps "allPositions w"] assms(5) len
  obtain ps where ps: "Shuffle swaps (allPositions w) = Some ps"
    by auto
  have perm: "set ps = {p. inGrid w p}" "distinct ps" "length ps = length (allPositions w)"
    using Shuffle_result [OF ps] by (simp_all add: set_allPositions distinct_allPositions)
  let ?S = "take (nat numShark) ps"
  let ?F = "take (nat numFish) (drop (length ?S) ps)"
  obtain w' where w': "Populate swaps w numFish numShark = Some w'"
    using Populate_spec [OF assms(1) ps] by blast
  note cells = Populate_cells [OF assms(1) ps w']
  have S_take: "take (length ?S) ps = ?S"
    by (cases "nat numShark \<le> length ps") (simp_all add: min_def)
  have disj: "set ?S \<inter> set ?F = {}"
  proof -
    have "set (take (length ?S) ps) \<inter> set (drop (length ?S) ps) = {}"
      by (rule set_take_disj_set_drop_if_distinct [OF perm(2)]) simp
    then have "set ?S \<inter> set (drop (length ?S) ps) = {}"
      unfolding S_take .
    moreover have "set ?F \<subseteq> set (drop (length ?S) ps)"
      by (rule set_take_subset)
    ultimately show ?thesis by blast
  qed
  have inS: "set ?S \<subseteq> {p. inGrid w p}"
    by (rule order_trans [OF set_take_subset]) (simp add: perm(1))
  have "set ?F \<subseteq> set (drop (length ?S) ps)"
    by (rule set_take_subset)
  also have "\<dots> \<subseteq> set ps"
    by (rule set_drop_subset)
  finally have inF: "set ?F \<subseteq> {p. inGrid w p}"
    by (simp add: perm(1))
  have empty: "Entity (cellAt w q) = Empty" if "inGrid w q" for q
    using assms(2) that by blast
  have cell: "cellAt w' q =
      (if q \<in> set ?S then \<lparr>Entity = Shark, BreedTimer = 0, Energy = wStarve w\<rparr>
       else if q \<in> set ?F then \<lparr>Entity = Fish, BreedTimer = 0, Energy = Energy (cellAt w q)\<rparr>
       else cellAt w q)" if "inGrid w q" for q
    unfolding cells(3) [OF that] using empty [OF that] by simp
  have grid': "inGrid w' q = inGrid w q" for q
    using cells(2) by (simp add: inGrid_def)
  have "inGrid w' p \<and> Entity (cellAt w' p) = Shark \<longleftrightarrow> p \<in> set ?S" for p
  proof (cases "inGrid w p")
    case True
    show ?thesis
      unfolding grid' cell [OF True] using True empty [OF True] by simp
  next
    case False
    then show ?thesis using inS by (auto simp: grid')
  qed
  then have sharks: "{p. inGrid w' p \<and> Entity (cellAt w' p) = Shark} = set ?S"
    by blast
  have "inGrid w' p \<and> Entity (cellAt w' p) = Fish \<longleftrightarrow> p \<in> set ?F" for p
  proof (cases "inGrid w p")
    case True
    have "p \<in> set ?S \<Longrightarrow> p \<notin> set ?F"
      using disj by blast
    then show ?thesis
      unfolding grid' cell [OF True] using True empty [OF True] by auto
  next
    case False
    then show ?thesis using inF by (auto simp: grid')
  qed
  then have fish: "{p. inGrid w' p \<and> Entity (cellAt w' p) = Fish} = set ?F"
    by blast
  have "distinct ?S" "distinct ?F"
    using perm(2) by simp_all
  then have cardS: "card (set ?S) = length ?S" and cardF: "card (set ?F) = length ?F"
    by (simp_all add: distinct_card)
  have lenS: "int (length ?S) = min numShark (Size w * Size w)"
    using assms(3) len perm(3) by simp
  have lenF: "int (length ?F) = min numFish (Size w * Size w - min numShark (Size w * Size w))"
    using assms(3,4) len perm(3) by simp
  have cntS: "countEntities w' Shark = Some (min numShark (Size w * Size w))"
    using countEntities_card [OF cells(1), of Shark] sharks cardS lenS by simp
  have cntF: "countEntities w' Fish
            = Some (min numFish (Size w * Size w - min numShark (Size w * Size w)))"
    using countEntities_card [OF cells(1), of Fish] fish cardF lenF by simp
  have props: "(Entity cell = Shark \<longrightarrow> Energy cell = wStarve w \<and> BreedTimer cell = 0)
       \<and> (Entity cell = Fish \<longrightarrow> BreedTimer cell = 0)"
    if "getCell w' r c = Some cell" for r c cell
  proof -
    from that have "inGrid w' (r, c)" and "cell = cellAt w' (r, c)"
      using cells(1) by (simp_all add: getCell_wf split: if_splits)
    then show ?thesis
      using cell [of "(r, c)"] grid' [of "(r, c)"] empty [of "(r, c)"]
      by (simp split: if_splits)
  qed
  show ?thesis
    apply (rule exI [of _ w'])
    apply (intro conjI)
          apply (rule w')
         apply (rule cells(1))
        apply (rule cells(2))
       apply (rule cntS)
      apply (rule cntF)
     apply (use props in blast)
    apply (use props in blast)
    done
qed


text \<open>
  Two sharks and ten fish asked for on a 3 by 3 grid: the two sharks and seven fish are
  placed, the other three fish are not.
\<close>

theorem Populate_places_min_counts_witness:
  "Populate [(8, 0), (7, 3)]
      (exWorld [[emptyC, emptyC, emptyC], [emptyC, emptyC, emptyC], [emptyC, emptyC, emptyC]])
      10 2
     = Some (exWorld [[fishC 0, sharkC 0 5, fishC 0],
                      [fishC 0, fishC 0, fishC 0],
                      [fishC 0, fishC 0, sharkC 0 5]])
   \<and> countEntities (exWorld [[fishC 0, sharkC 0 5, fishC 0],
                             [fishC 0, fishC 0, fishC 0],
                             [fishC 0, fishC 0, sharkC 0 5]]) Shark = Some 2
   \<and> countEntities (exWorld [[fishC 0, sharkC 0 5, fishC 0],
                             [fishC 0, fishC 0, fishC 0],
                             [fishC 0, fishC 0, sharkC 0 5]]) Fish = Some 7"
proof -
  let ?W = "exWorld [[emptyC, emptyC, emptyC], [emptyC, emptyC, emptyC],
                     [emptyC, emptyC, emptyC]]"
  let ?R = "exWorld [[fishC 0, sharkC 0 5, fishC 0], [fishC 0, fishC 0, fishC 0],
                     [fishC 0, fishC 0, sharkC 0 5]]"
  have wf: "wf_world ?W"
    by (simp add: ex_defs wf_world_def)
  have empty: "\<forall>p. inGrid ?W p \<longrightarrow> Entity (cellAt ?W p) = Empty"
  proof (intro allI impI)
    fix p assume "inGrid ?W p"
    then have "fst p \<in> {0, 1, 2} \<and> snd p \<in> {0, 1, 2}"
      by (auto simp: inGrid_def ex_defs)
    then show "Entity (cellAt ?W p) = Empty"
      by (auto simp: cellAt_def ex_defs)
  qed
  have swaps: "\<forall>ij \<in> set [(8, 0), (7, 3)]. 0 \<le> fst ij \<and> fst ij < Size ?W * Size ?W
                           \<and> 0 \<le> snd ij \<and> snd ij < Size ?W * Size ?W"
    by (simp add: ex_defs)
  have run: "Populate [(8, 0), (7, 3)] ?W 10 2 = Some ?R"
    by (simp add: Populate_def Shuffle_def swap_def index_def allPositions_def upTo_def
        upto.simps updCell_def getCell_def setCell_def ex_defs)
  from Populate_places_min_counts [OF wf empty _ _ swaps, of 2 10]
  obtain w' where "Populate [(8, 0), (7, 3)] ?W 10 2 = Some w'"
    and "countEntities w' Shark = Some (min 2 (Size ?W * Size ?W))"
    and "countEntities w' Fish = Some (min 10 (Size ?W * Size ?W - min 2 (Size ?W * Size ?W)))"
    by auto
  with run have "countEntities ?R Shark = Some 2" and "countEntities ?R Fish = Some 7"
    by (simp_all add: ex_defs)
  with run show ?thesis by simp
qed

section \<open>Shark energy in reachable worlds\<close>

lemma energy_decrement:
  fixes e s :: go_int
  assumes "0 <s e" and "e \<le>s s" and "\<not> e - 1 \<le>s 0"
  shows "0 <s e - 1 \<and> e - 1 \<le>s s"
proof -
  have pos: "0 < sint e" using assms(1) by (simp add: word_sless_alt)
  have "sint e < 2 ^ (LENGTH(64) - 1)"
    by (rule sint_lt)
  then have "signed_take_bit (LENGTH(64) - 1) (sint e - 1) = sint e - 1"
    using pos by (intro signed_take_bit_int_eq_self) simp_all
  then have dec: "sint (e - 1) = sint e - 1"
    by (simp add: sint_word_ariths)
  have "sint e \<le> sint s" using assms(2) by (simp add: word_sle_eq)
  then have "e - 1 \<le>s s"
    using dec by (simp add: word_sle_eq)
  moreover have "0 <s e - 1"
    using assms(3) by (simp add: word_sle_eq word_sless_alt)
  ultimately show ?thesis by simp
qed

lemma energy_bounded_put:
  assumes "wf_world w" and "inGrid w p" and "energy_bounded cfg w"
    and "Entity v = Shark \<Longrightarrow> 0 <s Energy v \<and> Energy v \<le>s Starve cfg"
  shows "energy_bounded cfg (put w p v)"
  unfolding energy_bounded_def
proof (intro allI impI)
  fix q assume q: "inGrid (put w p v) q \<and> Entity (cellAt (put w p v) q) = Shark"
  then have inq: "inGrid w q" by simp
  show "0 <s Energy (cellAt (put w p v) q) \<and> Energy (cellAt (put w p v) q) \<le>s Starve cfg"
  proof (cases "q = p")
    case True
    then show ?thesis
      using q assms(4) cellAt_put [OF assms(1,2) inq] by simp
  next
    case False
    then have same: "cellAt (put w p v) q = cellAt w q"
      using cellAt_put [OF assms(1,2) inq] by simp
    have "Entity (cellAt w q) = Shark"
      using q same by simp
    then have "0 <s Energy (cellAt w q) \<and> Energy (cellAt w q) \<le>s Starve cfg"
      using assms(3) inq unfolding energy_bounded_def by blast
    then show ?thesis
      using same by simp
  qed
qed

lemma visit_energy:
  assumes "wf_world w" and "wf_world next" and "Size next = Size w"
    and "inGrid w (row, col)" and "draws_in_range gen"
    and "0 <s Starve cfg" and "energy_bounded cfg w" and "energy_bounded cfg next"
    and "visit gen w cfg row col (next, rnd) = Some (next', rnd')"
  shows "energy_bounded cfg next'"
proof -
  have here: "inGrid next (row, col)"
    using assms(3,4) by (simp add: inGrid_def)
  have full: "0 <s Starve cfg \<and> Starve cfg \<le>s Starve cfg"
    using assms(6) by simp
  have dec: "0 <s Energy (cellAt w (row, col)) - 1
      \<and> Energy (cellAt w (row, col)) - 1 \<le>s Starve cfg"
    if "survives w next (row, col)" and "Entity (cellAt w (row, col)) = Shark"
  proof -
    have "0 <s Energy (cellAt w (row, col)) \<and> Energy (cellAt w (row, col)) \<le>s Starve cfg"
      using assms(4,7) that(2) by (simp add: energy_bounded_def)
    moreover have "\<not> Energy (cellAt w (row, col)) - 1 \<le>s 0"
      using that by (simp add: survives_def starves_def)
    ultimately show ?thesis
      using energy_decrement by blast
  qed
  from assms(1-5) show ?thesis
  proof (cases rule: visit_cases [where cfg = cfg and rnd = rnd])
    case skip
    then show ?thesis using assms(8,9) by simp
  next
    case starve
    then show ?thesis using assms(8,9) by simp
  next
    case (one p v r)
    have "0 <s Energy v \<and> Energy v \<le>s Starve cfg" if "Entity v = Shark"
      using one(7) that full dec [OF one(1)] one(5) by auto
    then have "energy_bounded cfg (put next p v)"
      using energy_bounded_put [OF assms(2) one(3) assms(8)] by blast
    then show ?thesis using one(8) assms(9) by simp
  next
    case (two d v u r)
    have sv: "survives w next (row, col)"
      using two(1) by (simp add: breeds_def)
    have v: "0 <s Energy v \<and> Energy v \<le>s Starve cfg" if "Entity v = Shark"
      using two(9) that full by auto
    have u: "0 <s Energy u \<and> Energy u \<le>s Starve cfg" if "Entity u = Shark"
      using two(10) that full dec [OF sv] two(6) by auto
    have "energy_bounded cfg (put next (row, col) v)"
      using energy_bounded_put [OF assms(2) here assms(8)] v by blast
    moreover have "inGrid (put next (row, col) v) d"
      using two(2) by simp
    ultimately have "energy_bounded cfg (put (put next (row, col) v) d u)"
      using energy_bounded_put [OF wf_put [OF assms(2)]] u by blast
    then show ?thesis using two(11) assms(9) by simp
  qed
qed

lemma StepWorld_energy:
  assumes "wf_world w" and "draws_in_range gen" and "0 <s Starve cfg"
    and "energy_bounded cfg w" and "StepWorld gen w cfg rnd = Some (w', rnd')"
  shows "wf_world w' \<and> energy_bounded cfg w'"
proof -
  from newEmptyWorldLike_wf [OF assms(1)]
  obtain fresh where fresh: "newEmptyWorldLike w = Some fresh" "wf_world fresh"
    "Size fresh = Size w" "\<And>p. inGrid fresh p \<Longrightarrow> cellAt fresh p = zeroCell"
    by blast
  let ?I = "\<lambda>st. wf_world (fst st) \<and> Size (fst st) = Size w \<and> energy_bounded cfg (fst st)"
  let ?body = "\<lambda>(row, col). visit gen w cfg row col"
  have start: "?I (fresh, rnd)"
    using fresh(2,3,4) by (simp add: energy_bounded_def zeroCell_def)
  have keep: "\<exists>t'. ?body x t = Some t' \<and> ?I t'" if "x \<in> set (allPositions w)" and "?I t" for x t
  proof -
    obtain row col where x: "x = (row, col)" by (cases x)
    obtain n r where t: "t = (n, r)" by (cases t)
    have inx: "inGrid w (row, col)"
      using that(1) x by (simp add: set_allPositions)
    have n: "wf_world n" "Size n = Size w" "energy_bounded cfg n"
      using that(2) t by simp_all
    from visit_effect [OF assms(1) n(1,2) inx assms(2), of cfg r]
    obtain n' r' where v: "visit gen w cfg row col (n, r) = Some (n', r')"
      and "wf_world n'" and "Size n' = Size w"
      by blast
    moreover have "energy_bounded cfg n'"
      using visit_energy [OF assms(1) n(1,2) inx assms(2,3,4) n(3) v] .
    ultimately show ?thesis
      by (simp add: x t)
  qed
  from forEach_invariant [of ?I "(fresh, rnd)" "allPositions w" ?body, OF start keep]
  obtain s' where "forEach (allPositions w) ?body (fresh, rnd) = Some s'" and "?I s'"
    by blast
  then show ?thesis
    using assms(5) fresh(1) by (auto simp: StepWorld_flat)
qed


lemma NewWorld_result:
  assumes "NewWorld cfg = Some w0"
  shows "wf_world w0" and "wStarve w0 = Starve cfg"
    and "inGrid w0 p \<Longrightarrow> cellAt w0 p = zeroCell"
proof -
  from assms have nn: "0 \<le> GridSize cfg"
    and w0: "w0 = \<lparr>Size = GridSize cfg,
        Cells = replicate (nat (GridSize cfg)) (replicate (nat (GridSize cfg)) zeroCell),
        wFishBreed = FishBreed cfg, wSharkBreed = SharkBreed cfg, wStarve = Starve cfg\<rparr>"
    by (auto simp: NewWorld_def makeCells_def split: if_splits)
  show "wf_world w0"
    unfolding w0 using wf_replicate [OF nn] .
  show "wStarve w0 = Starve cfg"
    by (simp add: w0)
  show "cellAt w0 p = zeroCell" if "inGrid w0 p"
    using cellAt_replicate [OF that] by (simp add: w0)
qed

lemma Populate_energy:
  assumes "NewWorld cfg = Some w0" and "Populate swaps w0 numFish numShark = Some w"
    and "0 <s Starve cfg"
  shows "wf_world w \<and> energy_bounded cfg w"
proof -
  note new = NewWorld_result [OF assms(1)]
  from assms(2) obtain ps where ps: "Shuffle swaps (allPositions w0) = Some ps"
    by (auto simp: Populate_def split: Option.bind_splits)
  note cells = Populate_cells [OF new(1) ps assms(2)]
  have "0 <s Energy (cellAt w p) \<and> Energy (cellAt w p) \<le>s Starve cfg"
    if "inGrid w p" and "Entity (cellAt w p) = Shark" for p
  proof -
    have p0: "inGrid w0 p"
      using that(1) cells(2) by (simp add: inGrid_def)
    have "cellAt w p = \<lparr>Entity = Shark, BreedTimer = 0, Energy = wStarve w0\<rparr>"
      using that(2) unfolding cells(3) [OF p0] new(3) [OF p0]
      by (simp add: zeroCell_def split: if_splits)
    then show ?thesis
      using assms(3) new(2) by simp
  qed
  then show ?thesis
    using cells(1) unfolding energy_bounded_def by blast
qed

lemma reachable_energy:
  assumes "0 <s Starve cfg" and "draws_in_range gen" and "reachable gen cfg w"
  shows "wf_world w \<and> energy_bounded cfg w"
  using assms(3)
proof (induction rule: reachable.induct)
  case (populated w0 swaps numFish numShark w)
  then show ?case
    using Populate_energy assms(1) by blast
next
  case (stepped w rnd w' rnd')
  then show ?case
    using StepWorld_energy [OF _ assms(2,1)] by blast
qed

text \<open>
  Claim C10.  Under a configuration with \<open>Starve > 0\<close>, every shark cell of every reachable
  world has an energy of at most \<open>Starve\<close> (and above 0): \<open>Populate\<close> gives each shark
  \<open>Starve\<close>, and a step writes a shark with \<open>Starve\<close> or with the energy a shark of the
  previous generation had, minus 1.
\<close>

theorem reachable_shark_energy_at_most_starve:
  assumes "0 <s Starve cfg" and "draws_in_range gen" and "reachable gen cfg w"
    and "getCell w r c = Some cell" and "Entity cell = Shark"
  shows "Energy cell \<le>s Starve cfg \<and> 0 <s Energy cell"
proof -
  have inv: "wf_world w" "energy_bounded cfg w"
    using reachable_energy [OF assms(1-3)] by simp_all
  from assms(4) have "inGrid w (r, c)" and "cell = cellAt w (r, c)"
    using inv(1) by (simp_all add: getCell_wf split: if_splits)
  then show ?thesis
    using inv(2) assms(5) unfolding energy_bounded_def by blast
qed

text \<open>
  The world populated in the example above, and the world one step later: the shark of
  \<open>(0, 1)\<close> has eaten the fish of \<open>(2, 1)\<close> and is at the full energy 5, the shark of
  \<open>(2, 2)\<close> found every neighbour taken and stayed, with energy 4.
\<close>

theorem reachable_shark_energy_at_most_starve_witness:
  "reachable exGen exCfg (exWorld [[fishC 1, emptyC, fishC 1],
                                   [fishC 1, fishC 1, fishC 1],
                                   [fishC 1, sharkC 1 5, sharkC 1 4]])
   \<and> getCell (exWorld [[fishC 1, emptyC, fishC 1],
                       [fishC 1, fishC 1, fishC 1],
                       [fishC 1, sharkC 1 5, sharkC 1 4]]) 2 2 = Some (sharkC 1 4)
   \<and> Energy (sharkC 1 4) \<le>s Starve exCfg"
proof -
  let ?W0 = "exWorld [[emptyC, emptyC, emptyC], [emptyC, emptyC, emptyC],
                      [emptyC, emptyC, emptyC]]"
  let ?R = "exWorld [[fishC 0, sharkC 0 5, fishC 0], [fishC 0, fishC 0, fishC 0],
                     [fishC 0, fishC 0, sharkC 0 5]]"
  let ?R' = "exWorld [[fishC 1, emptyC, fishC 1], [fishC 1, fishC 1, fishC 1],
                      [fishC 1, sharkC 1 5, sharkC 1 4]]"
  have new: "NewWorld exCfg = Some ?W0"
    by (simp add: NewWorld_def makeCells_def ex_defs zeroCell_def numeral_eq_Suc)
  have run: "Populate [(8, 0), (7, 3)] ?W0 10 2 = Some ?R"
    by (simp add: Populate_def Shuffle_def swap_def index_def allPositions_def upTo_def
        upto.simps updCell_def getCell_def setCell_def ex_defs)
  have step: "StepWorld exGen ?R exCfg 0 = Some (?R', 1)"
    by (simp add: stepFish_def stepShark_def ex_defs getCell_def setCell_def index_def
        candidate_def Neighbors_def wrap_def Intn_def word_sle_eq StepWorld_def visit_def
        newEmptyWorldLike_def makeCells_def upTo_def upto.simps zeroCell_def numeral_eq_Suc)
  have reach: "reachable exGen exCfg ?R'"
    using reachable.stepped [OF reachable.populated [OF new run] step] .
  have pos: "0 <s Starve exCfg"
    by (simp add: ex_defs word_sless_alt)
  have cell: "getCell ?R' 2 2 = Some (sharkC 1 4)" and sp: "Entity (sharkC 1 4) = Shark"
    by (simp_all add: getCell_def index_def ex_defs)
  have "Energy (sharkC 1 4) \<le>s Starve exCfg"
    using reachable_shark_energy_at_most_starve [OF pos exGen_in_range reach cell sp] by simp
  with reach cell show ?thesis by simp
qed

end
